(* ===== verification/Go_Prelude.thy ===== *)
theory Go_Prelude
  imports Main "HOL-Library.Word"
begin

text \<open>
  Shared vocabulary of the development.  It fixes how the pieces of the Go language that the
  operator relies on are represented: a stateful computation that may panic (the \<open>go\<close> monad and
  its weakest preconditions), error values and their wrapping by \<^verbatim>\<open>fmt.Errorf\<close>, the
  conversions between \<^verbatim>\<open>int\<close> and \<^verbatim>\<open>int32\<close>, Go maps with their \<^verbatim>\<open>nil\<close> value, and the
  decimal verbs \<^verbatim>\<open>%d\<close> and \<^verbatim>\<open>%02d\<close>.  Nothing in here is specific to the operator.
\<close>

named_theorems wp_simps \<open>weakest-precondition equations of the program constructors\<close>
named_theorems completes_intros \<open>rules deriving that a program returns without panic\<close>
named_theorems returns_intros \<open>rules deriving what a program returns\<close>
named_theorems go_defs \<open>defining equations of the program constructors\<close>

section \<open>Computations\<close>

text \<open>A Go call either returns a value or panics; the state reached so far survives both.\<close>

datatype 'a outcome = Ret 'a | Panic string

type_synonym ('s, 'a) go = "'s \<Rightarrow> 'a outcome \<times> 's"

definition go_ret :: "'a \<Rightarrow> ('s, 'a) go" where
  [go_defs]: "go_ret x = (\<lambda>s. (Ret x, s))"

definition go_panic :: "string \<Rightarrow> ('s, 'a) go" where
  [go_defs]: "go_panic msg = (\<lambda>s. (Panic msg, s))"

definition go_bind :: "('s, 'a) go \<Rightarrow> ('a \<Rightarrow> ('s, 'b) go) \<Rightarrow> ('s, 'b) go" where
  [go_defs]: "go_bind m f = (\<lambda>s. case m s of (Ret x, t) \<Rightarrow> f x t | (Panic msg, t) \<Rightarrow> (Panic msg, t))"

text \<open>A state-changing step without a result of interest, and a reader.\<close>

definition go_modify :: "('s \<Rightarrow> 's) \<Rightarrow> ('s, unit) go" where
  [go_defs]: "go_modify f = (\<lambda>s. (Ret (), f s))"

lemma go_bind_ret [simp]: "go_bind (go_ret x) f = f x"
  by (simp add: go_defs)

lemma go_bind_panic [simp]: "go_bind (go_panic msg) f = go_panic msg"
  by (simp add: go_defs)

lemma go_ret_apply: "go_ret x s = (Ret x, s)"
  by (simp add: go_defs)

lemma go_panic_apply: "go_panic msg s = (Panic msg, s)"
  by (simp add: go_defs)

lemma go_modify_apply [simp]: "go_modify f s = (Ret (), f s)"
  by (simp add: go_defs)

lemma go_bind_Ret: "m s = (Ret x, t) \<Longrightarrow> go_bind m f s = f x t"
  by (simp add: go_defs)

lemma go_bind_Panic: "m s = (Panic msg, t) \<Longrightarrow> go_bind m f s = (Panic msg, t)"
  by (simp add: go_defs)

lemma go_bind_ret_right: "go_bind m go_ret = m"
  by (rule ext) (simp add: go_defs split: prod.split outcome.split)

lemma go_bind_assoc: "go_bind (go_bind m f) g = go_bind m (\<lambda>x. go_bind (f x) g)"
  by (rule ext) (simp add: go_defs split: prod.split outcome.split)

subsection \<open>Weakest preconditions\<close>

text \<open>
  \<open>wp m Q s\<close>: running \<open>m\<close> from \<open>s\<close> ends in an outcome and a state related by \<open>Q\<close>.  Programs are
  total functions, so this is total correctness, panics included.
\<close>

definition wp :: "('s, 'a) go \<Rightarrow> ('a outcome \<Rightarrow> 's \<Rightarrow> bool) \<Rightarrow> 's \<Rightarrow> bool" where
  "wp m Q s \<longleftrightarrow> (case m s of (r, t) \<Rightarrow> Q r t)"

lemma wp_ret [wp_simps]: "wp (go_ret x) Q s \<longleftrightarrow> Q (Ret x) s"
  by (simp add: wp_def go_defs)

lemma wp_panic [wp_simps]: "wp (go_panic msg) Q s \<longleftrightarrow> Q (Panic msg) s"
  by (simp add: wp_def go_defs)

lemma wp_modify [wp_simps]: "wp (go_modify f) Q s \<longleftrightarrow> Q (Ret ()) (f s)"
  by (simp add: wp_def)

lemma wp_bind [wp_simps]:
  "wp (go_bind m f) Q s \<longleftrightarrow>
     wp m (\<lambda>r t. case r of Ret x \<Rightarrow> wp (f x) Q t | Panic msg \<Rightarrow> Q (Panic msg) t) s"
  by (simp add: wp_def go_defs split: prod.split outcome.split)

lemma wp_mono: "wp m Q s \<Longrightarrow> (\<And>r t. Q r t \<Longrightarrow> R r t) \<Longrightarrow> wp m R s"
  by (auto simp: wp_def split: prod.splits)

lemma wp_conj: "wp m Q s \<Longrightarrow> wp m R s \<Longrightarrow> wp m (\<lambda>r t. Q r t \<and> R r t) s"
  by (auto simp: wp_def split: prod.splits)

lemma wp_run: "wp m Q s \<Longrightarrow> m s = (r, t) \<Longrightarrow> Q r t"
  by (simp add: wp_def)

lemma wp_runI: "(\<And>r t. m s = (r, t) \<Longrightarrow> Q r t) \<Longrightarrow> wp m Q s"
  by (auto simp: wp_def split: prod.splits)

text \<open>Sequencing as an introduction rule: an intermediate assertion for the returned value.\<close>

lemma wp_bindI:
  assumes "wp m P s"
    and "\<And>x t. P (Ret x) t \<Longrightarrow> wp (f x) Q t"
    and "\<And>msg t. P (Panic msg) t \<Longrightarrow> Q (Panic msg) t"
  shows "wp (go_bind m f) Q s"
  unfolding wp_bind
  by (rule wp_mono [OF assms(1)]) (auto split: outcome.split intro: assms(2,3))

subsection \<open>Computations that return, and what they return\<close>

primrec returned :: "'a outcome \<Rightarrow> bool" where
  "returned (Ret x) = True"
| "returned (Panic msg) = False"

definition completes :: "('s, 'a) go \<Rightarrow> bool" where
  "completes m \<longleftrightarrow> (\<forall>s. \<exists>x t. m s = (Ret x, t))"

definition returns :: "('a \<Rightarrow> bool) \<Rightarrow> ('s, 'a) go \<Rightarrow> bool" where
  "returns P m \<longleftrightarrow> (\<forall>s x t. m s = (Ret x, t) \<longrightarrow> P x)"

lemma completes_ret [completes_intros]: "completes (go_ret x)"
  by (simp add: completes_def go_defs)

lemma completes_modify [completes_intros]: "completes (go_modify f)"
  by (simp add: completes_def)

lemma completes_bind [completes_intros]:
  "completes m \<Longrightarrow> (\<And>x. completes (f x)) \<Longrightarrow> completes (go_bind m f)"
  unfolding completes_def by (metis go_bind_Ret)

lemma completes_if [completes_intros]:
  "(b \<Longrightarrow> completes m) \<Longrightarrow> (\<not> b \<Longrightarrow> completes n) \<Longrightarrow> completes (if b then m else n)"
  by simp

lemma completes_case_sum [completes_intros]:
  "(\<And>e. r = Inl e \<Longrightarrow> completes (f e)) \<Longrightarrow> (\<And>x. r = Inr x \<Longrightarrow> completes (g x))
     \<Longrightarrow> completes (case r of Inl e \<Rightarrow> f e | Inr x \<Rightarrow> g x)"
  by (simp split: sum.split)

lemma completes_case_option [completes_intros]:
  "(r = None \<Longrightarrow> completes f) \<Longrightarrow> (\<And>x. r = Some x \<Longrightarrow> completes (g x))
     \<Longrightarrow> completes (case r of None \<Rightarrow> f | Some x \<Rightarrow> g x)"
  by (simp split: option.split)

lemma returns_ret [returns_intros]: "P x \<Longrightarrow> returns P (go_ret x)"
  by (simp add: returns_def go_defs)

lemma returns_bind [returns_intros]: "(\<And>x. returns P (f x)) \<Longrightarrow> returns P (go_bind m f)"
  by (auto simp: returns_def go_bind_def split: prod.splits outcome.splits)

lemma returns_if [returns_intros]:
  "(b \<Longrightarrow> returns P m) \<Longrightarrow> (\<not> b \<Longrightarrow> returns P n) \<Longrightarrow> returns P (if b then m else n)"
  by simp

lemma returns_case_sum [returns_intros]:
  "(\<And>e. r = Inl e \<Longrightarrow> returns P (f e)) \<Longrightarrow> (\<And>x. r = Inr x \<Longrightarrow> returns P (g x))
     \<Longrightarrow> returns P (case r of Inl e \<Rightarrow> f e | Inr x \<Rightarrow> g x)"
  by (simp split: sum.split)

lemma returns_case_option [returns_intros]:
  "(r = None \<Longrightarrow> returns P f) \<Longrightarrow> (\<And>x. r = Some x \<Longrightarrow> returns P (g x))
     \<Longrightarrow> returns P (case r of None \<Rightarrow> f | Some x \<Rightarrow> g x)"
  by (simp split: option.split)

lemma returns_case_prod [returns_intros]:
  "(\<And>a b. returns P (f a b)) \<Longrightarrow> returns P (case r of (a, b) \<Rightarrow> f a b)"
  by (simp split: prod.split)

lemma completes_wp: "completes m \<Longrightarrow> wp m Q s \<Longrightarrow> wp m (\<lambda>r t. \<exists>x. r = Ret x \<and> Q (Ret x) t) s"
  unfolding completes_def wp_def by (metis (mono_tags, lifting) case_prod_conv)

lemma completes_returned: "completes m \<Longrightarrow> wp m Q s \<Longrightarrow> wp m (\<lambda>r t. returned r \<and> Q r t) s"
  by (drule (1) completes_wp) (auto elim: wp_mono)

lemma completesI: "(\<And>s. wp m (\<lambda>r t. returned r) s) \<Longrightarrow> completes m"
  unfolding completes_def wp_def by (metis case_prod_beta outcome.exhaust prod.collapse returned.simps(2))

lemma returns_wp: "returns P m \<Longrightarrow> wp m (\<lambda>r t. \<forall>x. r = Ret x \<longrightarrow> P x) s"
  by (rule wp_runI) (auto simp: returns_def)

section \<open>Error values\<close>

text \<open>
  An \<^verbatim>\<open>error\<close> is either a value produced by a package outside the repository (\<open>ExtError\<close>, with the
  machine-readable reason and the message it carries), a message made by \<^verbatim>\<open>fmt.Errorf\<close> without
  \<^verbatim>\<open>%w\<close> (\<open>Errorf\<close>), or one wrapped with \<^verbatim>\<open>%w\<close> at the end of its format (\<open>Wrapf\<close>, the text in
  front of the wrapped error).
\<close>

datatype go_error = ExtError string string | Errorf string | Wrapf string go_error

text \<open>The \<^verbatim>\<open>Error()\<close> text, which \<^verbatim>\<open>%v\<close> prints.\<close>

fun error_text :: "go_error \<Rightarrow> string" where
  "error_text (ExtError reason msg) = msg"
| "error_text (Errorf msg) = msg"
| "error_text (Wrapf prefix e) = prefix @ '': '' @ error_text e"

type_synonym 'a result = "go_error + 'a"

abbreviation Err :: "go_error \<Rightarrow> 'a result" where
  "Err \<equiv> Inl"

abbreviation Ok :: "'a \<Rightarrow> 'a result" where
  "Ok \<equiv> Inr"

section \<open>Integers\<close>

text \<open>
  \<^verbatim>\<open>int32\<close> fields are 32-bit words read as two's complement.  Go's \<^verbatim>\<open>int\<close> is 64 bits wide on the
  operator's platforms; it only ever holds slice lengths, counters bounded by them, differences of
  such values, and numbers decoded from JSON (where a literal outside 64 bits is a decoding error),
  so it is an unbounded \<open>int\<close> here.  The narrowing conversion \<^verbatim>\<open>int32(x)\<close> wraps.
\<close>

type_synonym int32 = "32 word"

definition to_int32 :: "int \<Rightarrow> int32" where
  "to_int32 i = word_of_int i"

definition of_int32 :: "int32 \<Rightarrow> int" where
  "of_int32 w = sint w"

lemma of_int32_range: "- (2 ^ 31) \<le> of_int32 w \<and> of_int32 w < 2 ^ 31"
  using sint_ge [of w] sint_lt [of w] by (simp add: of_int32_def)

lemma to_int32_id: "- (2 ^ 31) \<le> i \<Longrightarrow> i < 2 ^ 31 \<Longrightarrow> of_int32 (to_int32 i) = i"
  by (simp add: of_int32_def to_int32_def signed_of_int signed_take_bit_int_eq_self)

lemma to_of_int32 [simp]: "to_int32 (of_int32 w) = w"
  by (simp add: of_int32_def to_int32_def)

lemma of_int32_inject [simp]: "of_int32 v = of_int32 w \<longleftrightarrow> v = w"
  by (metis to_of_int32)

lemma of_int32_0 [simp]: "of_int32 0 = 0"
  by (simp add: of_int32_def)

lemma of_int32_numeral: "of_int32 (numeral n) = sint (numeral n :: int32)"
  by (simp add: of_int32_def)

lemma to_int32_eq_0: "- (2 ^ 31) \<le> i \<Longrightarrow> i < 2 ^ 31 \<Longrightarrow> to_int32 i = 0 \<longleftrightarrow> i = 0"
  using to_int32_id [of i] by (auto simp: to_int32_def)

section \<open>Go maps\<close>

text \<open>
  A map with string keys; \<open>None\<close> is the \<^verbatim>\<open>nil\<close> map.  Reading from it finds nothing and deleting
  from it does nothing, but assigning to it panics.
\<close>

type_synonym 'v gomap = "(string \<rightharpoonup> 'v) option"

definition map_get :: "'v gomap \<Rightarrow> string \<Rightarrow> 'v option" where
  "map_get m k = (case m of None \<Rightarrow> None | Some f \<Rightarrow> f k)"

definition map_set :: "'v gomap \<Rightarrow> string \<Rightarrow> 'v \<Rightarrow> ('s, 'v gomap) go" where
  "map_set m k v = (case m of None \<Rightarrow> go_panic ''assignment to entry in nil map''
                     | Some f \<Rightarrow> go_ret (Some (f(k \<mapsto> v))))"

definition map_del :: "'v gomap \<Rightarrow> string \<Rightarrow> 'v gomap" where
  "map_del m k = map_option (\<lambda>f. f(k := None)) m"

text \<open>\<^verbatim>\<open>maps.Copy(dst, src)\<close> for a destination that is not \<^verbatim>\<open>nil\<close>.\<close>

definition maps_Copy :: "(string \<rightharpoonup> 'v) \<Rightarrow> 'v gomap \<Rightarrow> (string \<rightharpoonup> 'v)" where
  "maps_Copy dst src = (case src of None \<Rightarrow> dst | Some f \<Rightarrow> dst ++ f)"

lemma map_get_simps [simp]:
  "map_get None k = None" "map_get (Some f) k = f k"
  by (simp_all add: map_get_def)

lemma map_get_fun [simp]: "map_get None = Map.empty" "map_get (Some f) = f"
  by (simp_all add: fun_eq_iff)

lemma map_set_simps [simp]:
  "map_set None k v = go_panic ''assignment to entry in nil map''"
  "map_set (Some f) k v = go_ret (Some (f(k \<mapsto> v)))"
  by (simp_all add: map_set_def)

lemma map_get_del [simp]: "map_get (map_del m k) k' = (if k' = k then None else map_get m k')"
  by (simp add: map_del_def map_get_def split: option.split)

lemma map_get_not_nil: "map_get m k = Some v \<Longrightarrow> \<exists>f. m = Some f"
  by (auto simp: map_get_def split: option.splits)

lemma maps_Copy_get:
  "maps_Copy dst src k = (case map_get src k of None \<Rightarrow> dst k | Some v \<Rightarrow> Some v)"
  by (auto simp: maps_Copy_def map_get_def map_add_def split: option.split)

section \<open>Decimal verbs\<close>

definition digit :: "nat \<Rightarrow> char" where
  "digit d = char_of (48 + d)"

fun nat_str :: "nat \<Rightarrow> string" where
  "nat_str n = (if n < 10 then [digit n] else nat_str (n div 10) @ [digit (n mod 10)])"

declare nat_str.simps [simp del]

text \<open>\<^verbatim>\<open>%d\<close>, and \<^verbatim>\<open>%02d\<close> with its padding to two characters.\<close>

definition int_str :: "int \<Rightarrow> string" where
  "int_str i = (if i < 0 then ''-'' @ nat_str (nat (- i)) else nat_str (nat i))"

definition int_str02 :: "nat \<Rightarrow> string" where
  "int_str02 n = (if n < 10 then ''0'' @ nat_str n else nat_str n)"

text \<open>The value of a string of digits; left inverse of the printing functions.\<close>

definition digit_val :: "char \<Rightarrow> nat" where
  "digit_val c = of_char c - 48"

definition str_nat :: "string \<Rightarrow> nat" where
  "str_nat s = foldl (\<lambda>n c. 10 * n + digit_val c) 0 s"

lemma digit_val_digit [simp]: "d < 10 \<Longrightarrow> digit_val (digit d) = d"
  by (simp add: digit_val_def digit_def)

lemma str_nat_snoc: "str_nat (s @ [c]) = 10 * str_nat s + digit_val c"
  by (simp add: str_nat_def)

lemma str_nat_nat_str [simp]: "str_nat (nat_str n) = n"
proof (induction n rule: nat_str.induct)
  case (1 n)
  show ?case
  proof (cases "n < 10")
    case True
    then show ?thesis by (simp add: nat_str.simps [of n] str_nat_def)
  next
    case False
    then show ?thesis by (simp add: nat_str.simps [of n] str_nat_snoc "1.IH")
  qed
qed

lemma nat_str_inject [simp]: "nat_str m = nat_str n \<longleftrightarrow> m = n"
  by (metis str_nat_nat_str)

lemma nat_str_length: "n < 10 ^ k \<Longrightarrow> 0 < k \<Longrightarrow> length (nat_str n) \<le> k"
proof (induction k arbitrary: n)
  case 0
  then show ?case by simp
next
  case (Suc k)
  show ?case
  proof (cases "n < 10")
    case True
    then show ?thesis by (simp add: nat_str.simps [of n])
  next
    case False
    then have "n div 10 < 10 ^ k" and "0 < k"
      using Suc.prems by (auto simp: less_mult_imp_div_less mult.commute intro: gr0I)
    then have "length (nat_str (n div 10)) \<le> k" by (rule Suc.IH)
    with False show ?thesis by (simp add: nat_str.simps [of n])
  qed
qed

lemma str_nat_zero [simp]: "str_nat (CHR ''0'' # s) = str_nat s"
  by (simp add: str_nat_def digit_val_def)

lemma str_nat_int_str02 [simp]: "str_nat (int_str02 n) = n"
  by (simp add: int_str02_def)

lemma int_str02_inject [simp]: "int_str02 m = int_str02 n \<longleftrightarrow> m = n"
  by (metis str_nat_int_str02)

lemma int_str02_length: "n < 10 ^ k \<Longrightarrow> 2 \<le> k \<Longrightarrow> length (int_str02 n) \<le> k"
  using nat_str_length [of n k] by (cases "n < 10") (simp_all add: int_str02_def nat_str.simps [of n])

section \<open>Quoted strings\<close>

text \<open>
  \<^verbatim>\<open>%q\<close>: the text in double quotes, with quotes, backslashes and control characters escaped.
  Bytes from 128 on are left as they are, which is what \<^verbatim>\<open>%q\<close> does with the bytes of printable
  characters.
\<close>

definition hex_digit :: "nat \<Rightarrow> char" where
  "hex_digit d = (if d < 10 then char_of (48 + d) else char_of (87 + d))"

definition quoted_char :: "char \<Rightarrow> string" where
  "quoted_char c = (let n = of_char c :: nat in
     if c = CHR 0x22 \<or> c = CHR 0x5C then [CHR 0x5C, c]
     else if n = 7 then [CHR 0x5C, CHR ''a'']
     else if n = 8 then [CHR 0x5C, CHR ''b'']
     else if n = 9 then [CHR 0x5C, CHR ''t'']
     else if n = 10 then [CHR 0x5C, CHR ''n'']
     else if n = 11 then [CHR 0x5C, CHR ''v'']
     else if n = 12 then [CHR 0x5C, CHR ''f'']
     else if n = 13 then [CHR 0x5C, CHR ''r'']
     else if n < 32 \<or> n = 127 then [CHR 0x5C, CHR ''x'', hex_digit (n div 16), hex_digit (n mod 16)]
     else [c])"

definition quoted :: "string \<Rightarrow> string" where
  "quoted s = [CHR 0x22] @ concat (map quoted_char s) @ [CHR 0x22]"

end
