(* ===== verification/Kube_Types.thy ===== *)
theory Kube_Types
  imports Go_Prelude
begin

text \<open>
  The data the operator handles: the \<^verbatim>\<open>AgentPool\<close> custom resource of
  \<^verbatim>\<open>src/api/v1alpha1/agentpool_types.go\<close> with its specification and status, the admission markers of
  that file, and the fields of the Kubernetes objects (Secret, Pod, PersistentVolumeClaim,
  Condition) that the controller reads or writes.  Fields that are only copied from the resource
  into a pod and never inspected (affinity, tolerations, resources, security context, quantities)
  are carried as \<open>opaque\<close> values.
\<close>

type_synonym opaque = string
type_synonym labels = "string gomap"

section \<open>Kubernetes objects used by the controller\<close>

record NamespacedName =
  nn_Namespace :: string
  nn_Name :: string

record SecretKeySelector =
  sks_Name :: string
  sks_Key :: string

datatype EnvVarSource = SecretKeyRef SecretKeySelector | OtherSource opaque

record EnvVar =
  ev_Name :: string
  ev_Value :: string
  ev_ValueFrom :: "EnvVarSource option"

record VolumeMount =
  vm_Name :: string
  vm_MountPath :: string

text \<open>A volume whose source is a persistent volume claim.\<close>

record Volume =
  vol_Name :: string
  vol_ClaimName :: string

record Container =
  ct_Name :: string
  ct_Image :: string
  ct_ImagePullPolicy :: string
  ct_Args :: "string list"
  ct_Env :: "EnvVar list"
  ct_VolumeMounts :: "VolumeMount list"
  ct_Resources :: opaque

record PodSpec =
  ps_RestartPolicy :: string
  ps_ServiceAccountName :: string
  ps_NodeSelector :: labels
  ps_Tolerations :: "opaque list"
  ps_Affinity :: "opaque option"
  ps_ImagePullSecrets :: "string list"
  ps_SecurityContext :: "opaque option"
  ps_InitContainers :: "Container list"
  ps_Containers :: "Container list"
  ps_Volumes :: "Volume list"

datatype PodPhase = PhaseUnset | PodPending | PodRunning | PodSucceeded | PodFailed | PodUnknown

fun phase_text :: "PodPhase \<Rightarrow> string" where
  "phase_text PhaseUnset = ''''"
| "phase_text PodPending = ''Pending''"
| "phase_text PodRunning = ''Running''"
| "phase_text PodSucceeded = ''Succeeded''"
| "phase_text PodFailed = ''Failed''"
| "phase_text PodUnknown = ''Unknown''"

text \<open>The controlling owner reference, as the name of the owner.\<close>

record Pod =
  pod_Name :: string
  pod_Namespace :: string
  pod_Labels :: labels
  pod_Annotations :: labels
  pod_Owner :: "string option"
  pod_Spec :: PodSpec
  pod_Phase :: PodPhase

record PersistentVolumeClaim =
  pvc_Name :: string
  pvc_Namespace :: string
  pvc_Labels :: labels
  pvc_Owner :: "string option"
  pvc_AccessModes :: "string list"
  pvc_StorageRequest :: opaque
  pvc_StorageClassName :: "string option"

record Secret =
  sec_Data :: "string gomap"

datatype ConditionStatus = ConditionTrue | ConditionFalse | ConditionUnknown

record Condition =
  cond_Type :: string
  cond_Status :: ConditionStatus
  cond_ObservedGeneration :: int
  cond_Reason :: string
  cond_Message :: string

section \<open>The AgentPool resource\<close>

record CacheVolumeTemplate =
  cv_Name :: string
  cv_MountPath :: string
  cv_StorageClassName :: "string option"
  cv_Size :: opaque

record AgentPoolSpec =
  sp_OrganizationURL :: string
  sp_TokenSecretRef :: SecretKeySelector
  sp_PoolName :: string
  sp_AgentImage :: string
  sp_MinAgents :: int32
  sp_MaxAgents :: int32
  sp_AgentResources :: opaque
  sp_ExtraEnv :: "EnvVar list"
  sp_CacheVolumes :: "CacheVolumeTemplate list"
  sp_NodeSelector :: labels
  sp_Tolerations :: "opaque list"
  sp_Affinity :: "opaque option"
  sp_ImagePullSecrets :: "string list"
  sp_ServiceAccountName :: string
  sp_PodAnnotations :: labels
  sp_PodLabels :: labels
  sp_PodSecurityContext :: "opaque option"
  sp_InitContainers :: "Container list"

record AgentPoolStatus =
  st_Conditions :: "Condition list"
  st_ActiveAgents :: "int32 option"
  st_PendingJobs :: "int32 option"
  st_PoolID :: int32
  st_DummyAgentID :: int32

record AgentPool =
  ap_Name :: string
  ap_Namespace :: string
  ap_Generation :: int
  ap_ResourceVersion :: string
  ap_DeletionTimestamp :: "string option"
  ap_Finalizers :: "string list"
  ap_Spec :: AgentPoolSpec
  ap_Status :: AgentPoolStatus

text \<open>
  The admission markers (\<^verbatim>\<open>+kubebuilder:validation\<close>) on the fields of \<open>AgentPoolSpec\<close> and
  \<open>CacheVolumeTemplate\<close>: the organization URL matches \<^verbatim>\<open>^https?://\<close>, the pool name and every cache
  name are not empty, \<^verbatim>\<open>minAgents\<close> is at least 0 and \<^verbatim>\<open>maxAgents\<close> at least 1.  There is no marker
  that relates the two bounds.
\<close>

definition starts_with :: "string \<Rightarrow> string \<Rightarrow> bool" where
  "starts_with p s \<longleftrightarrow> take (length p) s = p"

definition CacheVolumeTemplate_admitted :: "CacheVolumeTemplate \<Rightarrow> bool" where
  "CacheVolumeTemplate_admitted cv \<longleftrightarrow> cv_Name cv \<noteq> []"

definition AgentPoolSpec_admitted :: "AgentPoolSpec \<Rightarrow> bool" where
  "AgentPoolSpec_admitted sp \<longleftrightarrow>
     (starts_with ''http://'' (sp_OrganizationURL sp)
        \<or> starts_with ''https://'' (sp_OrganizationURL sp))
     \<and> sp_PoolName sp \<noteq> []
     \<and> 0 \<le> of_int32 (sp_MinAgents sp)
     \<and> 1 \<le> of_int32 (sp_MaxAgents sp)
     \<and> list_all CacheVolumeTemplate_admitted (sp_CacheVolumes sp)"

text \<open>The defaulting markers: \<^verbatim>\<open>minAgents\<close> 0 and \<^verbatim>\<open>maxAgents\<close> 10 when the field is absent.\<close>

definition default_MinAgents :: "int32 option \<Rightarrow> int32" where
  "default_MinAgents v = (case v of None \<Rightarrow> 0 | Some n \<Rightarrow> n)"

definition default_MaxAgents :: "int32 option \<Rightarrow> int32" where
  "default_MaxAgents v = (case v of None \<Rightarrow> 10 | Some n \<Rightarrow> n)"

section \<open>Status updates\<close>

abbreviation set_status :: "(AgentPoolStatus \<Rightarrow> AgentPoolStatus) \<Rightarrow> AgentPool \<Rightarrow> AgentPool" where
  "set_status f pool \<equiv> pool\<lparr>ap_Status := f (ap_Status pool)\<rparr>"

end
