(* ===== verification/Ado_Types.thy ===== *)
theory Ado_Types
  imports Go_Prelude
begin

text \<open>
  The data of the Azure DevOps client: the structs of \<^verbatim>\<open>src/internal/azuredevops/types.go\<close>, JSON
  values, and the requests and responses exchanged over HTTP.  A \<^verbatim>\<open>*string\<close> is an \<open>option\<close>, with
  \<open>None\<close> for \<^verbatim>\<open>nil\<close>.
\<close>

section \<open>Structs of types.go\<close>

record AdoPool =
  apl_ID :: int
  apl_Name :: string

record PoolList =
  pl_Count :: int
  pl_Value :: "AdoPool list"

record AgentRef =
  ar_ID :: int
  ar_Name :: string

record JobRequest =
  jr_RequestID :: int
  jr_QueueTime :: string
  jr_AssignTime :: "string option"
  jr_FinishTime :: "string option"
  jr_ReservedAgent :: "AgentRef option"
  jr_Demands :: "string list"

record JobRequestList =
  jl_Count :: int
  jl_Value :: "JobRequest list"

record RegisterAgentRequest =
  rq_Name :: string
  rq_Version :: string
  rq_OSDescription :: string
  rq_Enabled :: bool
  rq_ProvisioningState :: string
  rq_SystemCapabilities :: "(string \<times> string) list"

record RegisterAgentResponse =
  rs_ID :: int
  rs_Name :: string

record Agent =
  ag_ID :: int
  ag_Name :: string
  ag_Status :: string
  ag_Enabled :: bool

record AgentList =
  al_Count :: int
  al_Value :: "Agent list"

record JobStatus =
  js_Pending :: int
  js_BusyAgentNames :: "string \<rightharpoonup> bool"

text \<open>\<^verbatim>\<open>busyAgentNames[name]\<close>: the zero value of \<^verbatim>\<open>bool\<close> for an absent key.\<close>

definition is_busy :: "(string \<rightharpoonup> bool) \<Rightarrow> string \<Rightarrow> bool" where
  "is_busy m name = (case m name of None \<Rightarrow> False | Some b \<Rightarrow> b)"

section \<open>JSON values and HTTP messages\<close>

datatype json =
    JNull
  | JBool bool
  | JInt int
  | JReal string
  | JString string
  | JArray "json list"
  | JObject "(string \<times> json) list"

record http_request =
  hq_Method :: string
  hq_URL :: string
  hq_Headers :: "(string \<times> string) list"
  hq_Body :: "string option"

text \<open>
  Reading the body to the end (\<^verbatim>\<open>io.ReadAll\<close>) yields the bytes read so far and the error that
  stopped the reading, if any.
\<close>

record http_response =
  hp_StatusCode :: int
  hp_Data :: string
  hp_ReadErr :: "go_error option"

end
