(* ===== verification/Operator_State.thy ===== *)
theory Operator_State
  imports Kube_Types Ado_Types
begin

text \<open>
  The state a reconciliation runs in and the interfaces it runs against.

  The Kubernetes API server, the Azure DevOps service, the network and the random source are not
  part of the repository.  They are a \<open>world\<close> of an arbitrary type \<open>'w\<close> that the operator can
  only reach through the functions of two records: \<open>client\<close>, the methods of the
  controller-runtime client that the code calls, and \<open>machinery\<close>, the package-level functions of
  apimachinery, controller-runtime and the Go runtime that it calls.  Every definition of the
  model takes them as arguments.  Because \<open>'w\<close> and the functions are arbitrary, a theorem without
  a hypothesis about them holds for every server: one that fails at any point, answers from a
  stale cache, or is changed by others between two calls.

  Beside the world the state has a \<open>trace\<close>: the calls made so far with their outcome, in order.
  It records what the operator did (API calls, events, metric updates, HTTP requests) and is never
  read by the code.  \<open>emits P m\<close> says that every call that \<open>m\<close> adds satisfies \<open>P\<close>; the rules of the
  collection \<open>emits_intros\<close> derive it along the structure of a program.
\<close>

named_theorems emits_intros \<open>rules deriving which calls a program makes\<close>
named_theorems keeps_intros \<open>rules deriving which state predicates a program preserves\<close>
named_theorems call_defs \<open>definitions of the single API calls\<close>

section \<open>Calls and state\<close>

type_synonym selector = "(string \<times> string) list"

datatype obs =
    GetPool NamespacedName
  | GetSecret NamespacedName
  | GetPVC NamespacedName
  | ListPods string selector
  | ListPVCs string selector
  | CreatePod Pod bool
  | CreatePVC PersistentVolumeClaim bool
  | PatchPVC PersistentVolumeClaim PersistentVolumeClaim bool
  | DeletePod Pod bool
  | UpdatePool AgentPool bool
  | UpdateStatus AgentPool bool
  | RecordEvent string string string string
  | GaugeSet "string list" "(string \<times> string) list" int
  | CounterInc "string list" "(string \<times> string) list"
  | HttpDo http_request
  | GotJobStatus "JobStatus result"
  | Registered string "int result"
  | Unregistered int "unit result"

record 'w sys =
  world :: 'w
  trace :: "obs list"

definition is_ok :: "'a result \<Rightarrow> bool" where
  "is_ok r \<longleftrightarrow> \<not> isl r"

lemma is_ok_simps [simp]: "is_ok (Err e) = False" "is_ok (Ok x) = True"
  by (simp_all add: is_ok_def)

text \<open>One call: the world answers, the trace records it.\<close>

definition call :: "('w \<Rightarrow> 'a \<times> 'w) \<Rightarrow> ('a \<Rightarrow> obs) \<Rightarrow> ('w sys, 'a) go" where
  "call f ob = (\<lambda>s. case f (world s) of (x, w) \<Rightarrow>
     (Ret x, s\<lparr>world := w, trace := trace s @ [ob x]\<rparr>))"

text \<open>A query of the world that is not an API call (random numbers, map iteration order).\<close>

definition ask :: "('w \<Rightarrow> 'a \<times> 'w) \<Rightarrow> ('w sys, 'a) go" where
  "ask f = (\<lambda>s. case f (world s) of (x, w) \<Rightarrow> (Ret x, s\<lparr>world := w\<rparr>))"

text \<open>A call into a sink: an event or a metric.\<close>

definition tell :: "obs \<Rightarrow> ('w sys, unit) go" where
  "tell ob = go_modify (\<lambda>s. s\<lparr>trace := trace s @ [ob]\<rparr>)"

section \<open>The controller-runtime client\<close>

text \<open>
  \<^verbatim>\<open>Update\<close>, \<^verbatim>\<open>Status().Update\<close> and \<^verbatim>\<open>Patch\<close> overwrite the object they are given with the server's
  answer when they succeed; the code reads it afterwards, so these functions return it.  A merge
  patch is given by the copy it is computed from and the modified object.
\<close>

record 'w client =
  c_GetPool :: "NamespacedName \<Rightarrow> 'w \<Rightarrow> AgentPool result \<times> 'w"
  c_GetSecret :: "NamespacedName \<Rightarrow> 'w \<Rightarrow> Secret result \<times> 'w"
  c_GetPVC :: "NamespacedName \<Rightarrow> 'w \<Rightarrow> PersistentVolumeClaim result \<times> 'w"
  c_ListPods :: "string \<Rightarrow> selector \<Rightarrow> 'w \<Rightarrow> Pod list result \<times> 'w"
  c_ListPVCs :: "string \<Rightarrow> selector \<Rightarrow> 'w \<Rightarrow> PersistentVolumeClaim list result \<times> 'w"
  c_CreatePod :: "Pod \<Rightarrow> 'w \<Rightarrow> unit result \<times> 'w"
  c_CreatePVC :: "PersistentVolumeClaim \<Rightarrow> 'w \<Rightarrow> unit result \<times> 'w"
  c_PatchPVC :: "PersistentVolumeClaim \<Rightarrow> PersistentVolumeClaim \<Rightarrow> 'w
                   \<Rightarrow> PersistentVolumeClaim result \<times> 'w"
  c_DeletePod :: "Pod \<Rightarrow> 'w \<Rightarrow> unit result \<times> 'w"
  c_UpdatePool :: "AgentPool \<Rightarrow> 'w \<Rightarrow> AgentPool result \<times> 'w"
  c_UpdateStatus :: "AgentPool \<Rightarrow> 'w \<Rightarrow> AgentPool result \<times> 'w"

record 'w machinery =
  m_IsNotFound :: "go_error \<Rightarrow> bool"
  m_IsAlreadyExists :: "go_error \<Rightarrow> bool"
  m_IgnoreNotFound :: "go_error \<Rightarrow> go_error option"
  m_ContainsFinalizer :: "AgentPool \<Rightarrow> string \<Rightarrow> bool"
  m_AddFinalizer :: "AgentPool \<Rightarrow> string \<Rightarrow> AgentPool"
  m_RemoveFinalizer :: "AgentPool \<Rightarrow> string \<Rightarrow> AgentPool"
  m_SetStatusCondition :: "Condition list \<Rightarrow> Condition \<Rightarrow> Condition list"
  m_SetPodOwner :: "AgentPool \<Rightarrow> Pod \<Rightarrow> Pod result"
  m_SetPVCOwner :: "AgentPool \<Rightarrow> PersistentVolumeClaim \<Rightarrow> PersistentVolumeClaim result"
  m_Intn :: "nat \<Rightarrow> 'w \<Rightarrow> nat \<times> 'w"
  m_RangeOrder :: "string list \<Rightarrow> 'w \<Rightarrow> string list \<times> 'w"

definition r_GetPool :: "'w client \<Rightarrow> NamespacedName \<Rightarrow> ('w sys, AgentPool result) go" where
  [call_defs]: "r_GetPool c nn = call (c_GetPool c nn) (\<lambda>_. GetPool nn)"

definition r_GetSecret :: "'w client \<Rightarrow> NamespacedName \<Rightarrow> ('w sys, Secret result) go" where
  [call_defs]: "r_GetSecret c nn = call (c_GetSecret c nn) (\<lambda>_. GetSecret nn)"

definition r_GetPVC ::
    "'w client \<Rightarrow> NamespacedName \<Rightarrow> ('w sys, PersistentVolumeClaim result) go" where
  [call_defs]: "r_GetPVC c nn = call (c_GetPVC c nn) (\<lambda>_. GetPVC nn)"

definition r_ListPods :: "'w client \<Rightarrow> string \<Rightarrow> selector \<Rightarrow> ('w sys, Pod list result) go" where
  [call_defs]: "r_ListPods c ns sel = call (c_ListPods c ns sel) (\<lambda>_. ListPods ns sel)"

definition r_ListPVCs ::
    "'w client \<Rightarrow> string \<Rightarrow> selector \<Rightarrow> ('w sys, PersistentVolumeClaim list result) go" where
  [call_defs]: "r_ListPVCs c ns sel = call (c_ListPVCs c ns sel) (\<lambda>_. ListPVCs ns sel)"

definition r_CreatePod :: "'w client \<Rightarrow> Pod \<Rightarrow> ('w sys, unit result) go" where
  [call_defs]: "r_CreatePod c p = call (c_CreatePod c p) (\<lambda>r. CreatePod p (is_ok r))"

definition r_CreatePVC :: "'w client \<Rightarrow> PersistentVolumeClaim \<Rightarrow> ('w sys, unit result) go" where
  [call_defs]: "r_CreatePVC c v = call (c_CreatePVC c v) (\<lambda>r. CreatePVC v (is_ok r))"

definition r_PatchPVC :: "'w client \<Rightarrow> PersistentVolumeClaim \<Rightarrow> PersistentVolumeClaim
    \<Rightarrow> ('w sys, PersistentVolumeClaim result) go" where
  [call_defs]: "r_PatchPVC c base v = call (c_PatchPVC c base v) (\<lambda>r. PatchPVC base v (is_ok r))"

definition r_DeletePod :: "'w client \<Rightarrow> Pod \<Rightarrow> ('w sys, unit result) go" where
  [call_defs]: "r_DeletePod c p = call (c_DeletePod c p) (\<lambda>r. DeletePod p (is_ok r))"

definition r_UpdatePool :: "'w client \<Rightarrow> AgentPool \<Rightarrow> ('w sys, AgentPool result) go" where
  [call_defs]: "r_UpdatePool c p = call (c_UpdatePool c p) (\<lambda>r. UpdatePool p (is_ok r))"

definition r_UpdateStatus :: "'w client \<Rightarrow> AgentPool \<Rightarrow> ('w sys, AgentPool result) go" where
  [call_defs]: "r_UpdateStatus c p = call (c_UpdateStatus c p) (\<lambda>r. UpdateStatus p (is_ok r))"

section \<open>Which calls a program makes\<close>

definition emits :: "(obs \<Rightarrow> bool) \<Rightarrow> ('w sys, 'a) go \<Rightarrow> bool" where
  "emits P m \<longleftrightarrow> (\<forall>s. \<exists>os. trace (snd (m s)) = trace s @ os \<and> list_all P os)"

lemma emits_ret [emits_intros]: "emits P (go_ret x)"
  by (simp add: go_defs emits_def)

lemma emits_panic [emits_intros]: "emits P (go_panic msg)"
  by (simp add: go_defs emits_def)

lemma emits_call [emits_intros]: "(\<And>x. P (ob x)) \<Longrightarrow> emits P (call f ob)"
  by (simp add: emits_def call_def split: prod.split)

lemma emits_ask [emits_intros]: "emits P (ask f)"
  by (simp add: emits_def ask_def split: prod.split)

lemma emits_tell [emits_intros]: "P ob \<Longrightarrow> emits P (tell ob)"
  by (simp add: emits_def tell_def)

lemma emits_bind [emits_intros]:
  assumes "emits P m" and "\<And>x. emits P (f x)"
  shows "emits P (go_bind m f)"
  unfolding emits_def
proof
  fix s
  obtain r t where ms: "m s = (r, t)" by fastforce
  from assms(1) obtain os where os: "trace t = trace s @ os" "list_all P os"
    unfolding emits_def by (metis ms snd_conv)
  show "\<exists>os. trace (snd (go_bind m f s)) = trace s @ os \<and> list_all P os"
  proof (cases r)
    case (Ret x)
    from assms(2) [of x] obtain os' where "trace (snd (f x t)) = trace t @ os'" "list_all P os'"
      unfolding emits_def by blast
    with ms Ret os show ?thesis by (intro exI [of _ "os @ os'"]) (simp add: go_bind_Ret)
  next
    case (Panic msg)
    with ms os show ?thesis by (auto simp: go_bind_Panic)
  qed
qed

lemma emits_if [emits_intros]:
  "(b \<Longrightarrow> emits P m) \<Longrightarrow> (\<not> b \<Longrightarrow> emits P n) \<Longrightarrow> emits P (if b then m else n)"
  by simp

lemma emits_case_sum [emits_intros]:
  "(\<And>e. r = Inl e \<Longrightarrow> emits P (f e)) \<Longrightarrow> (\<And>x. r = Inr x \<Longrightarrow> emits P (g x))
     \<Longrightarrow> emits P (case r of Inl e \<Rightarrow> f e | Inr x \<Rightarrow> g x)"
  by (simp split: sum.split)

lemma emits_case_option [emits_intros]:
  "(r = None \<Longrightarrow> emits P f) \<Longrightarrow> (\<And>x. r = Some x \<Longrightarrow> emits P (g x))
     \<Longrightarrow> emits P (case r of None \<Rightarrow> f | Some x \<Rightarrow> g x)"
  by (simp split: option.split)

lemma emits_case_prod [emits_intros]:
  "(\<And>a b. r = (a, b) \<Longrightarrow> emits P (f a b)) \<Longrightarrow> emits P (case r of (a, b) \<Rightarrow> f a b)"
  by (simp split: prod.split)

lemma emits_let [emits_intros]: "emits P (f x) \<Longrightarrow> emits P (let y = x in f y)"
  by simp

lemma emits_mono: "emits P m \<Longrightarrow> (\<And>ob. P ob \<Longrightarrow> Q ob) \<Longrightarrow> emits Q m"
  unfolding emits_def by (metis list.pred_mono_strong)

lemma emits_run:
  "emits P m \<Longrightarrow> m s = (r, t) \<Longrightarrow> \<exists>os. trace t = trace s @ os \<and> list_all P os"
  unfolding emits_def by (metis snd_conv)

lemma emits_all:
  assumes "emits P m" and "m s = (r, t)" and "ob \<in> set (trace t)"
  shows "ob \<in> set (trace s) \<or> P ob"
  using emits_run [OF assms(1,2)] assms(3) by (auto simp: list_all_iff)

lemma emits_wp: "emits P m \<Longrightarrow> wp m (\<lambda>r t. \<exists>os. trace t = trace s @ os \<and> list_all P os) s"
  by (rule wp_runI) (rule emits_run)

text \<open>Calls of a kind that a program does not make are not added.\<close>

lemma emits_filter:
  assumes "emits (\<lambda>ob. \<not> P ob) m" and "m s = (r, t)"
  shows "filter P (trace t) = filter P (trace s)"
  using emits_run [OF assms] by (auto simp: list_all_iff)

lemma wp_filter: "emits (\<lambda>ob. \<not> P ob) m \<Longrightarrow> wp m (\<lambda>r t. filter P (trace t) = filter P (trace s)) s"
  by (rule wp_runI) (rule emits_filter)

section \<open>Which state predicates a program preserves\<close>

definition keeps :: "('s \<Rightarrow> bool) \<Rightarrow> ('s, 'a) go \<Rightarrow> bool" where
  "keeps I m \<longleftrightarrow> (\<forall>s. I s \<longrightarrow> I (snd (m s)))"

lemma keeps_ret [keeps_intros]: "keeps I (go_ret x)"
  by (simp add: go_defs keeps_def)

lemma keeps_panic [keeps_intros]: "keeps I (go_panic msg)"
  by (simp add: go_defs keeps_def)

lemma keeps_bind [keeps_intros]:
  assumes "keeps I m" and "\<And>x. keeps I (f x)"
  shows "keeps I (go_bind m f)"
  using assms unfolding keeps_def go_bind_def
  by (auto split: prod.split outcome.split)

lemma keeps_if [keeps_intros]:
  "(b \<Longrightarrow> keeps I m) \<Longrightarrow> (\<not> b \<Longrightarrow> keeps I n) \<Longrightarrow> keeps I (if b then m else n)"
  by simp

lemma keeps_case_sum [keeps_intros]:
  "(\<And>e. r = Inl e \<Longrightarrow> keeps I (f e)) \<Longrightarrow> (\<And>x. r = Inr x \<Longrightarrow> keeps I (g x))
     \<Longrightarrow> keeps I (case r of Inl e \<Rightarrow> f e | Inr x \<Rightarrow> g x)"
  by (simp split: sum.split)

lemma keeps_case_option [keeps_intros]:
  "(r = None \<Longrightarrow> keeps I f) \<Longrightarrow> (\<And>x. r = Some x \<Longrightarrow> keeps I (g x))
     \<Longrightarrow> keeps I (case r of None \<Rightarrow> f | Some x \<Rightarrow> g x)"
  by (simp split: option.split)

lemma keeps_case_prod [keeps_intros]:
  "(\<And>a b. r = (a, b) \<Longrightarrow> keeps I (f a b)) \<Longrightarrow> keeps I (case r of (a, b) \<Rightarrow> f a b)"
  by (simp split: prod.split)

lemma keeps_let [keeps_intros]: "keeps I (f x) \<Longrightarrow> keeps I (let y = x in f y)"
  by simp

lemma keeps_run: "keeps I m \<Longrightarrow> m s = (r, t) \<Longrightarrow> I s \<Longrightarrow> I t"
  unfolding keeps_def by (metis snd_conv)

section \<open>Weakest preconditions of calls\<close>

lemma wp_call [wp_simps]:
  "wp (call f ob) Q s \<longleftrightarrow>
     (case f (world s) of (x, w) \<Rightarrow> Q (Ret x) (s\<lparr>world := w, trace := trace s @ [ob x]\<rparr>))"
  by (simp add: wp_def call_def split: prod.split)

lemma wp_ask [wp_simps]:
  "wp (ask f) Q s \<longleftrightarrow> (case f (world s) of (x, w) \<Rightarrow> Q (Ret x) (s\<lparr>world := w\<rparr>))"
  by (simp add: wp_def ask_def split: prod.split)

lemma wp_tell [wp_simps]: "wp (tell ob) Q s \<longleftrightarrow> Q (Ret ()) (s\<lparr>trace := trace s @ [ob]\<rparr>)"
  by (simp add: tell_def wp_simps)

section \<open>Calls return\<close>

lemma completes_call [completes_intros]: "completes (call f ob)"
  by (simp add: completes_def call_def split: prod.split)

lemma completes_ask [completes_intros]: "completes (ask f)"
  by (simp add: completes_def ask_def split: prod.split)

lemma completes_tell [completes_intros]: "completes (tell ob)"
  unfolding tell_def by (rule completes_modify)

end
