(* ===== verification/Pvc_Pool.thy ===== *)
theory Pvc_Pool
  imports Operator_State "HOL-Library.AList"
begin

text \<open>
  The pool of cache volumes, \<^verbatim>\<open>src/internal/controller/pvc.go\<close>: naming and provisioning of the
  claims, claiming one free claim per template for a pod, releasing the claims of a pod, the
  rollback of a partial assignment, and the count of free slots.

  The state of a claim is in its labels: \<^verbatim>\<open>azp-pool-state\<close> is \<^verbatim>\<open>free\<close> or \<^verbatim>\<open>assigned\<close>, and
  \<^verbatim>\<open>azp-assigned-pod\<close> names the pod.  A Go map that the code ranges over is an association list;
  the order in which it is visited is chosen by \<open>m_RangeOrder\<close>.
\<close>

section \<open>Labels and names\<close>

definition labelPoolName :: string where "labelPoolName = ''agentpool''"

definition labelCacheName :: string where "labelCacheName = ''azp-cache-name''"

definition labelCacheSlot :: string where "labelCacheSlot = ''azp-cache-slot''"

definition labelPoolState :: string where "labelPoolState = ''azp-pool-state''"

definition labelAssignedPod :: string where "labelAssignedPod = ''azp-assigned-pod''"

definition pvcStateFree :: string where "pvcStateFree = ''free''"

definition pvcStateAssigned :: string where "pvcStateAssigned = ''assigned''"

definition pvcSlotName :: "string \<Rightarrow> string \<Rightarrow> nat \<Rightarrow> string" where
  "pvcSlotName poolName cacheName slot =
     (let p = (if length poolName > 40 then take 40 poolName else poolName);
          c = (if length cacheName > 20 then take 20 cacheName else cacheName)
      in p @ ''-cache-'' @ c @ ''-'' @ int_str02 slot)"

section \<open>Provisioning\<close>

definition buildPVC ::
    "AgentPool \<Rightarrow> CacheVolumeTemplate \<Rightarrow> string \<Rightarrow> nat \<Rightarrow> PersistentVolumeClaim" where
  "buildPVC pool cv name slot =
     \<lparr>pvc_Name = name,
      pvc_Namespace = ap_Namespace pool,
      pvc_Labels = Some [labelPoolName \<mapsto> ap_Name pool,
                         labelCacheName \<mapsto> cv_Name cv,
                         labelCacheSlot \<mapsto> int_str (int slot),
                         labelPoolState \<mapsto> pvcStateFree],
      pvc_Owner = None,
      pvc_AccessModes = [''ReadWriteOncePod''],
      pvc_StorageRequest = cv_Size cv,
      pvc_StorageClassName = cv_StorageClassName cv\<rparr>"

text \<open>The body of the inner loop of \<^verbatim>\<open>ensurePVCPool\<close>: \<open>Ok\<close> continues, \<open>Err\<close> returns.\<close>

definition ensure_slot :: "'w client \<Rightarrow> 'w machinery \<Rightarrow> AgentPool \<Rightarrow> CacheVolumeTemplate \<Rightarrow> nat
    \<Rightarrow> ('w sys, unit result) go" where
  "ensure_slot c m pool cv slot =
     (let name = pvcSlotName (ap_Name pool) (cv_Name cv) slot
      in go_bind (r_GetPVC c \<lparr>nn_Namespace = ap_Namespace pool, nn_Name = name\<rparr>) (\<lambda>r.
         case r of Ok _ \<Rightarrow> go_ret (Ok ())
         | Err e \<Rightarrow>
           if \<not> m_IsNotFound m e then go_ret (Err (Wrapf (''check PVC '' @ name) e))
           else (case m_SetPVCOwner m pool (buildPVC pool cv name slot) of
               Err e \<Rightarrow> go_ret (Err (Wrapf ''set PVC controller reference'' e))
             | Ok newPVC \<Rightarrow>
               go_bind (r_CreatePVC c newPVC) (\<lambda>r.
               case r of Ok _ \<Rightarrow> go_ret (Ok ())
               | Err e \<Rightarrow>
                 if \<not> m_IsAlreadyExists m e then go_ret (Err (Wrapf (''create PVC '' @ name) e))
                 else go_ret (Ok ())))))"

primrec ensure_slots :: "'w client \<Rightarrow> 'w machinery \<Rightarrow> AgentPool \<Rightarrow> CacheVolumeTemplate \<Rightarrow> nat list
    \<Rightarrow> ('w sys, unit result) go" where
  "ensure_slots c m pool cv [] = go_ret (Ok ())"
| "ensure_slots c m pool cv (slot # slots) =
     go_bind (ensure_slot c m pool cv slot) (\<lambda>r.
     case r of Err e \<Rightarrow> go_ret (Err e) | Ok _ \<Rightarrow> ensure_slots c m pool cv slots)"

definition slot_numbers :: "AgentPool \<Rightarrow> nat list" where
  "slot_numbers pool = [0..<nat (of_int32 (sp_MaxAgents (ap_Spec pool)))]"

primrec ensure_templates :: "'w client \<Rightarrow> 'w machinery \<Rightarrow> AgentPool \<Rightarrow> CacheVolumeTemplate list
    \<Rightarrow> ('w sys, unit result) go" where
  "ensure_templates c m pool [] = go_ret (Ok ())"
| "ensure_templates c m pool (cv # cvs) =
     go_bind (ensure_slots c m pool cv (slot_numbers pool)) (\<lambda>r.
     case r of Err e \<Rightarrow> go_ret (Err e) | Ok _ \<Rightarrow> ensure_templates c m pool cvs)"

definition ensurePVCPool ::
    "'w client \<Rightarrow> 'w machinery \<Rightarrow> AgentPool \<Rightarrow> ('w sys, unit result) go" where
  "ensurePVCPool c m pool =
     (if sp_CacheVolumes (ap_Spec pool) = [] then go_ret (Ok ())
      else ensure_templates c m pool (sp_CacheVolumes (ap_Spec pool)))"

section \<open>Releasing\<close>

definition releasePVC ::
    "'w client \<Rightarrow> PersistentVolumeClaim \<Rightarrow> ('w sys, unit result) go" where
  "releasePVC c pvc =
     go_bind (map_set (pvc_Labels pvc) labelPoolState pvcStateFree) (\<lambda>labels.
     go_bind (r_PatchPVC c pvc (pvc\<lparr>pvc_Labels := map_del labels labelAssignedPod\<rparr>)) (\<lambda>r.
     go_ret (map_sum id (\<lambda>_. ()) r)))"

primrec release_loop :: "'w client \<Rightarrow> PersistentVolumeClaim list \<Rightarrow> go_error option
    \<Rightarrow> ('w sys, go_error option) go" where
  "release_loop c [] firstErr = go_ret firstErr"
| "release_loop c (pvc # pvcs) firstErr =
     go_bind (releasePVC c pvc) (\<lambda>r.
     release_loop c pvcs (case r of Err e \<Rightarrow> (if firstErr = None then Some e else firstErr)
                          | Ok _ \<Rightarrow> firstErr))"

definition releasePVCsForPod ::
    "'w client \<Rightarrow> AgentPool \<Rightarrow> string \<Rightarrow> ('w sys, unit result) go" where
  "releasePVCsForPod c pool podName =
     go_bind (r_ListPVCs c (ap_Namespace pool)
                [(labelPoolName, ap_Name pool), (labelAssignedPod, podName)]) (\<lambda>r.
     case r of Err e \<Rightarrow> go_ret (Err (Wrapf (''list PVCs for pod '' @ podName) e))
     | Ok items \<Rightarrow>
       go_bind (release_loop c items None) (\<lambda>firstErr.
       go_ret (case firstErr of None \<Rightarrow> Ok () | Some e \<Rightarrow> Err e)))"

primrec rollback_loop :: "'w client \<Rightarrow> string \<Rightarrow> string list \<Rightarrow> ('w sys, unit) go" where
  "rollback_loop c namespace [] = go_ret ()"
| "rollback_loop c namespace (pvcName # names) =
     go_bind (r_GetPVC c \<lparr>nn_Namespace = namespace, nn_Name = pvcName\<rparr>) (\<lambda>r.
     case r of Err e \<Rightarrow> rollback_loop c namespace names
     | Ok pvc \<Rightarrow> go_bind (releasePVC c pvc) (\<lambda>_. rollback_loop c namespace names))"

definition rollbackAssignedPVCs ::
    "'w client \<Rightarrow> 'w machinery \<Rightarrow> string \<Rightarrow> (string \<times> string) list \<Rightarrow> ('w sys, unit) go" where
  "rollbackAssignedPVCs c m namespace assigned =
     go_bind (ask (m_RangeOrder m (map snd assigned))) (\<lambda>names.
     rollback_loop c namespace names)"

section \<open>Assigning\<close>

definition free_selector :: "AgentPool \<Rightarrow> CacheVolumeTemplate \<Rightarrow> selector" where
  "free_selector pool cv =
     [(labelPoolName, ap_Name pool), (labelCacheName, cv_Name cv), (labelPoolState, pvcStateFree)]"

text \<open>Marking the chosen claim as assigned to the pod; a failure rolls back the earlier ones.\<close>

definition assign_claim :: "'w client \<Rightarrow> 'w machinery \<Rightarrow> AgentPool \<Rightarrow> string \<Rightarrow> PersistentVolumeClaim
    \<Rightarrow> (string \<times> string) list \<Rightarrow> ('w sys, string result) go" where
  "assign_claim c m pool podName pvc assigned =
     go_bind (map_set (pvc_Labels pvc) labelPoolState pvcStateAssigned) (\<lambda>labels.
     go_bind (map_set labels labelAssignedPod podName) (\<lambda>labels.
     go_bind (r_PatchPVC c pvc (pvc\<lparr>pvc_Labels := labels\<rparr>)) (\<lambda>r.
     case r of
       Err e \<Rightarrow>
         go_bind (rollbackAssignedPVCs c m (ap_Namespace pool) assigned) (\<lambda>_.
         go_ret (Err (Wrapf (''assign PVC '' @ pvc_Name pvc @ '' to pod '' @ podName) e)))
     | Ok pvc' \<Rightarrow> go_ret (Ok (pvc_Name pvc')))))"

text \<open>
  The body of the loop of \<^verbatim>\<open>findAndAssignPVCs\<close>: the name of the claim taken for one template, or the
  error that is returned after the rollback.
\<close>

definition assign_template :: "'w client \<Rightarrow> 'w machinery \<Rightarrow> AgentPool \<Rightarrow> string \<Rightarrow> CacheVolumeTemplate
    \<Rightarrow> (string \<times> string) list \<Rightarrow> ('w sys, string result) go" where
  "assign_template c m pool podName cv assigned =
     go_bind (r_ListPVCs c (ap_Namespace pool) (free_selector pool cv)) (\<lambda>r.
     case r of
       Err e \<Rightarrow>
         go_bind (rollbackAssignedPVCs c m (ap_Namespace pool) assigned) (\<lambda>_.
         go_ret (Err (Wrapf (''list free PVCs for cache '' @ quoted (cv_Name cv)) e)))
     | Ok items \<Rightarrow>
       (case items of
          [] \<Rightarrow>
            go_bind (rollbackAssignedPVCs c m (ap_Namespace pool) assigned) (\<lambda>_.
            go_ret (Err (Errorf (''no free PVC for cache '' @ quoted (cv_Name cv)
                                   @ '': pool at capacity''))))
        | pvc # _ \<Rightarrow> assign_claim c m pool podName pvc assigned))"

primrec assign_loop :: "'w client \<Rightarrow> 'w machinery \<Rightarrow> AgentPool \<Rightarrow> string \<Rightarrow> CacheVolumeTemplate list
    \<Rightarrow> (string \<times> string) list \<Rightarrow> ('w sys, (string \<times> string) list result) go" where
  "assign_loop c m pool podName [] assigned = go_ret (Ok assigned)"
| "assign_loop c m pool podName (cv # cvs) assigned =
     go_bind (assign_template c m pool podName cv assigned) (\<lambda>r.
     case r of Err e \<Rightarrow> go_ret (Err e)
     | Ok name \<Rightarrow>
         assign_loop c m pool podName cvs (AList.update (cv_Name cv) name assigned))"

definition findAndAssignPVCs :: "'w client \<Rightarrow> 'w machinery \<Rightarrow> AgentPool \<Rightarrow> string
    \<Rightarrow> ('w sys, (string \<times> string) list result) go" where
  "findAndAssignPVCs c m pool podName =
     (if sp_CacheVolumes (ap_Spec pool) = [] then go_ret (Ok [])
      else assign_loop c m pool podName (sp_CacheVolumes (ap_Spec pool)) [])"

section \<open>Counting\<close>

primrec count_loop :: "'w client \<Rightarrow> AgentPool \<Rightarrow> CacheVolumeTemplate list \<Rightarrow> int
    \<Rightarrow> ('w sys, int result) go" where
  "count_loop c pool [] minFree = go_ret (Ok minFree)"
| "count_loop c pool (cv # cvs) minFree =
     go_bind (r_ListPVCs c (ap_Namespace pool) (free_selector pool cv)) (\<lambda>r.
     case r of
       Err e \<Rightarrow> go_ret (Err (Wrapf (''list free PVCs for '' @ quoted (cv_Name cv)) e))
     | Ok items \<Rightarrow>
         count_loop c pool cvs
           (if int (length items) < minFree then int (length items) else minFree))"

definition countFreePVCSlots :: "'w client \<Rightarrow> AgentPool \<Rightarrow> ('w sys, int result) go" where
  "countFreePVCSlots c pool =
     (if sp_CacheVolumes (ap_Spec pool) = [] then
        go_ret (Ok (of_int32 (sp_MaxAgents (ap_Spec pool))))
      else count_loop c pool (sp_CacheVolumes (ap_Spec pool))
             (of_int32 (sp_MaxAgents (ap_Spec pool))))"

section \<open>Names of slots\<close>

lemma pvcSlotName_take: "pvcSlotName p c i = take 40 p @ ''-cache-'' @ take 20 c @ ''-'' @ int_str02 i"
  by (simp add: pvcSlotName_def Let_def)

lemma pvcSlotName_inject: "pvcSlotName p c i = pvcSlotName p c j \<longleftrightarrow> i = j"
  by (simp add: pvcSlotName_take)

lemma pvcSlotName_length: "i < 10 ^ k \<Longrightarrow> 2 \<le> k \<Longrightarrow> length (pvcSlotName p c i) \<le> 68 + k"
  using int_str02_length [of i k] by (simp add: pvcSlotName_take)

section \<open>Calls\<close>

text \<open>The operations of the pool only make calls on claims.\<close>

fun is_pvc_call :: "obs \<Rightarrow> bool" where
  "is_pvc_call (GetPVC _) = True"
| "is_pvc_call (ListPVCs _ _) = True"
| "is_pvc_call (CreatePVC _ _) = True"
| "is_pvc_call (PatchPVC _ _ _) = True"
| "is_pvc_call _ = False"

lemma emits_map_set [emits_intros]: "emits P (map_set g k v)"
  by (simp add: map_set_def emits_intros split: option.split)

lemma emits_releasePVC: "emits is_pvc_call (releasePVC c v)"
  unfolding releasePVC_def call_defs by (intro emits_intros) simp

lemma emits_release_loop: "emits is_pvc_call (release_loop c vs fe)"
  by (induction vs arbitrary: fe) (auto intro!: emits_intros emits_releasePVC)

lemma emits_releasePVCsForPod: "emits is_pvc_call (releasePVCsForPod c pool pod)"
  unfolding releasePVCsForPod_def call_defs by (intro emits_intros emits_release_loop) simp

lemma emits_rollback_loop: "emits is_pvc_call (rollback_loop c ns names)"
  by (induction names) (auto simp: call_defs intro!: emits_intros emits_releasePVC)

lemma emits_rollback: "emits is_pvc_call (rollbackAssignedPVCs c m ns asg)"
  unfolding rollbackAssignedPVCs_def by (intro emits_intros emits_rollback_loop)

lemma emits_assign_template: "emits is_pvc_call (assign_template c m pool pod cv asg)"
  unfolding assign_template_def assign_claim_def call_defs
  by (auto intro!: emits_intros emits_rollback split: list.split)

lemma emits_assign_loop: "emits is_pvc_call (assign_loop c m pool pod cvs asg)"
  by (induction cvs arbitrary: asg) (auto intro!: emits_intros emits_assign_template)

lemma emits_findAndAssign: "emits is_pvc_call (findAndAssignPVCs c m pool pod)"
  unfolding findAndAssignPVCs_def by (intro emits_intros emits_assign_loop)

lemma emits_ensure_slots: "emits is_pvc_call (ensure_slots c m pool cv is)"
  by (induction "is") (auto simp: ensure_slot_def call_defs Let_def intro!: emits_intros)

lemma emits_ensure_templates: "emits is_pvc_call (ensure_templates c m pool cvs)"
  by (induction cvs) (auto intro!: emits_intros emits_ensure_slots)

lemma emits_ensurePVCPool: "emits is_pvc_call (ensurePVCPool c m pool)"
  unfolding ensurePVCPool_def by (intro emits_intros emits_ensure_templates)

lemma emits_count_loop: "emits is_pvc_call (count_loop c pool cvs n)"
  by (induction cvs arbitrary: n) (auto simp: call_defs intro!: emits_intros)

lemma emits_countFree: "emits is_pvc_call (countFreePVCSlots c pool)"
  unfolding countFreePVCSlots_def by (intro emits_intros emits_count_loop)

lemmas emits_pvc = emits_releasePVCsForPod emits_rollback emits_findAndAssign emits_ensurePVCPool
  emits_countFree

end
