(* ===== verification/Pvc_Contract.thy ===== *)
theory Pvc_Contract
  imports Pvc_Pool
begin

text \<open>
  What the cache-volume pool relies on from the API server, as locales, and what follows for its
  operations.

  \<open>pvc_writes\<close> states the effect of the writing calls on the claims stored in the cluster
  (\<open>store\<close>): a merge patch changes exactly the labels that differ between the copy it was computed
  from and the modified object, a creation adds an object that was absent, a rejected call and a
  read change nothing, and nobody else edits the claims in between.  \<open>pvc_api\<close> adds that reads are
  fresh: \<^verbatim>\<open>Get\<close> and \<^verbatim>\<open>List\<close> answer from the current store.  \<open>pvc_reliable\<close> adds that calls on
  existing claims succeed.

  Client lemmas: assignment takes free claims of the right template, one each, and touches no other
  claim; a failed assignment leaves every claim as it was or recoverably assigned to the pod, and
  as it was when the calls succeed; a successful release leaves the pod without claims;
  provisioning creates the missing claims and changes no existing one; the free count is the
  minimum over the templates.
\<close>

section \<open>Labels of claims\<close>

lemmas pvc_label_defs =
  labelPoolName_def labelCacheName_def labelCacheSlot_def labelPoolState_def labelAssignedPod_def
  pvcStateFree_def pvcStateAssigned_def

lemma labels_distinct [simp]:
  "labelPoolState \<noteq> labelAssignedPod" "labelAssignedPod \<noteq> labelPoolState"
  "labelPoolState \<noteq> labelPoolName" "labelPoolName \<noteq> labelPoolState"
  "labelPoolState \<noteq> labelCacheName" "labelCacheName \<noteq> labelPoolState"
  "labelPoolState \<noteq> labelCacheSlot" "labelCacheSlot \<noteq> labelPoolState"
  "labelAssignedPod \<noteq> labelPoolName" "labelPoolName \<noteq> labelAssignedPod"
  "labelAssignedPod \<noteq> labelCacheName" "labelCacheName \<noteq> labelAssignedPod"
  "labelAssignedPod \<noteq> labelCacheSlot" "labelCacheSlot \<noteq> labelAssignedPod"
  "labelPoolName \<noteq> labelCacheName" "labelCacheName \<noteq> labelPoolName"
  "labelPoolName \<noteq> labelCacheSlot" "labelCacheSlot \<noteq> labelPoolName"
  "labelCacheName \<noteq> labelCacheSlot" "labelCacheSlot \<noteq> labelCacheName"
  "pvcStateFree \<noteq> pvcStateAssigned" "pvcStateAssigned \<noteq> pvcStateFree"
  by (simp_all add: pvc_label_defs)

type_synonym key = "string \<times> string"
type_synonym claims = "key \<Rightarrow> PersistentVolumeClaim option"
type_synonym label_view = "key \<Rightarrow> (string \<rightharpoonup> string) option"

definition matches :: "selector \<Rightarrow> (string \<rightharpoonup> string) \<Rightarrow> bool" where
  "matches sel ls \<longleftrightarrow> list_all (\<lambda>(k, v). ls k = Some v) sel"

definition lab :: "claims \<Rightarrow> label_view" where
  "lab S k = map_option (\<lambda>v. map_get (pvc_Labels v)) (S k)"

definition merged :: "(string \<rightharpoonup> string) \<Rightarrow> (string \<rightharpoonup> string) \<Rightarrow> (string \<rightharpoonup> string) \<Rightarrow> (string \<rightharpoonup> string)" where
  "merged base new cur = (\<lambda>k. if base k = new k then cur k else new k)"

lemma merged_same [simp]: "merged base new base = new"
  by (auto simp: merged_def)

abbreviation pvc_key :: "PersistentVolumeClaim \<Rightarrow> key" where
  "pvc_key v \<equiv> (pvc_Namespace v, pvc_Name v)"

definition set_assigned :: "string \<Rightarrow> (string \<rightharpoonup> string) \<Rightarrow> (string \<rightharpoonup> string)" where
  "set_assigned pod ls = ls(labelPoolState \<mapsto> pvcStateAssigned, labelAssignedPod \<mapsto> pod)"

definition set_free :: "(string \<rightharpoonup> string) \<Rightarrow> (string \<rightharpoonup> string)" where
  "set_free ls = ls(labelPoolState \<mapsto> pvcStateFree, labelAssignedPod := None)"

text \<open>
  The invariant of the pool: a claim that carries a pool label is free without a pod, or assigned
  with one.
\<close>

definition claim_wf :: "(string \<rightharpoonup> string) \<Rightarrow> bool" where
  "claim_wf ls \<longleftrightarrow> ls labelPoolName \<noteq> None \<longrightarrow>
     (ls labelPoolState = Some pvcStateFree \<and> ls labelAssignedPod = None)
     \<or> (ls labelPoolState = Some pvcStateAssigned \<and> ls labelAssignedPod \<noteq> None)"

definition claims_wf :: "label_view \<Rightarrow> bool" where
  "claims_wf L \<longleftrightarrow> (\<forall>k ls. L k = Some ls \<longrightarrow> claim_wf ls)"

lemma claim_wf_set_assigned [simp]: "claim_wf (set_assigned pod ls)"
  by (simp add: claim_wf_def set_assigned_def)

lemma claim_wf_set_free [simp]: "claim_wf (set_free ls)"
  by (simp add: claim_wf_def set_free_def)

lemma set_free_assigned: "set_free (set_assigned pod ls) = set_free ls"
  by (auto simp: set_free_def set_assigned_def)

lemma set_free_id:
  "ls labelPoolState = Some pvcStateFree \<Longrightarrow> ls labelAssignedPod = None \<Longrightarrow> set_free ls = ls"
  by (auto simp: set_free_def)

lemma map_get_released:
  "map_get (map_del (Some (f(labelPoolState \<mapsto> pvcStateFree))) labelAssignedPod) = set_free f"
  by (simp add: map_del_def set_free_def)

section \<open>The contract\<close>

locale pvc_writes =
  fixes c :: "'w client" and m :: "'w machinery" and store :: "'w \<Rightarrow> claims"
  assumes store_key: "store w (ns, n) = Some v \<Longrightarrow> pvc_key v = (ns, n)"
    and patch_ok: "c_PatchPVC c base v w = (Ok v', w') \<Longrightarrow>
      \<exists>cur. store w (pvc_key v) = Some cur
        \<and> pvc_key v' = pvc_key v
        \<and> map_get (pvc_Labels v') = merged (map_get (pvc_Labels base)) (map_get (pvc_Labels v))
                                      (map_get (pvc_Labels cur))
        \<and> store w' = (store w)(pvc_key v \<mapsto> v')"
    and patch_err: "c_PatchPVC c base v w = (Err e, w') \<Longrightarrow> store w' = store w"
    and create_ok: "c_CreatePVC c v w = (Ok u, w') \<Longrightarrow>
      store w (pvc_key v) = None
        \<and> (\<exists>v'. pvc_key v' = pvc_key v \<and> map_get (pvc_Labels v') = map_get (pvc_Labels v)
              \<and> store w' = (store w)(pvc_key v \<mapsto> v'))"
    and create_err: "c_CreatePVC c v w = (Err e, w') \<Longrightarrow> store w' = store w"
    and create_exists: "c_CreatePVC c v w = (Err e, w') \<Longrightarrow> m_IsAlreadyExists m e \<Longrightarrow>
      store w (pvc_key v) \<noteq> None"
    and get_store: "c_GetPVC c nn w = (r, w') \<Longrightarrow> store w' = store w"
    and list_store: "c_ListPVCs c ns sel w = (rs, w') \<Longrightarrow> store w' = store w"
    and order_store: "m_RangeOrder m xs w = (ys, w') \<Longrightarrow> store w' = store w"
    and order_set: "m_RangeOrder m xs w = (ys, w') \<Longrightarrow> set ys = set xs"
    and owner_keeps: "m_SetPVCOwner m pool v = Ok v' \<Longrightarrow>
      pvc_key v' = pvc_key v \<and> pvc_Labels v' = pvc_Labels v"

locale pvc_api = pvc_writes c m store
  for c :: "'w client" and m :: "'w machinery" and store :: "'w \<Rightarrow> claims" +
  assumes get_fresh: "c_GetPVC c \<lparr>nn_Namespace = ns, nn_Name = n\<rparr> w = (Ok v, w') \<Longrightarrow>
      store w (ns, n) = Some v"
    and list_fresh: "c_ListPVCs c ns sel w = (Ok vs, w') \<Longrightarrow>
      distinct (map pvc_Name vs)
      \<and> set vs = {v. \<exists>n. store w (ns, n) = Some v \<and> matches sel (map_get (pvc_Labels v))}"

locale pvc_reliable = pvc_api c m store
  for c :: "'w client" and m :: "'w machinery" and store :: "'w \<Rightarrow> claims" +
  assumes get_succeeds: "store w (ns, n) = Some v \<Longrightarrow>
      \<exists>w'. c_GetPVC c \<lparr>nn_Namespace = ns, nn_Name = n\<rparr> w = (Ok v, w')"
    and list_succeeds: "\<exists>vs w'. c_ListPVCs c ns sel w = (Ok vs, w')"
    and patch_succeeds: "store w (pvc_key v) = Some cur \<Longrightarrow>
      \<exists>v' w'. c_PatchPVC c base v w = (Ok v', w')"

section \<open>Single steps\<close>

context pvc_writes
begin

lemma wp_get:
  assumes "\<And>r w'. c_GetPVC c nn (world s) = (r, w') \<Longrightarrow> store w' = store (world s) \<Longrightarrow>
      Q (Ret r) (s\<lparr>world := w', trace := trace s @ [GetPVC nn]\<rparr>)"
  shows "wp (r_GetPVC c nn) Q s"
  unfolding call_defs wp_simps using assms get_store by (auto split: prod.split)

lemma wp_list:
  assumes "\<And>r w'. c_ListPVCs c ns sel (world s) = (r, w') \<Longrightarrow> store w' = store (world s) \<Longrightarrow>
      Q (Ret r) (s\<lparr>world := w', trace := trace s @ [ListPVCs ns sel]\<rparr>)"
  shows "wp (r_ListPVCs c ns sel) Q s"
  unfolding call_defs wp_simps using assms list_store by (auto split: prod.split)

text \<open>A patch computed from the stored labels sets them to the given ones, or fails.\<close>

lemma wp_patch:
  assumes cur: "lab (store (world s)) (pvc_key v) = Some (map_get (pvc_Labels v))"
    and new: "pvc_key v2 = pvc_key v"
    and err: "\<And>e t. c_PatchPVC c v v2 (world s) = (Err e, world t) \<Longrightarrow>
        store (world t) = store (world s) \<Longrightarrow> Q (Ret (Err e)) t"
    and ok: "\<And>v' t. pvc_key v' = pvc_key v \<Longrightarrow>
        map_get (pvc_Labels v') = map_get (pvc_Labels v2) \<Longrightarrow>
        store (world t) = (store (world s))(pvc_key v \<mapsto> v') \<Longrightarrow> Q (Ret (Ok v')) t"
  shows "wp (r_PatchPVC c v v2) Q s"
proof (rule wp_runI)
  fix r t
  assume run: "r_PatchPVC c v v2 s = (r, t)"
  obtain x w' where x: "c_PatchPVC c v v2 (world s) = (x, w')" by fastforce
  with run have r: "r = Ret x" "world t = w'" by (auto simp: call_defs call_def)
  show "Q r t"
  proof (cases x)
    case (Inl e)
    with x r have "c_PatchPVC c v v2 (world s) = (Err e, world t)" by simp
    with patch_err [OF this] err Inl r show ?thesis by simp
  next
    case (Inr v')
    with x obtain cur' where cur': "store (world s) (pvc_key v2) = Some cur'"
      and "pvc_key v' = pvc_key v2"
      and lv: "map_get (pvc_Labels v') = merged (map_get (pvc_Labels v)) (map_get (pvc_Labels v2))
                  (map_get (pvc_Labels cur'))"
      and "store w' = (store (world s))(pvc_key v2 \<mapsto> v')"
      using patch_ok by blast
    moreover have "map_get (pvc_Labels cur') = map_get (pvc_Labels v)"
      using cur cur' new by (simp add: lab_def)
    ultimately show ?thesis using ok [of v' t] r Inr new by simp
  qed
qed

lemma lab_upd: "lab (S(k \<mapsto> v)) = (lab S)(k \<mapsto> map_get (pvc_Labels v))"
  by (auto simp: lab_def)

text \<open>Releasing a claim whose stored labels are those of the given object.\<close>

lemma wp_release:
  assumes cur: "lab (store (world s)) (pvc_key v) = Some (map_get (pvc_Labels v))"
    and pool: "map_get (pvc_Labels v) l \<noteq> None"
    and err: "\<And>e t v2. c_PatchPVC c v v2 (world s) = (Err e, world t) \<Longrightarrow>
        pvc_key v2 = pvc_key v \<Longrightarrow> store (world t) = store (world s) \<Longrightarrow> Q (Ret (Err e)) t"
    and ok: "\<And>t. lab (store (world t)) =
        (lab (store (world s)))(pvc_key v \<mapsto> set_free (map_get (pvc_Labels v)))
        \<Longrightarrow> Q (Ret (Ok ())) t"
  shows "wp (releasePVC c v) Q s"
proof -
  from pool obtain f where f: "pvc_Labels v = Some f" by (auto dest: map_get_not_nil)
  let ?v2 = "v\<lparr>pvc_Labels := map_del (Some (f(labelPoolState \<mapsto> pvcStateFree))) labelAssignedPod\<rparr>"
  have "wp (r_PatchPVC c v ?v2)
      (\<lambda>r t. case r of Ret x \<Rightarrow> wp (go_ret (map_sum id (\<lambda>_. ()) x)) Q t | Panic msg \<Rightarrow> Q (Panic msg) t) s"
  proof (rule wp_patch [OF cur])
    show "pvc_key ?v2 = pvc_key v" by simp
  next
    fix e and t :: "'w sys"
    assume "c_PatchPVC c v ?v2 (world s) = (Err e, world t)" "store (world t) = store (world s)"
    then show "case Ret (Err e) of Ret x \<Rightarrow> wp (go_ret (map_sum id (\<lambda>_. ()) x)) Q t
        | Panic msg \<Rightarrow> Q (Panic msg) t"
      using err [where ?v2.0 = ?v2] by (simp add: wp_simps)
  next
    fix v' and t :: "'w sys"
    assume "map_get (pvc_Labels v') = map_get (pvc_Labels ?v2)"
      and "store (world t) = (store (world s))(pvc_key v \<mapsto> v')"
    then show "case Ret (Ok v') of Ret x \<Rightarrow> wp (go_ret (map_sum id (\<lambda>_. ()) x)) Q t
        | Panic msg \<Rightarrow> Q (Panic msg) t"
      by (simp add: wp_simps ok lab_upd map_get_released f)
  qed
  then show ?thesis
    by (simp add: releasePVC_def f wp_bind)
qed

end

section \<open>Rollback\<close>

text \<open>
  \<open>restorable L0 N ns pod L\<close>: every claim has its labels of \<open>L0\<close>, except that those named in \<open>N\<close> may
  be assigned to \<open>pod\<close> instead.
\<close>

definition restorable ::
    "label_view \<Rightarrow> string set \<Rightarrow> string \<Rightarrow> string \<Rightarrow> label_view \<Rightarrow> bool" where
  "restorable L0 N ns pod L \<longleftrightarrow> (\<forall>k. L k = L0 k
     \<or> (\<exists>n \<in> N. k = (ns, n) \<and> L k = map_option (set_assigned pod) (L0 k)))"

lemma restorable_refl: "restorable L N ns pod L"
  by (simp add: restorable_def)

lemma restorable_mono: "restorable L0 N ns pod L \<Longrightarrow> N \<subseteq> N' \<Longrightarrow> restorable L0 N' ns pod L"
  unfolding restorable_def by blast

lemma restorable_empty: "restorable L0 {} ns pod L \<longleftrightarrow> L = L0"
  by (auto simp: restorable_def)

text \<open>The claims in \<open>N\<close> were free and consistent before.\<close>

definition were_free :: "label_view \<Rightarrow> string \<Rightarrow> string set \<Rightarrow> bool" where
  "were_free L0 ns N \<longleftrightarrow> (\<forall>n \<in> N. \<exists>ls. L0 (ns, n) = Some ls
     \<and> ls labelPoolState = Some pvcStateFree \<and> ls labelAssignedPod = None)"

lemma restorable_old:
  assumes "restorable L0 N ns pod L" and "were_free L0 ns N" and "n \<in> N"
    and "L (ns, n) = Some ls"
  obtains ls0 where "L0 (ns, n) = Some ls0" and "ls0 labelPoolState = Some pvcStateFree"
    and "ls0 labelAssignedPod = None" and "ls = ls0 \<or> ls = set_assigned pod ls0"
proof -
  from assms(2,3) obtain ls0 where ls0: "L0 (ns, n) = Some ls0"
    "ls0 labelPoolState = Some pvcStateFree" "ls0 labelAssignedPod = None"
    unfolding were_free_def by blast
  moreover have "L (ns, n) = L0 (ns, n) \<or> L (ns, n) = map_option (set_assigned pod) (L0 (ns, n))"
    using assms(1) unfolding restorable_def by blast
  ultimately show ?thesis using assms(4) that by auto
qed

lemma restorable_set_free:
  assumes "restorable L0 N ns pod L" and "were_free L0 ns N" and "n \<in> N"
    and "L (ns, n) = Some ls"
  shows "L0 (ns, n) = Some (set_free ls)" and "ls labelPoolState \<noteq> None"
proof -
  from assms obtain ls0 where "L0 (ns, n) = Some ls0" "ls0 labelPoolState = Some pvcStateFree"
    "ls0 labelAssignedPod = None" "ls = ls0 \<or> ls = set_assigned pod ls0"
    by (rule restorable_old)
  then show "L0 (ns, n) = Some (set_free ls)" and "ls labelPoolState \<noteq> None"
    by (auto simp: set_free_assigned set_free_id) (simp_all add: set_assigned_def)
qed

lemma restorable_release:
  assumes "restorable L0 N ns pod L" and "L0 (ns, n) = Some x"
  shows "restorable L0 N ns pod (L((ns, n) \<mapsto> x))"
  using assms unfolding restorable_def by simp

lemma restorable_shrink:
  assumes "restorable L0 (insert n N) ns pod L" and "L0 (ns, n) = Some x"
  shows "restorable L0 N ns pod (L((ns, n) \<mapsto> x))"
  using assms unfolding restorable_def by auto

context pvc_api
begin

lemma get_lab:
  assumes "c_GetPVC c \<lparr>nn_Namespace = ns, nn_Name = n\<rparr> w = (Ok v, w')"
  shows "pvc_key v = (ns, n)" and "lab (store w) (ns, n) = Some (map_get (pvc_Labels v))"
  using get_fresh [OF assms] store_key by (auto simp: lab_def)

lemma wp_rollback_loop:
  assumes "restorable L0 N ns pod (lab (store (world s)))" and "were_free L0 ns N"
    and "set names \<subseteq> N"
  shows "wp (rollback_loop c ns names)
     (\<lambda>r t. r = Ret () \<and> restorable L0 N ns pod (lab (store (world t)))) s"
  using assms
proof (induction names arbitrary: s)
  case Nil
  then show ?case by (simp add: wp_simps)
next
  case (Cons n names)
  let ?Q = "\<lambda>r t. r = Ret () \<and> restorable L0 N ns pod (lab (store (world t)))"
  have tail: "wp (rollback_loop c ns names) ?Q t"
    if "restorable L0 N ns pod (lab (store (world t)))" for t :: "'w sys"
    using Cons.IH [OF that] Cons.prems by simp
  have "wp (case r of Err e \<Rightarrow> rollback_loop c ns names
      | Ok v \<Rightarrow> go_bind (releasePVC c v) (\<lambda>_. rollback_loop c ns names)) ?Q
      (s\<lparr>world := w', trace := trace s @ os\<rparr>)"
    if get: "c_GetPVC c \<lparr>nn_Namespace = ns, nn_Name = n\<rparr> (world s) = (r, w')"
      and st: "store w' = store (world s)" for r w' os
  proof (cases r)
    case (Inl e)
    then show ?thesis using tail Cons.prems(1) st by simp
  next
    case (Inr v)
    note v = get_lab [OF get [unfolded Inr]]
    have old: "L0 (ns, n) = Some (set_free (map_get (pvc_Labels v)))"
      using restorable_set_free(1) [OF Cons.prems(1,2) _ v(2)] Cons.prems(3) by simp
    have "map_get (pvc_Labels v) labelPoolState \<noteq> None"
      using restorable_set_free(2) [OF Cons.prems(1,2) _ v(2)] Cons.prems(3) by simp
    then have "wp (releasePVC c v)
        (\<lambda>r t. case r of Ret _ \<Rightarrow> wp (rollback_loop c ns names) ?Q t | Panic p \<Rightarrow> ?Q (Panic p) t)
        (s\<lparr>world := w', trace := trace s @ os\<rparr>)"
      by (rule wp_release [rotated])
         (use v st Cons.prems(1) old in \<open>auto intro!: tail restorable_release\<close>)
    with Inr show ?thesis by (simp add: wp_bind)
  qed
  then show ?case
    unfolding rollback_loop.simps wp_bind by (intro wp_get) simp
qed

lemma wp_rollback:
  assumes "restorable L0 N ns pod (lab (store (world s)))" and "were_free L0 ns N"
    and "snd ` set assigned \<subseteq> N"
  shows "wp (rollbackAssignedPVCs c m ns assigned)
     (\<lambda>r t. r = Ret () \<and> restorable L0 N ns pod (lab (store (world t)))) s"
  unfolding rollbackAssignedPVCs_def wp_bind wp_ask
  using assms order_store order_set
  by (auto split: prod.split intro!: wp_rollback_loop)

end

context pvc_reliable
begin

lemma wp_release_ok:
  assumes cur: "lab (store (world s)) (pvc_key v) = Some (map_get (pvc_Labels v))"
    and pool: "map_get (pvc_Labels v) l \<noteq> None"
    and ok: "\<And>t. lab (store (world t)) =
        (lab (store (world s)))(pvc_key v \<mapsto> set_free (map_get (pvc_Labels v)))
        \<Longrightarrow> Q (Ret (Ok ())) t"
  shows "wp (releasePVC c v) Q s"
proof (rule wp_release [OF cur pool])
  fix e v2 and t :: "'w sys"
  assume err: "c_PatchPVC c v v2 (world s) = (Err e, world t)" and "pvc_key v2 = pvc_key v"
  with cur obtain cur' where "store (world s) (pvc_key v2) = Some cur'" by (auto simp: lab_def)
  with patch_succeeds err show "Q (Ret (Err e)) t" by (metis Inl_Inr_False prod.inject)
qed (rule ok)

text \<open>When every call succeeds, the rollback restores all claims.\<close>

lemma wp_rollback_loop_restores:
  assumes "restorable L0 (set names) ns pod (lab (store (world s)))"
    and "were_free L0 ns (set names)"
  shows "wp (rollback_loop c ns names) (\<lambda>r t. r = Ret () \<and> lab (store (world t)) = L0) s"
  using assms
proof (induction names arbitrary: s)
  case Nil
  then show ?case by (simp add: wp_simps restorable_empty)
next
  case (Cons n names)
  let ?S = "store (world s)" and ?Q = "\<lambda>r t. r = Ret () \<and> lab (store (world t)) = L0"
  have free: "were_free L0 ns (set names)" using Cons.prems(2) by (simp add: were_free_def)
  obtain ls0 where "L0 (ns, n) = Some ls0" using Cons.prems(2) by (auto simp: were_free_def)
  with Cons.prems(1) have "lab ?S (ns, n) \<noteq> None"
    unfolding restorable_def by (metis option.map_disc_iff option.distinct(1))
  then obtain v where v: "?S (ns, n) = Some v" by (auto simp: lab_def)
  obtain w' where get: "c_GetPVC c \<lparr>nn_Namespace = ns, nn_Name = n\<rparr> (world s) = (Ok v, w')"
    using get_succeeds [OF v] by blast
  note key = get_lab [OF get]
  note old = restorable_set_free [OF Cons.prems(1,2) _ key(2)]
  let ?s = "s\<lparr>world := w', trace := trace s @ [GetPVC \<lparr>nn_Namespace = ns, nn_Name = n\<rparr>]\<rparr>"
  have "wp (releasePVC c v)
      (\<lambda>r t. case r of Ret _ \<Rightarrow> wp (rollback_loop c ns names) ?Q t | Panic p \<Rightarrow> ?Q (Panic p) t) ?s"
  proof (rule wp_release_ok)
    show "lab (store (world ?s)) (pvc_key v) = Some (map_get (pvc_Labels v))"
      using key get_store [OF get] by simp
    show "map_get (pvc_Labels v) labelPoolState \<noteq> None" using old(2) by simp
  next
    fix t :: "'w sys"
    assume "lab (store (world t)) =
        (lab (store (world ?s)))(pvc_key v \<mapsto> set_free (map_get (pvc_Labels v)))"
    then have "lab (store (world t)) = (lab ?S)((ns, n) \<mapsto> set_free (map_get (pvc_Labels v)))"
      using key(1) get_store [OF get] by simp
    then have "restorable L0 (set names) ns pod (lab (store (world t)))"
      using restorable_shrink [OF Cons.prems(1) [simplified] old(1)] by simp
    then show "case Ret (Ok ()) of Ret _ \<Rightarrow> wp (rollback_loop c ns names) ?Q t
        | Panic p \<Rightarrow> ?Q (Panic p) t"
      using Cons.IH free by simp
  qed
  then show ?case
    unfolding rollback_loop.simps wp_bind call_defs wp_call get by (simp add: wp_bind)
qed

lemma wp_rollback_restores:
  assumes "restorable L0 (snd ` set assigned) ns pod (lab (store (world s)))"
    and "were_free L0 ns (snd ` set assigned)"
  shows "wp (rollbackAssignedPVCs c m ns assigned)
     (\<lambda>r t. r = Ret () \<and> lab (store (world t)) = L0) s"
  unfolding rollbackAssignedPVCs_def wp_bind wp_ask
  using assms order_store order_set
  by (auto split: prod.split intro!: wp_rollback_loop_restores)

end

section \<open>Assignment\<close>

text \<open>
  \<open>holds L0 ns pool cvs pod assigned L\<close>: the claims recorded in \<open>assigned\<close> are distinct, were free
  claims of their template in \<open>L0\<close>, and are now assigned to the pod; all other claims are as in \<open>L0\<close>.
\<close>

definition was_free_for :: "label_view \<Rightarrow> AgentPool \<Rightarrow> string \<Rightarrow> string \<Rightarrow> bool" where
  "was_free_for L0 pool cache n \<longleftrightarrow> (\<exists>ls. L0 (ap_Namespace pool, n) = Some ls
     \<and> ls labelPoolName = Some (ap_Name pool) \<and> ls labelCacheName = Some cache
     \<and> ls labelPoolState = Some pvcStateFree)"

definition holds :: "label_view \<Rightarrow> AgentPool \<Rightarrow> string \<Rightarrow> (string \<times> string) list \<Rightarrow> label_view \<Rightarrow> bool" where
  "holds L0 pool pod assigned L \<longleftrightarrow>
     distinct (map fst assigned) \<and> distinct (map snd assigned)
     \<and> (\<forall>(cache, n) \<in> set assigned. was_free_for L0 pool cache n)
     \<and> L = (\<lambda>k. if \<exists>n \<in> snd ` set assigned. k = (ap_Namespace pool, n)
                then map_option (set_assigned pod) (L0 k) else L0 k)"

lemma holds_restorable:
  "holds L0 pool pod assigned L \<Longrightarrow> restorable L0 (snd ` set assigned) (ap_Namespace pool) pod L"
  unfolding holds_def restorable_def by auto

lemma holds_were_free:
  assumes "holds L0 pool pod assigned L" and "claims_wf L0"
  shows "were_free L0 (ap_Namespace pool) (snd ` set assigned)"
  using assms unfolding holds_def were_free_def was_free_for_def claims_wf_def claim_wf_def
  by fastforce

lemma matches_free_selector:
  "matches (free_selector pool cv) ls \<longleftrightarrow> ls labelPoolName = Some (ap_Name pool)
     \<and> ls labelCacheName = Some (cv_Name cv) \<and> ls labelPoolState = Some pvcStateFree"
  by (simp add: matches_def free_selector_def)

text \<open>A claim that is listed as free is not one that has already been assigned.\<close>

lemma holds_free_fresh:
  assumes "holds L0 pool pod assigned L" and "L (ap_Namespace pool, n) = Some ls"
    and "ls labelPoolState = Some pvcStateFree"
  shows "n \<notin> snd ` set assigned" and "L0 (ap_Namespace pool, n) = Some ls"
  using assms unfolding holds_def by (auto simp: set_assigned_def split: if_splits)

lemma update_fresh: "k \<notin> fst ` set al \<Longrightarrow> AList.update k v al = al @ [(k, v)]"
  by (induction al) auto

lemma holds_step:
  assumes "holds L0 pool pod assigned L" and "cache \<notin> fst ` set assigned"
    and "L (ap_Namespace pool, n) = Some ls" and "ls labelPoolName = Some (ap_Name pool)"
    and "ls labelCacheName = Some cache" and "ls labelPoolState = Some pvcStateFree"
  shows "holds L0 pool pod (AList.update cache n assigned)
           (L((ap_Namespace pool, n) \<mapsto> set_assigned pod ls))"
proof -
  note fresh = holds_free_fresh [OF assms(1,3,6)]
  have upd: "AList.update cache n assigned = assigned @ [(cache, n)]"
    using assms(2) by (rule update_fresh)
  show ?thesis
    using assms fresh unfolding holds_def upd was_free_for_def by (auto simp: fun_eq_iff)
qed

text \<open>A failed assignment leaves only claims behind that were free, and only assigned to this pod.\<close>

definition recoverable :: "label_view \<Rightarrow> AgentPool \<Rightarrow> string \<Rightarrow> label_view \<Rightarrow> bool" where
  "recoverable L0 pool pod L \<longleftrightarrow>
     (\<exists>N. were_free L0 (ap_Namespace pool) N \<and> restorable L0 N (ap_Namespace pool) pod L)"

lemma holds_Nil [simp]: "holds L0 pool pod [] L \<longleftrightarrow> L = L0"
  by (simp add: holds_def)

text \<open>What taking a claim for a template means, and the three ways an assignment step can end.\<close>

definition took :: "label_view \<Rightarrow> AgentPool \<Rightarrow> string \<Rightarrow> CacheVolumeTemplate \<Rightarrow> string \<Rightarrow> label_view \<Rightarrow> bool" where
  "took L pool pod cv n L' \<longleftrightarrow> (\<exists>ls. L (ap_Namespace pool, n) = Some ls
     \<and> matches (free_selector pool cv) ls
     \<and> L' = L((ap_Namespace pool, n) \<mapsto> set_assigned pod ls))"

definition ends :: "('a \<Rightarrow> label_view \<Rightarrow> bool) \<Rightarrow> (label_view \<Rightarrow> bool) \<Rightarrow> 'a result outcome \<Rightarrow> label_view
    \<Rightarrow> bool" where
  "ends G F r L \<longleftrightarrow> (case r of Ret (Ok x) \<Rightarrow> G x L | Ret (Err e) \<Rightarrow> F L | Panic p \<Rightarrow> False)"

lemma ends_simps [simp]:
  "ends G F (Ret (Ok x)) L = G x L" "ends G F (Ret (Err e)) L = F L" "ends G F (Panic p) L = False"
  by (simp_all add: ends_def)

lemma ends_same: "ends (\<lambda>_. F) F r L \<Longrightarrow> F L"
  by (auto simp: ends_def split: outcome.splits sum.splits)

lemma ends_mono:
  "ends G F r L \<Longrightarrow> (\<And>x. G x L \<Longrightarrow> G' x L) \<Longrightarrow> (F L \<Longrightarrow> F' L) \<Longrightarrow> ends G' F' r L"
  by (simp add: ends_def split: outcome.splits sum.splits)

context pvc_api
begin

text \<open>The steps hold for any property \<open>F\<close> that the rollback establishes.\<close>

lemma wp_fail:
  assumes "wp (rollbackAssignedPVCs c m ns assigned) (\<lambda>r t. r = Ret () \<and> F (lab (store (world t)))) t"
  shows "wp (go_bind (rollbackAssignedPVCs c m ns assigned) (\<lambda>_. go_ret (Err e)))
           (\<lambda>r t. ends G F r (lab (store (world t)))) t"
  unfolding wp_bind by (rule wp_mono [OF assms]) (auto simp: wp_simps)

lemma wp_assign_claim:
  assumes roll: "\<And>t. store (world t) = S \<Longrightarrow> wp (rollbackAssignedPVCs c m (ap_Namespace pool) assigned)
        (\<lambda>r t. r = Ret () \<and> F (lab (store (world t)))) t"
    and st: "store (world s) = S" and n: "S (ap_Namespace pool, n) = Some v"
    and mt: "matches (free_selector pool cv) (map_get (pvc_Labels v))"
  shows "wp (assign_claim c m pool pod v assigned)
     (\<lambda>r t. ends (took (lab S) pool pod cv) F r (lab (store (world t)))) s"
proof -
  from store_key n st have key: "pvc_key v = (ap_Namespace pool, n)" by blast
  from mt obtain f where f: "pvc_Labels v = Some f"
    by (auto simp: matches_free_selector dest: map_get_not_nil)
  show ?thesis
    unfolding assign_claim_def f map_set_simps go_bind_ret wp_bind
  proof (rule wp_patch)
    fix v' and t :: "'w sys"
    assume "pvc_key v' = pvc_key v" "store (world t) = (store (world s))(pvc_key v \<mapsto> v')"
      "map_get (pvc_Labels v') = map_get (pvc_Labels (v\<lparr>pvc_Labels :=
         Some (f(labelPoolState \<mapsto> pvcStateAssigned, labelAssignedPod \<mapsto> pod))\<rparr>))"
    then have "took (lab S) pool pod cv (pvc_Name v') (lab (store (world t)))"
      using n mt st key f by (auto simp: took_def lab_upd set_assigned_def lab_def [of S])
    then show "case Ret (Ok v') of
        Ret x \<Rightarrow> wp (case x of Err e \<Rightarrow> go_bind (rollbackAssignedPVCs c m (ap_Namespace pool) assigned)
            (\<lambda>_. go_ret (Err (Wrapf (''assign PVC '' @ pvc_Name v @ '' to pod '' @ pod) e)))
          | Ok pvc' \<Rightarrow> go_ret (Ok (pvc_Name pvc')))
          (\<lambda>r t. ends (took (lab S) pool pod cv) F r (lab (store (world t)))) t
      | Panic p \<Rightarrow> ends (took (lab S) pool pod cv) F (Panic p) (lab (store (world t)))"
      by (simp add: wp_ret)
  qed (use n st key f in \<open>auto simp: lab_def intro!: wp_fail roll\<close>)
qed

lemma wp_assign_template:
  assumes roll: "\<And>t. store (world t) = store (world s) \<Longrightarrow>
      wp (rollbackAssignedPVCs c m (ap_Namespace pool) assigned)
        (\<lambda>r t. r = Ret () \<and> F (lab (store (world t)))) t"
  shows "wp (assign_template c m pool pod cv assigned)
     (\<lambda>r t. ends (took (lab (store (world s))) pool pod cv) F r (lab (store (world t)))) s"
  unfolding assign_template_def wp_bind
proof (rule wp_list, unfold outcome.case)
  fix r w'
  let ?t = "s\<lparr>world := w', trace := trace s @ [ListPVCs (ap_Namespace pool) (free_selector pool cv)]\<rparr>"
  let ?Q = "\<lambda>r t. ends (took (lab (store (world s))) pool pod cv) F r (lab (store (world t)))"
  assume lst: "c_ListPVCs c (ap_Namespace pool) (free_selector pool cv) (world s) = (r, w')"
    and st: "store w' = store (world s)"
  have claim: "wp (assign_claim c m pool pod v assigned) ?Q ?t" if r: "r = Ok (v # vs)" for v vs
  proof -
    from list_fresh [OF lst [unfolded r]] obtain n
      where "store (world s) (ap_Namespace pool, n) = Some v"
        and "matches (free_selector pool cv) (map_get (pvc_Labels v))" by auto
    with roll st show ?thesis by (intro wp_assign_claim) auto
  qed
  show "wp (case r of
      Err e \<Rightarrow> go_bind (rollbackAssignedPVCs c m (ap_Namespace pool) assigned)
        (\<lambda>_. go_ret (Err (Wrapf (''list free PVCs for cache '' @ quoted (cv_Name cv)) e)))
    | Ok items \<Rightarrow> (case items of
        [] \<Rightarrow> go_bind (rollbackAssignedPVCs c m (ap_Namespace pool) assigned)
          (\<lambda>_. go_ret (Err (Errorf (''no free PVC for cache '' @ quoted (cv_Name cv)
                 @ '': pool at capacity''))))
      | v # _ \<Rightarrow> assign_claim c m pool pod v assigned)) ?Q ?t"
    using roll st by (auto split: sum.split list.split intro!: wp_fail claim)
qed

lemma wp_assign_loop:
  assumes roll: "\<And>assigned s. holds L0 pool pod assigned (lab (store (world s))) \<Longrightarrow>
      wp (rollbackAssignedPVCs c m (ap_Namespace pool) assigned)
         (\<lambda>r t. r = Ret () \<and> F (lab (store (world t)))) s"
    and "holds L0 pool pod assigned (lab (store (world s)))"
    and "distinct (map fst assigned @ map cv_Name cvs)"
  shows "wp (assign_loop c m pool pod cvs assigned)
     (\<lambda>r t. ends (\<lambda>asg L. holds L0 pool pod asg L
                        \<and> map fst asg = map fst assigned @ map cv_Name cvs) F r
              (lab (store (world t)))) s"
  using assms(2,3)
proof (induction cvs arbitrary: assigned s)
  case Nil
  then show ?case by (simp add: wp_simps)
next
  case (Cons cv cvs)
  let ?Q = "\<lambda>r t. ends (\<lambda>asg L. holds L0 pool pod asg L
      \<and> map fst asg = map fst assigned @ map cv_Name (cv # cvs)) F r (lab (store (world t)))"
  have "wp (assign_template c m pool pod cv assigned)
      (\<lambda>r t. ends (took (lab (store (world s))) pool pod cv) F r (lab (store (world t)))) s"
    using roll Cons.prems(1) by (intro wp_assign_template) simp
  then show ?case
    unfolding assign_loop.simps
  proof (rule wp_bindI)
    fix x and t :: "'w sys"
    assume x: "ends (took (lab (store (world s))) pool pod cv) F (Ret x) (lab (store (world t)))"
    show "wp (case x of Err e \<Rightarrow> go_ret (Err e) | Ok n \<Rightarrow>
        assign_loop c m pool pod cvs (AList.update (cv_Name cv) n assigned)) ?Q t"
    proof (cases x)
      case (Inr n)
      let ?asg = "AList.update (cv_Name cv) n assigned"
      have asg: "?asg = assigned @ [(cv_Name cv, n)]"
        using Cons.prems(2) by (intro update_fresh) auto
      have "holds L0 pool pod ?asg (lab (store (world t)))"
        using x Inr Cons.prems by (auto simp: took_def matches_free_selector intro!: holds_step)
      from Cons.IH [OF this] Cons.prems(2) Inr show ?thesis
        by (auto simp: asg elim!: wp_mono)
    qed (use x in \<open>simp add: wp_ret\<close>)
  qed simp
qed

lemma findAndAssign_any:
  assumes wf: "claims_wf (lab (store (world s)))"
    and "distinct (map cv_Name (sp_CacheVolumes (ap_Spec pool)))"
  shows "wp (findAndAssignPVCs c m pool pod)
     (\<lambda>r t. ends (\<lambda>asg L. holds (lab (store (world s))) pool pod asg L
                        \<and> map fst asg = map cv_Name (sp_CacheVolumes (ap_Spec pool)))
              (recoverable (lab (store (world s))) pool pod) r (lab (store (world t)))) s"
proof -
  let ?L0 = "lab (store (world s))"
  have roll: "wp (rollbackAssignedPVCs c m (ap_Namespace pool) asg)
      (\<lambda>r t. r = Ret () \<and> recoverable ?L0 pool pod (lab (store (world t)))) t"
    if h: "holds ?L0 pool pod asg (lab (store (world t)))" for asg and t :: "'w sys"
  proof -
    note free = holds_were_free [OF h wf]
    from wp_rollback [OF holds_restorable [OF h] free subset_refl] show ?thesis
      by (rule wp_mono) (use free in \<open>auto simp: recoverable_def\<close>)
  qed
  show ?thesis
  proof (cases "sp_CacheVolumes (ap_Spec pool) = []")
    case True
    then show ?thesis by (simp add: findAndAssignPVCs_def wp_ret)
  next
    case False
    note loop = wp_assign_loop [where ?L0.0 = ?L0 and F = "recoverable ?L0 pool pod"
        and assigned = "[]" and s = s, OF roll]
    from False assms(2) show ?thesis
      using loop [where cvs = "sp_CacheVolumes (ap_Spec pool)"] by (simp add: findAndAssignPVCs_def)
  qed
qed

end

section \<open>Release\<close>

text \<open>
  The claims of a pod; the labels after the claims in \<open>K\<close> have been released; and the outcome of
  releasing the claims \<open>ks\<close> one by one, where some may fail.
\<close>

definition claims_of :: "label_view \<Rightarrow> AgentPool \<Rightarrow> string \<Rightarrow> key set" where
  "claims_of L pool pod = {(ns, n) | ns n ls. ns = ap_Namespace pool \<and> L (ns, n) = Some ls
     \<and> ls labelPoolName = Some (ap_Name pool) \<and> ls labelAssignedPod = Some pod}"

definition freed :: "key set \<Rightarrow> label_view \<Rightarrow> label_view" where
  "freed K L = (\<lambda>k. if k \<in> K then map_option set_free (L k) else L k)"

definition releases :: "label_view \<Rightarrow> key set \<Rightarrow> go_error option \<Rightarrow> go_error option outcome \<Rightarrow> label_view
    \<Rightarrow> bool" where
  "releases L ks fe r L' \<longleftrightarrow> (\<exists>K fe'. r = Ret fe' \<and> K \<subseteq> ks \<and> L' = freed K L
     \<and> (fe' = None \<longrightarrow> fe = None \<and> K = ks))"

lemma freed_empty [simp]: "freed {} L = L"
  by (simp add: freed_def)

lemma releases_err: "releases L ks (Some e) r L' \<Longrightarrow> releases L (insert k ks) fe r L'"
  unfolding releases_def by (metis option.discI subset_insertI2)

lemma releases_ok:
  assumes "releases (L(k \<mapsto> set_free ls)) ks fe r L'" and "L k = Some ls" and "k \<notin> ks"
  shows "releases L (insert k ks) fe r L'"
proof -
  from assms(1) obtain K fe' where K: "r = Ret fe'" "K \<subseteq> ks" "L' = freed K (L(k \<mapsto> set_free ls))"
    "fe' = None \<longrightarrow> fe = None \<and> K = ks"
    unfolding releases_def by blast
  moreover have "freed K (L(k \<mapsto> set_free ls)) = freed (insert k K) L"
    using K(2) assms(2,3) by (auto simp: freed_def fun_eq_iff)
  ultimately show ?thesis unfolding releases_def by (intro exI [of _ "insert k K"]) auto
qed

lemma in_claims_of:
  "(ns, n) \<in> claims_of L pool pod \<longleftrightarrow> ns = ap_Namespace pool \<and> (\<exists>ls. L (ns, n) = Some ls
     \<and> ls labelPoolName = Some (ap_Name pool) \<and> ls labelAssignedPod = Some pod)"
  by (auto simp: claims_of_def)

lemma claims_of_freed: "claims_of (freed (claims_of L pool pod) L) pool pod = {}"
proof -
  have "k \<notin> claims_of (freed (claims_of L pool pod) L) pool pod" for k
  proof (cases k)
    case (Pair ns n)
    show ?thesis
    proof (cases "(ns, n) \<in> claims_of L pool pod")
      case True
      then have "freed (claims_of L pool pod) L (ns, n) = map_option set_free (L (ns, n))"
        by (simp add: freed_def)
      with Pair show ?thesis by (auto simp: in_claims_of set_free_def)
    next
      case False
      then have "freed (claims_of L pool pod) L (ns, n) = L (ns, n)" by (simp add: freed_def)
      with Pair False show ?thesis by (simp add: in_claims_of)
    qed
  qed
  then show ?thesis by blast
qed

context pvc_api
begin

lemma wp_release_loop:
  assumes "\<And>v. v \<in> set vs \<Longrightarrow> lab (store (world s)) (pvc_key v) = Some (map_get (pvc_Labels v))
              \<and> map_get (pvc_Labels v) labelAssignedPod \<noteq> None"
    and "distinct (map pvc_key vs)"
  shows "wp (release_loop c vs fe)
     (\<lambda>r t. releases (lab (store (world s))) (pvc_key ` set vs) fe r (lab (store (world t)))) s"
  using assms
proof (induction vs arbitrary: s fe)
  case Nil
  then show ?case by (simp add: wp_simps releases_def)
next
  case (Cons v vs)
  let ?L = "lab (store (world s))"
  have v: "?L (pvc_key v) = Some (map_get (pvc_Labels v))"
    "map_get (pvc_Labels v) labelAssignedPod \<noteq> None"
    using Cons.prems(1) by auto
  have rest: "wp (release_loop c vs fe2)
      (\<lambda>r t. releases (lab (store (world u))) (pvc_key ` set vs) fe2 r (lab (store (world t)))) u"
    if "\<And>k. k \<noteq> pvc_key v \<Longrightarrow> lab (store (world u)) k = ?L k" for fe2 and u :: "'w sys"
    using Cons.prems that by (intro Cons.IH) (auto simp: image_iff)
  let ?Q = "\<lambda>r t. releases ?L (insert (pvc_key v) (pvc_key ` set vs)) fe r (lab (store (world t)))"
  have failed: "wp (release_loop c vs (if fe = None then Some e else fe)) ?Q u"
    if "store (world u) = store (world s)" for e and u :: "'w sys"
    by (rule wp_mono [OF rest]) (use that in \<open>auto intro: releases_err split: if_splits\<close>)
  have released: "wp (release_loop c vs fe) ?Q u"
    if "lab (store (world u)) = ?L(pvc_key v \<mapsto> set_free (map_get (pvc_Labels v)))"
    for u :: "'w sys"
    by (rule wp_mono [OF rest]) (use that v(1) Cons.prems(2) in \<open>auto intro: releases_ok\<close>)
  show ?case
    unfolding release_loop.simps wp_bind
    by (rule wp_release [OF v]) (simp_all only: outcome.case sum.case set_simps image_insert failed released)
qed

lemma releasePVCsForPod_spec:
  "wp (releasePVCsForPod c pool pod)
     (\<lambda>r t. ends (\<lambda>_ L. L = freed (claims_of (lab (store (world s))) pool pod) (lab (store (world s))))
              (\<lambda>L. \<exists>K \<subseteq> claims_of (lab (store (world s))) pool pod. L = freed K (lab (store (world s))))
              r (lab (store (world t)))) s"
  unfolding releasePVCsForPod_def wp_bind
proof (rule wp_list, unfold outcome.case)
  fix r w'
  let ?ns = "ap_Namespace pool" and ?L = "lab (store (world s))"
  let ?sel = "[(labelPoolName, ap_Name pool), (labelAssignedPod, pod)]"
  let ?t = "s\<lparr>world := w', trace := trace s @ [ListPVCs ?ns ?sel]\<rparr>"
  let ?Q = "\<lambda>r t. ends (\<lambda>_ L. L = freed (claims_of ?L pool pod) ?L)
              (\<lambda>L. \<exists>K \<subseteq> claims_of ?L pool pod. L = freed K ?L) r (lab (store (world t)))"
  assume lst: "c_ListPVCs c ?ns ?sel (world s) = (r, w')" and st: "store w' = store (world s)"
  show "wp (case r of Err e \<Rightarrow> go_ret (Err (Wrapf (''list PVCs for pod '' @ pod) e))
      | Ok items \<Rightarrow> go_bind (release_loop c items None) (\<lambda>firstErr.
          go_ret (case firstErr of None \<Rightarrow> Ok () | Some e \<Rightarrow> Err e))) ?Q ?t"
  proof (cases r)
    case (Inl e)
    then show ?thesis using st by (auto simp: wp_ret intro!: exI [of _ "{}"])
  next
    case (Inr vs)
    note fresh = list_fresh [OF lst [unfolded Inr]]
    have item: "v \<in> set vs \<longleftrightarrow> (\<exists>n. store (world s) (?ns, n) = Some v
        \<and> matches ?sel (map_get (pvc_Labels v)))" for v
      using fresh by blast
    have stored: "\<exists>n. pvc_key v = (?ns, n) \<and> store (world s) (?ns, n) = Some v
        \<and> map_get (pvc_Labels v) labelPoolName = Some (ap_Name pool)
        \<and> map_get (pvc_Labels v) labelAssignedPod = Some pod" if "v \<in> set vs" for v
      using that store_key unfolding item matches_def by auto
    have keys: "pvc_key ` set vs = claims_of ?L pool pod"
    proof (rule set_eqI, rule iffI)
      fix k assume "k \<in> pvc_key ` set vs"
      then obtain v where "v \<in> set vs" "k = pvc_key v" by blast
      with stored [OF this(1)] show "k \<in> claims_of ?L pool pod"
        by (auto simp: in_claims_of lab_def)
    next
      fix k assume k: "k \<in> claims_of ?L pool pod"
      obtain ns n where "k = (ns, n)" by fastforce
      with k obtain v where v: "store (world s) (?ns, n) = Some v" "k = (?ns, n)"
        "map_get (pvc_Labels v) labelPoolName = Some (ap_Name pool)"
        "map_get (pvc_Labels v) labelAssignedPod = Some pod"
        by (auto simp: in_claims_of lab_def)
      then have "v \<in> set vs" by (auto simp: item matches_def)
      with store_key [OF v(1)] v(2) show "k \<in> pvc_key ` set vs" by (intro image_eqI) auto
    qed
    have "wp (release_loop c vs None)
        (\<lambda>r t. releases (lab (store (world ?t))) (pvc_key ` set vs) None r (lab (store (world t)))) ?t"
    proof (rule wp_release_loop)
      show "lab (store (world ?t)) (pvc_key v) = Some (map_get (pvc_Labels v))
              \<and> map_get (pvc_Labels v) labelAssignedPod \<noteq> None" if "v \<in> set vs" for v
        using stored [OF that] st by (auto simp: lab_def)
      show "distinct (map pvc_key vs)"
        using fresh by (simp add: distinct_map inj_on_def)
    qed
    then have "wp (release_loop c vs None)
        (\<lambda>r t. releases ?L (claims_of ?L pool pod) None r (lab (store (world t)))) ?t"
      by (simp add: keys st)
    then show ?thesis
      unfolding Inr sum.case
    proof (rule wp_bindI)
      fix fe and t :: "'w sys"
      assume "releases ?L (claims_of ?L pool pod) None (Ret fe) (lab (store (world t)))"
      then show "wp (go_ret (case fe of None \<Rightarrow> Ok () | Some e \<Rightarrow> Err e)) ?Q t"
        unfolding releases_def by (cases fe) (auto simp: wp_ret)
    qed (simp add: releases_def)
  qed
qed

end

section \<open>Assignment with reliable calls\<close>

definition available :: "label_view \<Rightarrow> AgentPool \<Rightarrow> string \<Rightarrow> bool" where
  "available L pool cache \<longleftrightarrow> (\<exists>n. was_free_for L pool cache n)"

text \<open>Claims taken for other templates leave the free claims of this one.\<close>

lemma available_step:
  assumes "available L pool cache" and "took L pool pod cv n L'" and "cv_Name cv \<noteq> cache"
  shows "available L' pool cache"
proof -
  from assms(1) obtain a where a: "was_free_for L pool cache a" unfolding available_def ..
  with assms(2,3) have "a \<noteq> n" and "L' (ap_Namespace pool, a) = L (ap_Namespace pool, a)"
    unfolding was_free_for_def took_def matches_free_selector by auto
  with a have "was_free_for L' pool cache a" unfolding was_free_for_def by simp
  then show ?thesis unfolding available_def ..
qed

context pvc_reliable
begin

lemma findAndAssign_restores:
  assumes wf: "claims_wf (lab (store (world s)))"
    and "distinct (map cv_Name (sp_CacheVolumes (ap_Spec pool)))"
  shows "wp (findAndAssignPVCs c m pool pod)
     (\<lambda>r t. ends (\<lambda>asg L. holds (lab (store (world s))) pool pod asg L
                        \<and> map fst asg = map cv_Name (sp_CacheVolumes (ap_Spec pool)))
              (\<lambda>L. L = lab (store (world s))) r (lab (store (world t)))) s"
proof (cases "sp_CacheVolumes (ap_Spec pool) = []")
  case True
  then show ?thesis by (simp add: findAndAssignPVCs_def wp_ret)
next
  case False
  let ?L0 = "lab (store (world s))"
  have roll: "wp (rollbackAssignedPVCs c m (ap_Namespace pool) asg)
      (\<lambda>r t. r = Ret () \<and> lab (store (world t)) = ?L0) t"
    if h: "holds ?L0 pool pod asg (lab (store (world t)))" for asg and t :: "'w sys"
    by (rule wp_rollback_restores [OF holds_restorable [OF h] holds_were_free [OF h wf]])
  note loop = wp_assign_loop [where ?L0.0 = ?L0 and F = "\<lambda>L. L = ?L0"
      and assigned = "[]" and s = s, OF roll]
  from False assms(2) show ?thesis
    using loop [where cvs = "sp_CacheVolumes (ap_Spec pool)"] by (simp add: findAndAssignPVCs_def)
qed

text \<open>A template with a free claim is served.\<close>

lemma wp_assign_claim_ok:
  assumes v: "store (world s) (ap_Namespace pool, n) = Some v"
    and mt: "matches (free_selector pool cv) (map_get (pvc_Labels v))"
  shows "wp (assign_claim c m pool pod v assigned)
     (\<lambda>r t. \<exists>n. r = Ret (Ok n) \<and> took (lab (store (world s))) pool pod cv n (lab (store (world t)))) s"
proof -
  from store_key [OF v] have key: "pvc_key v = (ap_Namespace pool, n)" .
  from mt obtain f where f: "pvc_Labels v = Some f"
    by (auto simp: matches_free_selector dest: map_get_not_nil)
  let ?v2 = "v\<lparr>pvc_Labels := Some (f(labelPoolState \<mapsto> pvcStateAssigned, labelAssignedPod \<mapsto> pod))\<rparr>"
  have no_err: False if "c_PatchPVC c v ?v2 (world s) = (Err e, w')" for e w'
    using patch_succeeds [of "world s" ?v2 v v] v key that by simp
  show ?thesis
    unfolding assign_claim_def f map_set_simps go_bind_ret wp_bind
    by (rule wp_patch)
       (use v mt key f no_err in \<open>auto simp: wp_ret took_def lab_upd set_assigned_def lab_def\<close>)
qed

lemma wp_assign_template_ok:
  assumes av: "available (lab (store (world s))) pool (cv_Name cv)"
  shows "wp (assign_template c m pool pod cv assigned)
     (\<lambda>r t. \<exists>n. r = Ret (Ok n) \<and> took (lab (store (world s))) pool pod cv n (lab (store (world t)))) s"
  unfolding assign_template_def wp_bind
proof (rule wp_list, unfold outcome.case)
  fix r w'
  assume lst: "c_ListPVCs c (ap_Namespace pool) (free_selector pool cv) (world s) = (r, w')"
    and st: "store w' = store (world s)"
  obtain vs where r: "r = Ok vs"
    using list_succeeds [of "ap_Namespace pool" "free_selector pool cv" "world s"] lst by auto
  note fresh = list_fresh [OF lst [unfolded r]]
  from av obtain u where "u \<in> set vs"
    unfolding available_def was_free_for_def
    by (auto simp: fresh [THEN conjunct2] lab_def matches_free_selector)
  then obtain v vs' where vs: "vs = v # vs'" by (cases vs) auto
  with fresh obtain n where n: "store (world s) (ap_Namespace pool, n) = Some v"
    and mt: "matches (free_selector pool cv) (map_get (pvc_Labels v))" by auto
  let ?t = "s\<lparr>world := w', trace := trace s @ [ListPVCs (ap_Namespace pool) (free_selector pool cv)]\<rparr>"
  from wp_assign_claim_ok [of ?t pool n v cv pod assigned] n mt st r vs
  show "wp (case r of
      Err e \<Rightarrow> go_bind (rollbackAssignedPVCs c m (ap_Namespace pool) assigned)
        (\<lambda>_. go_ret (Err (Wrapf (''list free PVCs for cache '' @ quoted (cv_Name cv)) e)))
    | Ok items \<Rightarrow> (case items of
        [] \<Rightarrow> go_bind (rollbackAssignedPVCs c m (ap_Namespace pool) assigned)
          (\<lambda>_. go_ret (Err (Errorf (''no free PVC for cache '' @ quoted (cv_Name cv)
                 @ '': pool at capacity''))))
      | v # _ \<Rightarrow> assign_claim c m pool pod v assigned))
    (\<lambda>r t. \<exists>n. r = Ret (Ok n) \<and> took (lab (store (world s))) pool pod cv n (lab (store (world t)))) ?t"
    by simp
qed

lemma wp_assign_loop_ok:
  assumes "\<And>cv. cv \<in> set cvs \<Longrightarrow> available (lab (store (world s))) pool (cv_Name cv)"
    and "distinct (map cv_Name cvs)"
  shows "wp (assign_loop c m pool pod cvs assigned) (\<lambda>r t. \<exists>asg. r = Ret (Ok asg)) s"
  using assms
proof (induction cvs arbitrary: assigned s)
  case Nil
  then show ?case by (simp add: wp_ret)
next
  case (Cons cv cvs)
  have "wp (assign_template c m pool pod cv assigned)
     (\<lambda>r t. \<exists>n. r = Ret (Ok n) \<and> took (lab (store (world s))) pool pod cv n (lab (store (world t)))) s"
    using Cons.prems by (intro wp_assign_template_ok) simp
  then show ?case
    unfolding assign_loop.simps
  proof (rule wp_bindI)
    fix x and t :: "'w sys"
    assume "\<exists>n. Ret x = Ret (Ok n) \<and> took (lab (store (world s))) pool pod cv n (lab (store (world t)))"
    then obtain n where x: "x = Ok n"
      and tk: "took (lab (store (world s))) pool pod cv n (lab (store (world t)))" by auto
    have "available (lab (store (world t))) pool (cv_Name cv2)" if "cv2 \<in> set cvs" for cv2
      using that Cons.prems by (intro available_step [OF _ tk]) auto
    then show "wp (case x of Err e \<Rightarrow> go_ret (Err e) | Ok n \<Rightarrow>
        assign_loop c m pool pod cvs (AList.update (cv_Name cv) n assigned))
      (\<lambda>r t. \<exists>asg. r = Ret (Ok asg)) t"
      using Cons x by simp
  qed simp
qed

lemma findAndAssign_succeeds:
  assumes "\<And>cv. cv \<in> set (sp_CacheVolumes (ap_Spec pool)) \<Longrightarrow>
      available (lab (store (world s))) pool (cv_Name cv)"
    and "distinct (map cv_Name (sp_CacheVolumes (ap_Spec pool)))"
  shows "wp (findAndAssignPVCs c m pool pod) (\<lambda>r t. \<exists>asg. r = Ret (Ok asg)) s"
  using wp_assign_loop_ok [OF assms] by (simp add: findAndAssignPVCs_def wp_ret)

end

section \<open>Provisioning\<close>

definition slot_key :: "AgentPool \<Rightarrow> CacheVolumeTemplate \<Rightarrow> nat \<Rightarrow> key" where
  "slot_key pool cv slot = (ap_Namespace pool, pvcSlotName (ap_Name pool) (cv_Name cv) slot)"

definition fresh_labels :: "AgentPool \<Rightarrow> CacheVolumeTemplate \<Rightarrow> nat \<Rightarrow> (string \<rightharpoonup> string)" where
  "fresh_labels pool cv slot = map_get (pvc_Labels (buildPVC pool cv [] slot))"

text \<open>Claims are only added, under slot names, free.\<close>

definition provisioned :: "AgentPool \<Rightarrow> CacheVolumeTemplate set \<Rightarrow> nat set \<Rightarrow> label_view \<Rightarrow> label_view \<Rightarrow> bool"
  where "provisioned pool C I L L' \<longleftrightarrow> (\<forall>k. L' k = L k \<or> (L k = None
     \<and> (\<exists>cv \<in> C. \<exists>i \<in> I. k = slot_key pool cv i \<and> L' k = Some (fresh_labels pool cv i))))"

lemma provisioned_refl [simp]: "provisioned pool C I L L"
  by (simp add: provisioned_def)

lemma provisioned_trans:
  assumes "provisioned pool C I L1 L2" and "provisioned pool C I L2 L3"
  shows "provisioned pool C I L1 L3"
  using assms unfolding provisioned_def by metis

lemma provisioned_mono:
  "provisioned pool C I L L' \<Longrightarrow> C \<subseteq> C' \<Longrightarrow> I \<subseteq> I' \<Longrightarrow> provisioned pool C' I' L L'"
  unfolding provisioned_def by blast

lemma provisioned_keeps: "provisioned pool C I L L' \<Longrightarrow> L k = Some ls \<Longrightarrow> L' k = Some ls"
  unfolding provisioned_def by (metis option.distinct(1))

lemma provisioned_dom: "provisioned pool C I L L' \<Longrightarrow> K \<subseteq> dom L \<Longrightarrow> K \<subseteq> dom L'"
  using provisioned_keeps by fastforce

lemma fresh_labels_get [simp]:
  "fresh_labels pool cv i labelPoolState = Some pvcStateFree"
  "fresh_labels pool cv i labelPoolName = Some (ap_Name pool)"
  "fresh_labels pool cv i labelCacheName = Some (cv_Name cv)"
  "fresh_labels pool cv i labelAssignedPod = None"
  by (simp_all add: fresh_labels_def buildPVC_def)

lemma provisioned_wf:
  assumes "provisioned pool C I L L'" and "claims_wf L"
  shows "claims_wf L'"
  unfolding claims_wf_def
proof (intro allI impI)
  fix k ls
  assume "L' k = Some ls"
  with assms have "L k = Some ls \<or> (\<exists>cv i. ls = fresh_labels pool cv i)"
    unfolding provisioned_def by (metis option.inject)
  moreover have "claim_wf (fresh_labels pool cv i)" for cv i by (simp add: claim_wf_def)
  ultimately show "claim_wf ls" using assms(2) unfolding claims_wf_def by blast
qed

lemma provisioned_add:
  "L (slot_key pool cv i) = None \<Longrightarrow>
     provisioned pool {cv} {i} L (L(slot_key pool cv i \<mapsto> fresh_labels pool cv i))"
  by (simp add: provisioned_def)

context pvc_api
begin

lemma wp_ensure_slot:
  "wp (ensure_slot c m pool cv i)
     (\<lambda>r t. ends (\<lambda>_ L. provisioned pool {cv} {i} (lab (store (world s))) L \<and> {slot_key pool cv i} \<subseteq> dom L)
              (provisioned pool {cv} {i} (lab (store (world s)))) r (lab (store (world t)))) s"
  unfolding ensure_slot_def Let_def wp_bind
proof (rule wp_get, unfold outcome.case)
  fix r w'
  let ?n = "pvcSlotName (ap_Name pool) (cv_Name cv) i" and ?L = "lab (store (world s))"
  let ?nn = "\<lparr>nn_Namespace = ap_Namespace pool, nn_Name = ?n\<rparr>"
  let ?t = "s\<lparr>world := w', trace := trace s @ [GetPVC ?nn]\<rparr>"
  let ?Q = "\<lambda>r t. ends (\<lambda>_ L. provisioned pool {cv} {i} ?L L \<and> {slot_key pool cv i} \<subseteq> dom L)
              (provisioned pool {cv} {i} ?L) r (lab (store (world t)))"
  assume get: "c_GetPVC c ?nn (world s) = (r, w')" and st: "store w' = store (world s)"
  let ?create = "\<lambda>v. go_bind (r_CreatePVC c v) (\<lambda>r. case r of Ok _ \<Rightarrow> go_ret (Ok ())
            | Err e \<Rightarrow> if \<not> m_IsAlreadyExists m e then go_ret (Err (Wrapf (''create PVC '' @ ?n) e))
                else go_ret (Ok ()))"
  have create: "wp (?create v) ?Q ?t"
    if own: "m_SetPVCOwner m pool (buildPVC pool cv ?n i) = Ok v" for v
  proof -
    from owner_keeps [OF own] have v: "pvc_key v = slot_key pool cv i"
      "map_get (pvc_Labels v) = fresh_labels pool cv i"
      by (simp_all add: slot_key_def fresh_labels_def buildPVC_def)
    have "?Q (Ret (Ok ())) (?t\<lparr>world := w2, trace := os\<rparr>)"
      if "c_CreatePVC c v w' = (Ok u, w2)" for u w2 os
    proof -
      from create_ok [OF that] v st have "?L (slot_key pool cv i) = None"
        "lab (store w2) = ?L(slot_key pool cv i \<mapsto> fresh_labels pool cv i)"
        by (auto simp: lab_upd) (simp add: lab_def)
      with provisioned_add show ?thesis by simp
    qed
    moreover have "store w2 = store (world s) \<and> (m_IsAlreadyExists m e \<longrightarrow> {slot_key pool cv i} \<subseteq> dom ?L)"
      if "c_CreatePVC c v w' = (Err e, w2)" for e w2
      using create_err [OF that] create_exists [OF that] v st by (auto simp: lab_def)
    ultimately show ?thesis
      by (auto simp: call_defs wp_bind wp_call wp_ret split: prod.split sum.split)
  qed
  have "slot_key pool cv i \<in> dom ?L" if "r = Ok v" for v
    using get_lab(2) [OF get [unfolded that]] by (simp add: slot_key_def domIff)
  then show "wp (case r of Ok _ \<Rightarrow> go_ret (Ok ())
      | Err e \<Rightarrow> if \<not> m_IsNotFound m e then go_ret (Err (Wrapf (''check PVC '' @ ?n) e))
          else (case m_SetPVCOwner m pool (buildPVC pool cv ?n i) of
              Err e \<Rightarrow> go_ret (Err (Wrapf ''set PVC controller reference'' e))
            | Ok newPVC \<Rightarrow> ?create newPVC)) ?Q ?t"
    using st create by (cases r; cases "m_SetPVCOwner m pool (buildPVC pool cv ?n i)")
      (simp_all add: wp_ret)
qed

text \<open>Sequencing two provisioning steps.\<close>

lemma wp_provision_seq:
  fixes p q :: "('w sys, unit result) go"
  assumes first: "wp p (\<lambda>r t. ends (\<lambda>_ L. provisioned pool C I L0 L \<and> K1 \<subseteq> dom L)
                 (provisioned pool C I L0) r (lab (store (world t)))) s"
    and rest: "\<And>t. wp q (\<lambda>r u. ends (\<lambda>_ L. provisioned pool C I (lab (store (world t))) L
                        \<and> K2 \<subseteq> dom L)
                 (provisioned pool C I (lab (store (world t)))) r (lab (store (world u)))) t"
  shows "wp (go_bind p (\<lambda>r. case r of Err e \<Rightarrow> go_ret (Err e) | Ok _ \<Rightarrow> q))
           (\<lambda>r t. ends (\<lambda>_ L. provisioned pool C I L0 L \<and> K1 \<union> K2 \<subseteq> dom L)
                 (provisioned pool C I L0) r (lab (store (world t)))) s"
proof (rule wp_bindI [OF first])
  fix x and t :: "'w sys"
  let ?Q = "\<lambda>r t. ends (\<lambda>_ L. provisioned pool C I L0 L \<and> K1 \<union> K2 \<subseteq> dom L)
                 (provisioned pool C I L0) r (lab (store (world t)))"
  assume x: "ends (\<lambda>_ L. provisioned pool C I L0 L \<and> K1 \<subseteq> dom L)
                 (provisioned pool C I L0) (Ret x) (lab (store (world t)))"
  show "wp (case x of Err e \<Rightarrow> go_ret (Err e) | Ok _ \<Rightarrow> q) ?Q t"
  proof (cases x)
    case (Inr u)
    with x have "provisioned pool C I L0 (lab (store (world t)))"
      "K1 \<subseteq> dom (lab (store (world t)))" by simp_all
    note here = this
    have "?Q r u" if "ends (\<lambda>_ L. provisioned pool C I (lab (store (world t))) L
                        \<and> K2 \<subseteq> dom L)
                 (provisioned pool C I (lab (store (world t)))) r (lab (store (world u)))" for r u
      by (rule ends_mono [OF that]) (use here in \<open>auto intro: provisioned_trans dest: provisioned_dom\<close>)
    then have "wp q ?Q t" by (rule wp_mono [OF rest])
    with Inr show ?thesis by simp
  qed (use x in \<open>simp add: wp_ret\<close>)
qed simp

lemma wp_ensure_slots:
  "wp (ensure_slots c m pool cv is)
     (\<lambda>r t. ends (\<lambda>_ L. provisioned pool {cv} (set is) (lab (store (world s))) L
                        \<and> slot_key pool cv ` set is \<subseteq> dom L)
              (provisioned pool {cv} (set is) (lab (store (world s)))) r (lab (store (world t)))) s"
proof (induction "is" arbitrary: s)
  case Nil
  then show ?case by (simp add: wp_ret)
next
  case (Cons i "is")
  have first: "wp (ensure_slot c m pool cv i)
      (\<lambda>r t. ends (\<lambda>_ L. provisioned pool {cv} (set (i # is)) (lab (store (world s))) L
                        \<and> {slot_key pool cv i} \<subseteq> dom L)
              (provisioned pool {cv} (set (i # is)) (lab (store (world s)))) r (lab (store (world t)))) s"
    by (rule wp_mono [OF wp_ensure_slot], erule ends_mono) (auto elim: provisioned_mono)
  have rest: "wp (ensure_slots c m pool cv is)
      (\<lambda>r u. ends (\<lambda>_ L. provisioned pool {cv} (set (i # is)) (lab (store (world t))) L
                        \<and> slot_key pool cv ` set is \<subseteq> dom L)
              (provisioned pool {cv} (set (i # is)) (lab (store (world t)))) r (lab (store (world u)))) t"
    for t by (rule wp_mono [OF Cons.IH], erule ends_mono) (auto elim: provisioned_mono)
  from wp_provision_seq [OF first rest] show ?case by simp
qed

lemma wp_ensure_templates:
  "wp (ensure_templates c m pool cvs)
     (\<lambda>r t. ends (\<lambda>_ L. provisioned pool (set cvs) (set (slot_numbers pool)) (lab (store (world s))) L
                        \<and> (\<Union>cv \<in> set cvs. slot_key pool cv ` set (slot_numbers pool)) \<subseteq> dom L)
              (provisioned pool (set cvs) (set (slot_numbers pool)) (lab (store (world s)))) r
              (lab (store (world t)))) s"
proof (induction cvs arbitrary: s)
  case Nil
  then show ?case by (simp add: wp_ret)
next
  case (Cons cv cvs)
  let ?I = "set (slot_numbers pool)"
  have first: "wp (ensure_slots c m pool cv (slot_numbers pool))
      (\<lambda>r t. ends (\<lambda>_ L. provisioned pool (set (cv # cvs)) ?I (lab (store (world s))) L
                        \<and> slot_key pool cv ` ?I \<subseteq> dom L)
              (provisioned pool (set (cv # cvs)) ?I (lab (store (world s)))) r (lab (store (world t)))) s"
    by (rule wp_mono [OF wp_ensure_slots], erule ends_mono) (auto elim: provisioned_mono)
  have rest: "wp (ensure_templates c m pool cvs)
      (\<lambda>r u. ends (\<lambda>_ L. provisioned pool (set (cv # cvs)) ?I (lab (store (world t))) L
                        \<and> (\<Union>cv \<in> set cvs. slot_key pool cv ` ?I) \<subseteq> dom L)
              (provisioned pool (set (cv # cvs)) ?I (lab (store (world t)))) r (lab (store (world u)))) t"
    for t by (rule wp_mono [OF Cons.IH], erule ends_mono) (auto elim: provisioned_mono)
  from wp_provision_seq [OF first rest] show ?case by simp
qed

lemma ensurePVCPool_spec:
  "wp (ensurePVCPool c m pool)
     (\<lambda>r t. ends (\<lambda>_ L. provisioned pool (set (sp_CacheVolumes (ap_Spec pool))) (set (slot_numbers pool))
                            (lab (store (world s))) L
                        \<and> (\<Union>cv \<in> set (sp_CacheVolumes (ap_Spec pool)).
                              slot_key pool cv ` set (slot_numbers pool)) \<subseteq> dom L)
              (provisioned pool (set (sp_CacheVolumes (ap_Spec pool))) (set (slot_numbers pool))
                            (lab (store (world s)))) r (lab (store (world t)))) s"
  using wp_ensure_templates [of pool "sp_CacheVolumes (ap_Spec pool)" s]
  by (auto simp: ensurePVCPool_def wp_ret)

end

section \<open>Counting\<close>

definition free_names :: "label_view \<Rightarrow> AgentPool \<Rightarrow> string \<Rightarrow> string set" where
  "free_names L pool cache = {n. was_free_for L pool cache n}"

context pvc_api
begin

lemma list_free_length:
  assumes "c_ListPVCs c (ap_Namespace pool) (free_selector pool cv) w = (Ok vs, w')"
  shows "length vs = card (free_names (lab (store w)) pool (cv_Name cv))"
proof -
  note fresh = list_fresh [OF assms]
  have "n \<in> pvc_Name ` set vs \<longleftrightarrow> was_free_for (lab (store w)) pool (cv_Name cv) n" for n
  proof -
    have "n \<in> pvc_Name ` set vs \<longleftrightarrow> (\<exists>v. store w (ap_Namespace pool, n) = Some v
        \<and> matches (free_selector pool cv) (map_get (pvc_Labels v)))"
      using fresh store_key [of w "ap_Namespace pool"] by (auto simp: image_iff)
    then show ?thesis
      by (auto simp: was_free_for_def lab_def matches_free_selector)
  qed
  then have "pvc_Name ` set vs = free_names (lab (store w)) pool (cv_Name cv)"
    by (auto simp: free_names_def)
  with distinct_card [of "map pvc_Name vs"] fresh show ?thesis by simp
qed

lemma wp_count_loop:
  "wp (count_loop c pool cvs n)
     (\<lambda>r t. store (world t) = store (world s) \<and> (\<forall>k. r = Ret (Ok k) \<longrightarrow>
        k = Min (insert n ((\<lambda>cv. int (card (free_names (lab (store (world s))) pool (cv_Name cv)))) ` set cvs)))) s"
proof (induction cvs arbitrary: n s)
  case Nil
  then show ?case by (simp add: wp_ret)
next
  case (Cons cv cvs)
  let ?f = "\<lambda>cv. int (card (free_names (lab (store (world s))) pool (cv_Name cv)))"
  let ?Q = "\<lambda>r t. store (world t) = store (world s) \<and> (\<forall>k. r = Ret (Ok k) \<longrightarrow>
        k = Min (insert n (?f ` set (cv # cvs))))"
  have "wp (count_loop c pool cvs (if ?f cv < n then ?f cv else n)) ?Q t"
    if st: "store (world t) = store (world s)" for t :: "'w sys"
  proof (rule wp_mono [OF Cons.IH])
    have "Min (insert (if ?f cv < n then ?f cv else n) X) = Min (insert n (insert (?f cv) X))"
      if "finite X" for X :: "int set"
      using that by (cases "X = {}") (auto simp: min_def)
    then show "?Q r u" if "store (world u) = store (world t) \<and> (\<forall>k. r = Ret (Ok k) \<longrightarrow>
        k = Min (insert (if ?f cv < n then ?f cv else n)
          ((\<lambda>cv. int (card (free_names (lab (store (world t))) pool (cv_Name cv)))) ` set cvs)))" for r u
      using that st by simp
  qed
  then show ?case
    unfolding count_loop.simps wp_bind
    by (intro wp_list) (auto simp: wp_ret list_free_length split: sum.split)
qed

lemma countFreePVCSlots_spec:
  "wp (countFreePVCSlots c pool)
     (\<lambda>r t. store (world t) = store (world s) \<and> (\<forall>k. r = Ret (Ok k) \<longrightarrow>
        k = Min (insert (of_int32 (sp_MaxAgents (ap_Spec pool)))
              ((\<lambda>cv. int (card (free_names (lab (store (world s))) pool (cv_Name cv))))
                 ` set (sp_CacheVolumes (ap_Spec pool)))))) s"
  using wp_count_loop [of pool "sp_CacheVolumes (ap_Spec pool)"]
  by (auto simp: countFreePVCSlots_def wp_ret)

end

text \<open>Every assignment takes exactly one free claim from each template.\<close>

lemma holds_free_names:
  assumes h: "holds L0 pool pod asg L" and n: "(cache, n) \<in> set asg"
  shows "free_names L pool cache = free_names L0 pool cache - {n}"
proof (rule set_eqI)
  fix k
  have same: "L (ap_Namespace pool, k) = L0 (ap_Namespace pool, k)" if "k \<notin> snd ` set asg"
    using h that by (auto simp: holds_def)
  have gone: "\<not> was_free_for L pool cache k" if "k \<in> snd ` set asg"
    using holds_free_fresh(1) [OF h] that by (auto simp: was_free_for_def)
  have only: "\<not> was_free_for L0 pool cache k" if "k \<in> snd ` set asg" and "k \<noteq> n"
  proof
    assume "was_free_for L0 pool cache k"
    moreover from that(1) obtain cache' where c': "(cache', k) \<in> set asg" by auto
    then have "was_free_for L0 pool cache' k" using h by (auto simp: holds_def)
    ultimately have "cache' = cache" by (auto simp: was_free_for_def)
    moreover have "distinct (map fst asg)" using h by (simp add: holds_def)
    ultimately show False using c' n that(2) eq_key_imp_eq_value by metis
  qed
  have "n \<in> snd ` set asg" using n by force
  with same gone only show "k \<in> free_names L pool cache \<longleftrightarrow> k \<in> free_names L0 pool cache - {n}"
    by (cases "k \<in> snd ` set asg") (auto simp: free_names_def was_free_for_def)
qed

lemma holds_free_count:
  assumes "holds L0 pool pod asg L" and "(cache, n) \<in> set asg" and "finite (free_names L0 pool cache)"
  shows "int (card (free_names L pool cache)) = int (card (free_names L0 pool cache)) - 1"
proof -
  have "n \<in> free_names L0 pool cache" using assms(1,2) by (auto simp: holds_def free_names_def)
  with assms(3) show ?thesis
    using card_gt_0_iff [of "free_names L0 pool cache"]
    by (auto simp: holds_free_names [OF assms(1,2)] card_Diff_singleton)
qed

section \<open>The invariant\<close>

lemma claims_wf_upd: "claims_wf L \<Longrightarrow> claim_wf ls \<Longrightarrow> claims_wf (L(k \<mapsto> ls))"
  by (simp add: claims_wf_def)

lemma holds_wf: "holds L0 pool pod asg L \<Longrightarrow> claims_wf L0 \<Longrightarrow> claims_wf L"
  unfolding holds_def claims_wf_def by (auto split: if_splits)

lemma recoverable_wf:
  assumes "recoverable L0 pool pod L" and "claims_wf L0"
  shows "claims_wf L"
  unfolding claims_wf_def
proof (intro allI impI)
  fix k ls
  assume ls: "L k = Some ls"
  from assms(1) have "L k = L0 k \<or> L k = map_option (set_assigned pod) (L0 k)"
    unfolding recoverable_def restorable_def by blast
  then show "claim_wf ls"
  proof
    assume "L k = L0 k"
    with ls assms(2) show ?thesis unfolding claims_wf_def by metis
  next
    assume "L k = map_option (set_assigned pod) (L0 k)"
    with ls show ?thesis by (cases "L0 k") auto
  qed
qed

lemma freed_wf: "claims_wf L \<Longrightarrow> claims_wf (freed K L)"
  unfolding claims_wf_def freed_def by auto

section \<open>Provisioning twice\<close>

definition is_pvc_write :: "obs \<Rightarrow> bool" where
  "is_pvc_write ob = (case ob of CreatePVC _ _ \<Rightarrow> True | PatchPVC _ _ _ \<Rightarrow> True | _ \<Rightarrow> False)"

definition untouched :: "('w \<Rightarrow> claims) \<Rightarrow> 'w sys \<Rightarrow> 'w sys \<Rightarrow> bool" where
  "untouched st s t \<longleftrightarrow> st (world t) = st (world s)
     \<and> filter is_pvc_write (trace t) = filter is_pvc_write (trace s)"

context pvc_reliable
begin

lemma wp_ensure_slot_present:
  assumes "slot_key pool cv i \<in> dom (lab (store (world s)))"
  shows "wp (ensure_slot c m pool cv i) (\<lambda>r t. r = Ret (Ok ()) \<and> untouched store s t) s"
proof -
  let ?n = "pvcSlotName (ap_Name pool) (cv_Name cv) i"
  from assms obtain v where "store (world s) (ap_Namespace pool, ?n) = Some v"
    by (auto simp: lab_def slot_key_def)
  from get_succeeds [OF this] obtain w'
    where get: "c_GetPVC c \<lparr>nn_Namespace = ap_Namespace pool, nn_Name = ?n\<rparr> (world s) = (Ok v, w')" ..
  then show ?thesis
    using get_store [OF get]
    by (simp add: ensure_slot_def Let_def call_defs wp_bind wp_call wp_ret untouched_def is_pvc_write_def)
qed

lemma wp_untouched_seq:
  fixes p q :: "('w sys, unit result) go"
  assumes "wp p (\<lambda>r t. r = Ret (Ok ()) \<and> untouched store s t) s"
    and "\<And>t. store (world t) = store (world s) \<Longrightarrow>
           wp q (\<lambda>r u. r = Ret (Ok ()) \<and> untouched store t u) t"
  shows "wp (go_bind p (\<lambda>r. case r of Err e \<Rightarrow> go_ret (Err e) | Ok _ \<Rightarrow> q))
           (\<lambda>r t. r = Ret (Ok ()) \<and> untouched store s t) s"
  by (rule wp_bindI [OF assms(1)])
     (auto simp: untouched_def intro: wp_mono [OF assms(2) [unfolded untouched_def]])

lemma wp_ensure_slots_present:
  assumes "slot_key pool cv ` set is \<subseteq> dom (lab (store (world s)))"
  shows "wp (ensure_slots c m pool cv is) (\<lambda>r t. r = Ret (Ok ()) \<and> untouched store s t) s"
  using assms
proof (induction "is" arbitrary: s)
  case Nil
  then show ?case by (simp add: wp_ret untouched_def)
next
  case (Cons i "is")
  then show ?case
    unfolding ensure_slots.simps by (intro wp_untouched_seq wp_ensure_slot_present Cons.IH) auto
qed

lemma wp_ensure_templates_present:
  assumes "(\<Union>cv \<in> set cvs. slot_key pool cv ` set (slot_numbers pool)) \<subseteq> dom (lab (store (world s)))"
  shows "wp (ensure_templates c m pool cvs) (\<lambda>r t. r = Ret (Ok ()) \<and> untouched store s t) s"
  using assms
proof (induction cvs arbitrary: s)
  case Nil
  then show ?case by (simp add: wp_ret untouched_def)
next
  case (Cons cv cvs)
  then show ?case
    unfolding ensure_templates.simps by (intro wp_untouched_seq wp_ensure_slots_present Cons.IH) auto
qed

lemma ensurePVCPool_present:
  assumes "(\<Union>cv \<in> set (sp_CacheVolumes (ap_Spec pool)). slot_key pool cv ` set (slot_numbers pool))
             \<subseteq> dom (lab (store (world s)))"
  shows "wp (ensurePVCPool c m pool) (\<lambda>r t. r = Ret (Ok ()) \<and> untouched store s t) s"
  using wp_ensure_templates_present [OF assms] by (auto simp: ensurePVCPool_def wp_ret untouched_def)

end

end
