(* ===== verification/Agent_Pods.thy ===== *)
theory Agent_Pods
  imports Pvc_Pool
begin

text \<open>
  Agent pods, the pod half of \<^verbatim>\<open>src/internal/controller/agentpool_controller.go\<close>: the desired number
  (\<open>clamp\<close>), the pods that count (\<open>countActivePods\<close>), names, the pod object (\<open>buildAgentPod\<close>), creation
  with its rollback of assigned claims, the scale-up loop, scale-down of idle pods, and the cleanup
  of completed pods.
\<close>

section \<open>Counting and naming\<close>

definition defaultAgentImage :: string where
  "defaultAgentImage = ''mcr.microsoft.com/azure-pipelines/vsts-agent:latest''"

definition clamp :: "int32 \<Rightarrow> int32 \<Rightarrow> int32 \<Rightarrow> int32" where
  "clamp val minVal maxVal =
     (if of_int32 val < of_int32 minVal then minVal
      else if of_int32 val > of_int32 maxVal then maxVal
      else val)"

fun countActivePods :: "Pod list \<Rightarrow> int \<times> Pod list" where
  "countActivePods pods =
     (let active = filter (\<lambda>p. pod_Phase p = PodRunning \<or> pod_Phase p = PodPending) pods
      in (int (length active), active))"

definition truncateName :: "string \<Rightarrow> nat \<Rightarrow> string" where
  "truncateName s maxLen = (if length s \<le> maxLen then s else take maxLen s)"

definition charset :: string where
  "charset = ''abcdefghijklmnopqrstuvwxyz0123456789''"

text \<open>\<^verbatim>\<open>charset[i]\<close>, and the loop that fills the bytes of a random string.\<close>

definition charset_at :: "nat \<Rightarrow> ('s, char) go" where
  "charset_at i = (if i < length charset then go_ret (charset ! i)
                   else go_panic ''index out of range'')"

primrec randomString :: "'w machinery \<Rightarrow> nat \<Rightarrow> ('w sys, string) go" where
  "randomString m 0 = go_ret []"
| "randomString m (Suc n) =
     go_bind (ask (m_Intn m (length charset))) (\<lambda>i.
     go_bind (charset_at i) (\<lambda>b.
     go_bind (randomString m n) (\<lambda>bs.
     go_ret (b # bs))))"

section \<open>The pod object\<close>

definition agent_env :: "AgentPool \<Rightarrow> string \<Rightarrow> EnvVar list" where
  "agent_env pool podName =
     [\<lparr>ev_Name = ''AZP_URL'', ev_Value = sp_OrganizationURL (ap_Spec pool), ev_ValueFrom = None\<rparr>,
      \<lparr>ev_Name = ''AZP_POOL'', ev_Value = sp_PoolName (ap_Spec pool), ev_ValueFrom = None\<rparr>,
      \<lparr>ev_Name = ''AZP_AGENT_NAME'', ev_Value = podName, ev_ValueFrom = None\<rparr>,
      \<lparr>ev_Name = ''AZP_TOKEN'', ev_Value = [],
       ev_ValueFrom = Some (SecretKeyRef (sp_TokenSecretRef (ap_Spec pool)))\<rparr>]
     @ sp_ExtraEnv (ap_Spec pool)"

text \<open>The loop over the cache templates, which fills volumes and mounts in step.\<close>

fun cache_mounts :: "(string \<times> string) list \<Rightarrow> CacheVolumeTemplate list
    \<Rightarrow> Volume list \<times> VolumeMount list \<Rightarrow> Volume list \<times> VolumeMount list" where
  "cache_mounts assignedPVCs [] (volumes, volumeMounts) = (volumes, volumeMounts)"
| "cache_mounts assignedPVCs (cv # cvs) (volumes, volumeMounts) =
     (case map_of assignedPVCs (cv_Name cv) of
        None \<Rightarrow> cache_mounts assignedPVCs cvs (volumes, volumeMounts)
      | Some pvcName \<Rightarrow> cache_mounts assignedPVCs cvs
          (volumes @ [\<lparr>vol_Name = cv_Name cv, vol_ClaimName = pvcName\<rparr>],
           volumeMounts @ [\<lparr>vm_Name = cv_Name cv, vm_MountPath = cv_MountPath cv\<rparr>]))"

definition agent_labels :: "AgentPool \<Rightarrow> (string \<rightharpoonup> string)" where
  "agent_labels pool =
     maps_Copy [''app.kubernetes.io/name'' \<mapsto> ''azure-devops-agent'',
                ''app.kubernetes.io/managed-by'' \<mapsto> ''agentpool-controller'',
                ''app.kubernetes.io/instance'' \<mapsto> ap_Name pool,
                labelPoolName \<mapsto> ap_Name pool]
               (sp_PodLabels (ap_Spec pool))"

definition buildAgentPod :: "AgentPool \<Rightarrow> string \<Rightarrow> (string \<times> string) list \<Rightarrow> Pod" where
  "buildAgentPod pool podName assignedPVCs =
     (let spec = ap_Spec pool;
          image = (if sp_AgentImage spec = [] then defaultAgentImage else sp_AgentImage spec);
          env = agent_env pool podName;
          (volumes, volumeMounts) = cache_mounts assignedPVCs (sp_CacheVolumes spec) ([], [])
      in \<lparr>pod_Name = podName,
          pod_Namespace = ap_Namespace pool,
          pod_Labels = Some (agent_labels pool),
          pod_Annotations = Some (maps_Copy Map.empty (sp_PodAnnotations spec)),
          pod_Owner = None,
          pod_Spec =
            \<lparr>ps_RestartPolicy = ''Never'',
             ps_ServiceAccountName = sp_ServiceAccountName spec,
             ps_NodeSelector = sp_NodeSelector spec,
             ps_Tolerations = sp_Tolerations spec,
             ps_Affinity = sp_Affinity spec,
             ps_ImagePullSecrets = sp_ImagePullSecrets spec,
             ps_SecurityContext = sp_PodSecurityContext spec,
             ps_InitContainers = sp_InitContainers spec,
             ps_Containers =
               [\<lparr>ct_Name = ''agent'', ct_Image = image, ct_ImagePullPolicy = ''IfNotPresent'',
                 ct_Args = [''--once''], ct_Env = env, ct_VolumeMounts = volumeMounts,
                 ct_Resources = sp_AgentResources spec\<rparr>],
             ps_Volumes = volumes\<rparr>,
          pod_Phase = PhaseUnset\<rparr>)"

section \<open>Creation\<close>

definition agent_pod_name :: "'w machinery \<Rightarrow> AgentPool \<Rightarrow> ('w sys, string) go" where
  "agent_pod_name m pool =
     go_bind (randomString m 6) (\<lambda>suffix.
     go_ret (truncateName (ap_Name pool) 40 @ ''-'' @ suffix))"

text \<open>From \<^verbatim>\<open>buildAgentPod\<close> to the end of \<^verbatim>\<open>createAgentPod\<close>: own, create, record.\<close>

definition launch_pod :: "'w client \<Rightarrow> 'w machinery \<Rightarrow> AgentPool \<Rightarrow> string \<Rightarrow> (string \<times> string) list
    \<Rightarrow> ('w sys, unit result) go" where
  "launch_pod c m pool podName assignedPVCs =
     (case m_SetPodOwner m pool (buildAgentPod pool podName assignedPVCs) of
        Err e \<Rightarrow>
          go_bind (rollbackAssignedPVCs c m (ap_Namespace pool) assignedPVCs) (\<lambda>_.
          go_ret (Err (Wrapf ''set controller reference'' e)))
      | Ok pod \<Rightarrow>
          go_bind (r_CreatePod c pod) (\<lambda>r.
          case r of
            Err e \<Rightarrow>
              go_bind (rollbackAssignedPVCs c m (ap_Namespace pool) assignedPVCs) (\<lambda>_.
              go_ret (Err (Wrapf ''create pod'' e)))
          | Ok _ \<Rightarrow>
              go_bind (tell (RecordEvent (ap_Name pool) ''Normal'' ''PodCreated''
                               (''Created agent pod '' @ podName))) (\<lambda>_.
              go_ret (Ok ()))))"

definition createAgentPod ::
    "'w client \<Rightarrow> 'w machinery \<Rightarrow> AgentPool \<Rightarrow> ('w sys, unit result) go" where
  "createAgentPod c m pool =
     go_bind (agent_pod_name m pool) (\<lambda>podName.
     if sp_CacheVolumes (ap_Spec pool) \<noteq> [] then
       go_bind (findAndAssignPVCs c m pool podName) (\<lambda>r.
       case r of
         Err e \<Rightarrow> go_ret (Err (Wrapf ''assign PVCs'' e))
       | Ok assignedPVCs \<Rightarrow> launch_pod c m pool podName assignedPVCs)
     else launch_pod c m pool podName [])"

section \<open>Scale-down\<close>

text \<open>The loop of \<^verbatim>\<open>scaleDown\<close> with its counter.\<close>

fun scale_down_loop :: "'w client \<Rightarrow> AgentPool \<Rightarrow> Pod list \<Rightarrow> int \<Rightarrow> (string \<rightharpoonup> bool) \<Rightarrow> int
    \<Rightarrow> ('w sys, int) go" where
  "scale_down_loop c pool [] count busyAgentNames deleted = go_ret deleted"
| "scale_down_loop c pool (pod # pods) count busyAgentNames deleted =
     (if deleted \<ge> count then go_ret deleted
      else if is_busy busyAgentNames (pod_Name pod) then
        scale_down_loop c pool pods count busyAgentNames deleted
      else
        go_bind (r_DeletePod c pod) (\<lambda>r.
        case r of
          Err e \<Rightarrow> scale_down_loop c pool pods count busyAgentNames deleted
        | Ok _ \<Rightarrow>
            go_bind (tell (RecordEvent (ap_Name pool) ''Normal'' ''PodScaledDown''
                             (''Deleted idle agent pod '' @ pod_Name pod))) (\<lambda>_.
            scale_down_loop c pool pods count busyAgentNames (deleted + 1))))"

definition scaleDown :: "'w client \<Rightarrow> AgentPool \<Rightarrow> Pod list \<Rightarrow> int \<Rightarrow> (string \<rightharpoonup> bool)
    \<Rightarrow> ('w sys, int) go" where
  "scaleDown c pool activePods count busyAgentNames =
     scale_down_loop c pool activePods count busyAgentNames 0"

section \<open>Cleanup of completed pods\<close>

definition first_error :: "go_error option \<Rightarrow> go_error \<Rightarrow> go_error option" where
  "first_error firstErr e = (if firstErr = None then Some e else firstErr)"

definition completed :: "Pod \<Rightarrow> bool" where
  "completed pod \<longleftrightarrow> \<not> (pod_Phase pod \<noteq> PodSucceeded \<and> pod_Phase pod \<noteq> PodFailed)"

text \<open>One completed pod: release its claims when caches are configured, then delete it.\<close>

definition cleanup_release :: "'w client \<Rightarrow> AgentPool \<Rightarrow> Pod \<Rightarrow> go_error option
    \<Rightarrow> ('w sys, go_error option) go" where
  "cleanup_release c pool pod firstErr =
     (if sp_CacheVolumes (ap_Spec pool) \<noteq> [] then
        go_bind (releasePVCsForPod c pool (pod_Name pod)) (\<lambda>r.
        go_ret (case r of Err e \<Rightarrow> first_error firstErr e | Ok _ \<Rightarrow> firstErr))
      else go_ret firstErr)"

definition cleanup_delete :: "'w client \<Rightarrow> 'w machinery \<Rightarrow> AgentPool \<Rightarrow> Pod \<Rightarrow> go_error option
    \<Rightarrow> ('w sys, go_error option) go" where
  "cleanup_delete c m pool pod firstErr =
     go_bind (r_DeletePod c pod) (\<lambda>r.
     case r of
       Err e \<Rightarrow> go_ret (if m_IgnoreNotFound m e \<noteq> None then first_error firstErr e else firstErr)
     | Ok _ \<Rightarrow>
         go_bind (tell (RecordEvent (ap_Name pool) ''Normal'' ''PodCleaned''
                    (''Deleted completed pod '' @ pod_Name pod @ '' ('' @ phase_text (pod_Phase pod)
                       @ '')''))) (\<lambda>_.
         go_ret firstErr))"

primrec cleanup_loop :: "'w client \<Rightarrow> 'w machinery \<Rightarrow> AgentPool \<Rightarrow> Pod list \<Rightarrow> go_error option
    \<Rightarrow> ('w sys, go_error option) go" where
  "cleanup_loop c m pool [] firstErr = go_ret firstErr"
| "cleanup_loop c m pool (pod # pods) firstErr =
     (if \<not> completed pod then cleanup_loop c m pool pods firstErr
      else
        go_bind (cleanup_release c pool pod firstErr) (\<lambda>firstErr.
        go_bind (cleanup_delete c m pool pod firstErr) (\<lambda>firstErr.
        cleanup_loop c m pool pods firstErr)))"

definition cleanupCompletedPods :: "'w client \<Rightarrow> 'w machinery \<Rightarrow> AgentPool \<Rightarrow> Pod list
    \<Rightarrow> ('w sys, unit result) go" where
  "cleanupCompletedPods c m pool pods =
     go_bind (cleanup_loop c m pool pods None) (\<lambda>firstErr.
     go_ret (case firstErr of None \<Rightarrow> Ok () | Some e \<Rightarrow> Err e))"

section \<open>The desired number of agents\<close>

text \<open>The two bounds of the specification, as the code reads them.\<close>

lemma clamp_between:
  assumes "of_int32 lo \<le> of_int32 hi"
  shows "of_int32 (clamp v lo hi) = max (of_int32 lo) (min (of_int32 hi) (of_int32 v))"
  using assms by (auto simp: clamp_def)

lemma clamp_least: "of_int32 lo \<le> of_int32 hi \<Longrightarrow> of_int32 lo \<le> of_int32 (clamp v lo hi)"
  by (simp add: clamp_between)

lemma clamp_greatest: "of_int32 lo \<le> of_int32 hi \<Longrightarrow> of_int32 (clamp v lo hi) \<le> of_int32 hi"
  by (simp add: clamp_between)

definition active :: "Pod \<Rightarrow> bool" where
  "active p \<longleftrightarrow> pod_Phase p = PodRunning \<or> pod_Phase p = PodPending"

lemma countActivePods_active:
  "countActivePods pods = (int (length (filter active pods)), filter active pods)"
  by (simp add: Let_def active_def [abs_def])

declare countActivePods.simps [simp del]

lemma active_not_completed: "active p \<Longrightarrow> \<not> completed p"
  by (auto simp: active_def completed_def)

section \<open>Names\<close>

lemma truncateName_length: "length (truncateName s n) \<le> n"
  by (simp add: truncateName_def)

lemma truncateName_prefix: "truncateName s n = take n s"
  by (simp add: truncateName_def)

lemma length_charset [simp]: "length charset = 36"
  by (simp add: charset_def)

text \<open>What \<^verbatim>\<open>rand.Intn\<close> documents: a number below its argument.\<close>

locale random_source =
  fixes m :: "'w machinery"
  assumes Intn_below: "0 < n \<Longrightarrow> m_Intn m n w = (i, w') \<Longrightarrow> i < n"
begin

lemma wp_randomString:
  "wp (randomString m n) (\<lambda>r t. \<exists>bs. r = Ret bs \<and> length bs = n \<and> set bs \<subseteq> set charset
     \<and> trace t = trace s) s"
proof (induction n arbitrary: s)
  case 0
  then show ?case by (simp add: wp_ret)
next
  case (Suc n)
  obtain i w' where i: "m_Intn m (length charset) (world s) = (i, w')" by fastforce
  with Intn_below have "i < length charset" by (metis length_charset zero_less_numeral)
  then show ?case
    using Suc [of "s\<lparr>world := w'\<rparr>"] i
    by (auto simp: wp_bind wp_ask wp_ret charset_at_def elim!: wp_mono)
qed

lemma wp_agent_pod_name:
  "wp (agent_pod_name m pool) (\<lambda>r t. \<exists>bs. r = Ret (take 40 (ap_Name pool) @ ''-'' @ bs)
     \<and> length bs = 6 \<and> set bs \<subseteq> set charset \<and> trace t = trace s) s"
  unfolding agent_pod_name_def wp_bind
  by (rule wp_mono [OF wp_randomString]) (auto simp: wp_ret truncateName_prefix)

end

section \<open>The pod object\<close>

text \<open>The templates that have a claim, in order.\<close>

definition served :: "(string \<times> string) list \<Rightarrow> CacheVolumeTemplate list
    \<Rightarrow> (CacheVolumeTemplate \<times> string) list" where
  "served asg cvs = [(cv, n). cv \<leftarrow> cvs, n \<leftarrow> (case map_of asg (cv_Name cv) of None \<Rightarrow> [] | Some n \<Rightarrow> [n])]"

lemma cache_mounts_served:
  "cache_mounts asg cvs (vs, ms) =
     (vs @ map (\<lambda>(cv, n). \<lparr>vol_Name = cv_Name cv, vol_ClaimName = n\<rparr>) (served asg cvs),
      ms @ map (\<lambda>(cv, n). \<lparr>vm_Name = cv_Name cv, vm_MountPath = cv_MountPath cv\<rparr>) (served asg cvs))"
  by (induction cvs arbitrary: vs ms) (auto simp: served_def split: option.split)

lemma served_all:
  assumes "map fst asg = map cv_Name cvs" and "distinct (map cv_Name cvs)"
  shows "served asg cvs = zip cvs (map snd asg)"
  using assms
proof (induction cvs arbitrary: asg)
  case Nil
  then show ?case by (simp add: served_def)
next
  case (Cons cv cvs)
  then obtain n rest where asg: "asg = (cv_Name cv, n) # rest" by (cases asg) auto
  have "cv_Name x \<noteq> cv_Name cv" if "x \<in> set cvs" for x
    using Cons.prems(2) imageI [OF that, of cv_Name] by auto
  then have "served asg cvs = served rest cvs"
    unfolding served_def asg by (intro arg_cong [where f = concat] map_cong) auto
  with Cons asg show ?case by (simp add: served_def)
qed

lemma buildAgentPod_volumes:
  "ps_Volumes (pod_Spec (buildAgentPod pool podName asg)) =
     map (\<lambda>(cv, n). \<lparr>vol_Name = cv_Name cv, vol_ClaimName = n\<rparr>) (served asg (sp_CacheVolumes (ap_Spec pool)))"
  by (simp add: buildAgentPod_def Let_def cache_mounts_served)

lemma buildAgentPod_fields [simp]:
  "pod_Name (buildAgentPod pool podName asg) = podName"
  "pod_Namespace (buildAgentPod pool podName asg) = ap_Namespace pool"
  "pod_Labels (buildAgentPod pool podName asg) = Some (agent_labels pool)"
  by (simp_all add: buildAgentPod_def Let_def split: prod.split)

text \<open>The label that the controller lists its pods by survives unless the user overrides it.\<close>

lemma agent_labels_pool:
  "agent_labels pool labelPoolName =
     (case map_get (sp_PodLabels (ap_Spec pool)) labelPoolName of None \<Rightarrow> Some (ap_Name pool) | Some v \<Rightarrow> Some v)"
  by (simp add: agent_labels_def maps_Copy_get split: option.split)

section \<open>Calls made for pods\<close>

text \<open>Deletions and job queries are the calls the safety argument is about.\<close>

fun is_delete :: "obs \<Rightarrow> bool" where
  "is_delete (DeletePod _ _) = True"
| "is_delete _ = False"

fun deleted_ok :: "obs \<Rightarrow> bool" where
  "deleted_ok (DeletePod _ ok) = ok"
| "deleted_ok _ = False"

fun created_ok :: "obs \<Rightarrow> bool" where
  "created_ok (CreatePod _ ok) = ok"
| "created_ok _ = False"

lemma emits_randomString [emits_intros]: "emits P (randomString m n)"
  by (induction n) (auto simp: charset_at_def intro!: emits_intros)

lemma emits_agent_pod_name: "emits P (agent_pod_name m pool)"
  unfolding agent_pod_name_def by (intro emits_intros)

lemma pvc_call_not_pod [simp]:
  "is_pvc_call ob \<Longrightarrow> \<not> created_ok ob" "is_pvc_call ob \<Longrightarrow> \<not> is_delete ob"
  "is_pvc_call ob \<Longrightarrow> \<not> deleted_ok ob"
  by (cases ob; simp)+

text \<open>What the creation of a pod can leave in the trace: nothing, or one created pod of this pool.\<close>

definition launched :: "'w machinery \<Rightarrow> AgentPool \<Rightarrow> Pod \<Rightarrow> bool" where
  "launched m pool pod \<longleftrightarrow> (\<exists>podName asg. m_SetPodOwner m pool (buildAgentPod pool podName asg) = Ok pod)"

definition created_by :: "'w machinery \<Rightarrow> AgentPool \<Rightarrow> 'w sys \<Rightarrow> 'w sys \<Rightarrow> Pod list \<Rightarrow> bool" where
  "created_by m pool s t ps \<longleftrightarrow>
     filter created_ok (trace t) = filter created_ok (trace s) @ map (\<lambda>p. CreatePod p True) ps
     \<and> (\<forall>p \<in> set ps. launched m pool p)"

lemma created_by_Nil [simp]:
  "created_by m pool s t [] \<longleftrightarrow> filter created_ok (trace t) = filter created_ok (trace s)"
  by (simp add: created_by_def)

lemma created_by_trans:
  "created_by m pool s t ps \<Longrightarrow> created_by m pool t u qs \<Longrightarrow> created_by m pool s u (ps @ qs)"
  unfolding created_by_def by auto

lemma wp_rollback_fails:
  assumes "filter created_ok (trace t) = filter created_ok (trace s)"
  shows "wp (go_bind (rollbackAssignedPVCs c m ns asg) (\<lambda>_. go_ret (Err e)))
           (\<lambda>r u. \<exists>ps. created_by m pool s u ps \<and> length ps = (if r = Ret (Ok ()) then 1 else 0)) t"
  unfolding wp_bind
  by (rule wp_mono [OF wp_filter [where P = created_ok]])
     (use assms in \<open>auto simp: wp_ret intro: emits_mono [OF emits_rollback] split: outcome.split\<close>)

lemma wp_launch_pod:
  assumes "filter created_ok (trace t) = filter created_ok (trace s)"
  shows "wp (launch_pod c m pool podName asg)
     (\<lambda>r u. \<exists>ps. created_by m pool s u ps \<and> length ps = (if r = Ret (Ok ()) then 1 else 0)) t"
proof (cases "m_SetPodOwner m pool (buildAgentPod pool podName asg)")
  case (Inl e)
  then show ?thesis using assms by (simp add: launch_pod_def wp_rollback_fails)
next
  case (Inr pod)
  then have pod: "launched m pool pod" unfolding launched_def by blast
  obtain r w' where r: "c_CreatePod c pod (world t) = (r, w')" by fastforce
  show ?thesis
  proof (cases r)
    case (Inl e)
    with Inr r assms show ?thesis
      by (simp add: launch_pod_def wp_bind call_defs wp_call wp_rollback_fails [unfolded wp_bind])
  next
    case (Inr u)
    with \<open>m_SetPodOwner m pool _ = Ok pod\<close> r assms pod show ?thesis
      by (auto simp: launch_pod_def call_defs wp_simps created_by_def intro!: exI [of _ "[pod]"])
  qed
qed

lemma wp_createAgentPod:
  "wp (createAgentPod c m pool)
     (\<lambda>r t. \<exists>ps. created_by m pool s t ps \<and> length ps = (if r = Ret (Ok ()) then 1 else 0)) s"
  (is "wp _ ?Q s")
  unfolding createAgentPod_def
proof (rule wp_bindI [OF wp_filter [where P = created_ok]])
  fix podName and t :: "'a sys"
  assume t: "filter created_ok (trace t) = filter created_ok (trace s)"
  have assign: "wp (go_bind (findAndAssignPVCs c m pool podName) (\<lambda>r. case r of
      Err e \<Rightarrow> go_ret (Err (Wrapf ''assign PVCs'' e))
    | Ok asg \<Rightarrow> launch_pod c m pool podName asg)) ?Q t"
  proof (rule wp_bindI [OF wp_filter [where P = created_ok]])
    show "emits (\<lambda>ob. \<not> created_ok ob) (findAndAssignPVCs c m pool podName)"
      by (rule emits_mono [OF emits_findAndAssign]) simp
  qed (auto simp: wp_ret t intro!: wp_launch_pod split: sum.split)
  show "wp (if sp_CacheVolumes (ap_Spec pool) \<noteq> [] then
      go_bind (findAndAssignPVCs c m pool podName) (\<lambda>r. case r of
        Err e \<Rightarrow> go_ret (Err (Wrapf ''assign PVCs'' e))
      | Ok asg \<Rightarrow> launch_pod c m pool podName asg)
    else launch_pod c m pool podName []) ?Q t"
    using assign wp_launch_pod [OF t] by simp
qed (simp_all add: emits_agent_pod_name)

section \<open>Scale-down\<close>

fun idle_delete :: "(string \<rightharpoonup> bool) \<Rightarrow> Pod set \<Rightarrow> obs \<Rightarrow> bool" where
  "idle_delete busy ps (DeletePod p ok) \<longleftrightarrow> p \<in> ps \<and> \<not> is_busy busy (pod_Name p)"
| "idle_delete busy ps (RecordEvent _ _ _ _) = True"
| "idle_delete busy ps _ = False"

lemma emits_scale_down_loop: "emits (idle_delete busy (set pods)) (scale_down_loop c pool pods n busy d)"
proof (induction pods arbitrary: d)
  case Nil
  then show ?case by (simp add: emits_intros)
next
  case (Cons p pods)
  have "emits (idle_delete busy (set (p # pods))) (scale_down_loop c pool pods n busy d)" for d
    by (rule emits_mono [OF Cons.IH]) (case_tac ob; simp)
  then show ?case by (auto simp: call_defs intro!: emits_intros)
qed

lemma emits_scaleDown: "emits (idle_delete busy (set pods)) (scaleDown c pool pods n busy)"
  unfolding scaleDown_def by (rule emits_scale_down_loop)

text \<open>The counter counts the successful deletions, and stops at the limit.\<close>

definition deletions :: "'w sys \<Rightarrow> int" where
  "deletions s = int (length (filter deleted_ok (trace s)))"

lemma wp_scale_down_loop:
  "wp (scale_down_loop c pool pods n busy d)
     (\<lambda>r t. \<exists>j. r = Ret (d + j) \<and> 0 \<le> j \<and> j \<le> max 0 (n - d) \<and> deletions t = deletions s + j) s"
proof (induction pods arbitrary: d s)
  case Nil
  then show ?case by (simp add: wp_ret)
next
  case (Cons p pods)
  have "wp (scale_down_loop c pool pods n busy (d + 1))
      (\<lambda>r t. \<exists>j. r = Ret (d + j) \<and> 0 \<le> j \<and> j \<le> max 0 (n - d) \<and> deletions t = deletions s + j) u"
    if "deletions u = deletions s + 1" and "d < n" for u :: "'a sys"
    by (rule wp_mono [OF Cons.IH]) (use that in \<open>auto intro: exI [of _ "_ + 1"]\<close>)
  moreover have "wp (scale_down_loop c pool pods n busy d)
      (\<lambda>r t. \<exists>j. r = Ret (d + j) \<and> 0 \<le> j \<and> j \<le> max 0 (n - d) \<and> deletions t = deletions s + j) u"
    if "deletions u = deletions s" for u :: "'a sys"
    using Cons.IH [of d u] that by simp
  ultimately show ?case
    by (auto simp: call_defs wp_simps deletions_def split: prod.split sum.split)
qed

text \<open>The pods of a list that deletions were requested for, and for which they succeeded.\<close>

fun delete_targets :: "obs list \<Rightarrow> Pod list" where
  "delete_targets [] = []"
| "delete_targets (DeletePod p ok # os) = p # delete_targets os"
| "delete_targets (_ # os) = delete_targets os"

fun failed_delete :: "obs \<Rightarrow> bool" where
  "failed_delete (DeletePod _ ok) = (\<not> ok)"
| "failed_delete _ = False"

lemma delete_targets_append [simp]:
  "delete_targets (os @ os') = delete_targets os @ delete_targets os'"
  by (induction os rule: delete_targets.induct) auto

lemma delete_targets_none: "list_all (\<lambda>ob. \<not> is_delete ob) os \<Longrightarrow> delete_targets os = []"
  by (induction os rule: delete_targets.induct) auto

abbreviation idle :: "(string \<rightharpoonup> bool) \<Rightarrow> Pod list \<Rightarrow> Pod list" where
  "idle busy pods \<equiv> filter (\<lambda>p. \<not> is_busy busy (pod_Name p)) pods"

text \<open>When no deletion fails, exactly the first idle pods go.\<close>

lemma wp_scale_down_exact:
  "wp (scale_down_loop c pool pods n busy d)
     (\<lambda>r t. \<exists>os. trace t = trace s @ os \<and> (list_ex failed_delete os
        \<or> (delete_targets os = take (nat (n - d)) (idle busy pods)
            \<and> r = Ret (d + int (length (delete_targets os)))))) s"
proof (induction pods arbitrary: d s)
  case Nil
  then show ?case by (simp add: wp_ret)
next
  case (Cons p pods)
  let ?Q = "\<lambda>r t. \<exists>os. trace t = trace s @ os \<and> (list_ex failed_delete os
        \<or> (delete_targets os = take (nat (n - d)) (idle busy (p # pods))
            \<and> r = Ret (d + int (length (delete_targets os)))))"
  have deleted: "wp (scale_down_loop c pool pods n busy (d + 1)) ?Q u"
    if u: "trace u = trace s @ [DeletePod p True, ev]" "\<not> is_delete ev"
      and "\<not> is_busy busy (pod_Name p)" and "d < n" for u :: "'a sys" and ev
  proof (rule wp_mono [OF Cons.IH])
    fix r t
    assume "\<exists>os. trace t = trace u @ os \<and> (list_ex failed_delete os
        \<or> (delete_targets os = take (nat (n - (d + 1))) (idle busy pods)
            \<and> r = Ret (d + 1 + int (length (delete_targets os)))))"
    then obtain os where os: "trace t = trace s @ DeletePod p True # ev # os"
      "list_ex failed_delete os \<or> (delete_targets os = take (nat (n - (d + 1))) (idle busy pods)
            \<and> r = Ret (d + 1 + int (length (delete_targets os))))"
      using u(1) by auto
    have "nat (n - d) = Suc (nat (n - (d + 1)))" using \<open>d < n\<close> by simp
    moreover have "delete_targets (DeletePod p True # ev # os) = p # delete_targets os"
      using u(2) by (cases ev) auto
    ultimately show "?Q r t"
      using os that(3) by (intro exI [of _ "DeletePod p True # ev # os"]) auto
  qed
  have failed: "wp (scale_down_loop c pool pods n busy d) ?Q u"
    if "trace u = trace s @ [DeletePod p False]" for u :: "'a sys"
    by (rule wp_mono [OF Cons.IH]) (use that in auto)
  have skipped: "wp (scale_down_loop c pool pods n busy d) ?Q s" if "is_busy busy (pod_Name p)"
    by (rule wp_mono [OF Cons.IH]) (use that in auto)
  from deleted failed skipped show ?case
    by (auto simp: call_defs wp_simps split: prod.split sum.split)
qed

section \<open>Cleanup\<close>

fun cleanup_call :: "obs \<Rightarrow> bool" where
  "cleanup_call (DeletePod p ok) = completed p"
| "cleanup_call (RecordEvent _ _ _ _) = True"
| "cleanup_call ob = is_pvc_call ob"

lemma pvc_call_cleanup: "is_pvc_call ob \<Longrightarrow> cleanup_call ob"
  by (cases ob) simp_all

lemma emits_cleanup_loop: "emits cleanup_call (cleanup_loop c m pool pods fe)"
proof (induction pods arbitrary: fe)
  case Nil
  then show ?case by (simp add: emits_intros)
next
  case (Cons p pods)
  have "emits cleanup_call (cleanup_release c pool p fe)" for fe
    unfolding cleanup_release_def
    by (intro emits_intros emits_mono [OF emits_releasePVCsForPod]) (rule pvc_call_cleanup)
  moreover have "completed p \<Longrightarrow> emits cleanup_call (cleanup_delete c m pool p fe)" for fe
    unfolding cleanup_delete_def call_defs by (intro emits_intros) simp_all
  ultimately show ?case using Cons.IH by (auto intro!: emits_intros)
qed

lemma emits_cleanup: "emits cleanup_call (cleanupCompletedPods c m pool pods)"
  unfolding cleanupCompletedPods_def by (intro emits_intros emits_cleanup_loop)

text \<open>Deletion is requested for every completed pod, once, in order.\<close>

lemma wp_cleanup_release:
  "wp (cleanup_release c pool p fe) (\<lambda>r t. \<exists>os. trace t = trace s @ os \<and> delete_targets os = []) s"
proof -
  have "emits is_pvc_call (cleanup_release c pool p fe)"
    unfolding cleanup_release_def by (intro emits_intros emits_releasePVCsForPod)
  then show ?thesis
    by (rule wp_mono [OF emits_wp])
       (auto intro!: delete_targets_none simp: list_all_iff)
qed

lemma wp_cleanup_delete:
  "wp (cleanup_delete c m pool p fe)
     (\<lambda>r t. \<exists>os fe'. r = Ret fe' \<and> trace t = trace s @ os \<and> delete_targets os = [p]) s"
  by (auto simp: cleanup_delete_def call_defs wp_simps split: prod.split sum.split)

lemma wp_cleanup_loop:
  "wp (cleanup_loop c m pool pods fe)
     (\<lambda>r t. \<exists>os rest. trace t = trace s @ os \<and> filter completed pods = delete_targets os @ rest
        \<and> (\<forall>x. r = Ret x \<longrightarrow> rest = [])) s"
proof (induction pods arbitrary: fe s)
  case Nil
  then show ?case by (simp add: wp_ret)
next
  case (Cons p pods)
  let ?Q = "\<lambda>r t. \<exists>os rest. trace t = trace s @ os
      \<and> filter completed (p # pods) = delete_targets os @ rest \<and> (\<forall>x. r = Ret x \<longrightarrow> rest = [])"
  have rest: "wp (cleanup_loop c m pool pods fe) ?Q u"
    if "trace u = trace s @ os" "delete_targets os = [p]" "completed p" for u :: "'a sys" and os fe
    by (rule wp_mono [OF Cons.IH]) (use that in auto)
  have "wp (go_bind (cleanup_delete c m pool p fe) (\<lambda>fe. cleanup_loop c m pool pods fe)) ?Q u"
    if u: "trace u = trace s @ os" "delete_targets os = []" "completed p" for u :: "'a sys" and os fe
  proof (rule wp_bindI [OF wp_cleanup_delete])
    fix fe2 :: "go_error option" and t :: "'a sys"
    assume "\<exists>os' fe'. Ret fe2 = Ret fe' \<and> trace t = trace u @ os' \<and> delete_targets os' = [p]"
    then obtain os' where "trace t = trace s @ os @ os'" "delete_targets (os @ os') = [p]"
      using u by auto
    then show "wp (cleanup_loop c m pool pods fe2) ?Q t" using u(3) by (rule rest)
  qed auto
  then have "completed p \<Longrightarrow> wp (go_bind (cleanup_release c pool p fe) (\<lambda>fe.
      go_bind (cleanup_delete c m pool p fe) (\<lambda>fe. cleanup_loop c m pool pods fe))) ?Q s"
    by (intro wp_bindI [OF wp_cleanup_release]) auto
  then show ?case using Cons.IH by simp
qed

end
