(* ===== verification/Go_Base64.thy ===== *)
theory Go_Base64
  imports Main
begin

text \<open>
  The standard base64 encoding with padding (\<^verbatim>\<open>base64.StdEncoding.EncodeToString\<close>), which the
  Azure DevOps client uses for its authorization header, a decoder for it, and the proof that
  decoding undoes encoding for every byte string.
\<close>

definition b64_alphabet :: string where
  "b64_alphabet = ''ABCDEFGHIJKLMNOPQRSTUVWXYZabcdefghijklmnopqrstuvwxyz0123456789+/''"

definition b64_sym :: "nat \<Rightarrow> char" where
  "b64_sym n = b64_alphabet ! n"

fun EncodeToString :: "string \<Rightarrow> string" where
  "EncodeToString [] = []"
| "EncodeToString [a] =
     (let n = of_char a * 16
      in [b64_sym (n div 64), b64_sym (n mod 64), CHR ''='', CHR ''=''])"
| "EncodeToString [a, b] =
     (let n = (of_char a * 256 + of_char b) * 4
      in [b64_sym (n div 4096), b64_sym (n div 64 mod 64), b64_sym (n mod 64), CHR ''=''])"
| "EncodeToString (a # b # c # rest) =
     (let n = (of_char a * 256 + of_char b) * 256 + of_char c
      in b64_sym (n div 262144) # b64_sym (n div 4096 mod 64) # b64_sym (n div 64 mod 64)
         # b64_sym (n mod 64) # EncodeToString rest)"

text \<open>The same equations over integers, in which the encoder is evaluated quickly.\<close>

lemma int_of_char: "(of_char a :: int) = int (of_char a)"
  by (simp add: of_nat_of_char)

lemma EncodeToString_code [code]:
  "EncodeToString [] = []"
  "EncodeToString [a] =
     (let n = of_char a * (16 :: int)
      in [b64_sym (nat (n div 64)), b64_sym (nat (n mod 64)), CHR ''='', CHR ''=''])"
  "EncodeToString [a, b] =
     (let n = (of_char a * 256 + of_char b) * (4 :: int)
      in [b64_sym (nat (n div 4096)), b64_sym (nat (n div 64 mod 64)), b64_sym (nat (n mod 64)), CHR ''=''])"
  "EncodeToString (a # b # c # rest) =
     (let n = (of_char a * 256 + of_char b) * 256 + (of_char c :: int)
      in b64_sym (nat (n div 262144)) # b64_sym (nat (n div 4096 mod 64)) # b64_sym (nat (n div 64 mod 64))
         # b64_sym (nat (n mod 64)) # EncodeToString rest)"
  by (simp_all add: Let_def int_of_char nat_div_distrib nat_mod_distrib nat_add_distrib nat_mult_distrib)

section \<open>Decoding\<close>

definition b64_val :: "char \<Rightarrow> nat" where
  "b64_val c = length (takeWhile (\<lambda>x. x \<noteq> c) b64_alphabet)"

fun b64_decode :: "string \<Rightarrow> string" where
  "b64_decode (w # x # y # z # rest) =
     (if y = CHR ''='' then [char_of ((b64_val w * 64 + b64_val x) div 16)]
      else if z = CHR ''='' then
        (let n = ((b64_val w * 64 + b64_val x) * 64 + b64_val y) div 4
         in [char_of (n div 256), char_of (n mod 256)])
      else
        (let n = ((b64_val w * 64 + b64_val x) * 64 + b64_val y) * 64 + b64_val z
         in char_of (n div 65536) # char_of (n div 256 mod 256) # char_of (n mod 256)
            # b64_decode rest))"
| "b64_decode _ = []"

lemma length_b64_alphabet: "length b64_alphabet = 64"
  by (simp add: b64_alphabet_def)

lemma distinct_b64_alphabet: "distinct b64_alphabet"
  unfolding b64_alphabet_def by code_simp

lemma no_padding_in_alphabet: "CHR ''='' \<notin> set b64_alphabet"
  unfolding b64_alphabet_def by code_simp

lemma b64_sym_in: "n < 64 \<Longrightarrow> b64_sym n \<in> set b64_alphabet"
  by (simp add: b64_sym_def length_b64_alphabet)

lemma b64_sym_not_padding [simp]: "n < 64 \<Longrightarrow> b64_sym n \<noteq> CHR ''=''"
  using b64_sym_in no_padding_in_alphabet by metis

lemma b64_val_sym [simp]:
  assumes "n < 64"
  shows "b64_val (b64_sym n) = n"
proof -
  have "takeWhile (\<lambda>x. x \<noteq> b64_sym n) b64_alphabet = take n b64_alphabet"
    using assms distinct_b64_alphabet
    by (intro takeWhile_eq_take_P_nth)
       (auto simp: b64_sym_def nth_eq_iff_index_eq length_b64_alphabet)
  with assms show ?thesis by (simp add: b64_val_def length_b64_alphabet)
qed

text \<open>Appending the next sextet to the leading ones; used once per symbol.\<close>

lemma sextet_step: "(n :: nat) div (k * 64) * 64 + n div k mod 64 = n div k"
  by (simp add: div_mult2_eq)

lemmas sextet_steps =
  div_mult_mod_eq sextet_step [of _ 64, simplified]
  sextet_step [of _ 4096, simplified]

lemma bytes_3:
  fixes a b c :: nat
  assumes "a < 256" "b < 256" "c < 256"
  shows "((a * 256 + b) * 256 + c) div 262144 < 64"
    and "((a * 256 + b) * 256 + c) div 65536 = a"
    and "((a * 256 + b) * 256 + c) div 256 mod 256 = b"
    and "((a * 256 + b) * 256 + c) mod 256 = c"
proof -
  have "(a * 256 + b) * 256 + c < 64 * 262144" using assms by simp
  then show "((a * 256 + b) * 256 + c) div 262144 < 64" by (rule less_mult_imp_div_less)
  show "((a * 256 + b) * 256 + c) div 65536 = a"
    using assms by (intro div_nat_eqI) simp_all
  have "((a * 256 + b) * 256 + c) div 256 = a * 256 + b"
    using assms by (intro div_nat_eqI) simp_all
  then show "((a * 256 + b) * 256 + c) div 256 mod 256 = b"
    using assms by (metis mod_less mod_mult_self3)
  show "((a * 256 + b) * 256 + c) mod 256 = c"
    using assms by (metis mod_less mod_mult_self3)
qed

lemma bytes_2:
  fixes a b :: nat
  assumes "a < 256" "b < 256"
  shows "(a * 256 + b) * 4 div 4096 < 64"
    and "(a * 256 + b) div 256 = a" "(a * 256 + b) mod 256 = b"
proof -
  have "(a * 256 + b) * 4 < 64 * 4096" using assms by simp
  then show "(a * 256 + b) * 4 div 4096 < 64" by (rule less_mult_imp_div_less)
  show "(a * 256 + b) div 256 = a" using assms by simp
  show "(a * 256 + b) mod 256 = b" using assms by (metis mod_less mod_mult_self3)
qed

text \<open>Decoding one group, for an arbitrary group value \<open>n\<close>.\<close>

lemma decode_group3:
  assumes "n div 262144 < 64"
  shows "b64_decode (b64_sym (n div 262144) # b64_sym (n div 4096 mod 64)
            # b64_sym (n div 64 mod 64) # b64_sym (n mod 64) # rest)
       = char_of (n div 65536) # char_of (n div 256 mod 256) # char_of (n mod 256)
            # b64_decode rest"
proof -
  have "((n div 262144 * 64 + n div 4096 mod 64) * 64 + n div 64 mod 64) * 64 + n mod 64 = n"
    by (simp only: sextet_steps)
  with assms show ?thesis by (simp only: b64_decode.simps Let_def b64_val_sym b64_sym_not_padding
      mod_less_divisor zero_less_numeral if_False)
qed

lemma decode_group2:
  assumes "n div 4096 < 64"
  shows "b64_decode [b64_sym (n div 4096), b64_sym (n div 64 mod 64), b64_sym (n mod 64), CHR ''='']
       = [char_of (n div 4 div 256), char_of (n div 4 mod 256)]"
proof -
  have "(n div 4096 * 64 + n div 64 mod 64) * 64 + n mod 64 = n"
    by (simp only: sextet_steps)
  with assms show ?thesis by (simp only: b64_decode.simps Let_def b64_val_sym b64_sym_not_padding
      mod_less_divisor zero_less_numeral if_False if_True refl)
qed

lemma decode_group1:
  assumes "n div 64 < 64"
  shows "b64_decode [b64_sym (n div 64), b64_sym (n mod 64), CHR ''='', CHR ''='']
       = [char_of (n div 16)]"
proof -
  have "n div 64 * 64 + n mod 64 = n" by (simp only: sextet_steps)
  with assms show ?thesis by (simp only: b64_decode.simps b64_val_sym
      mod_less_divisor zero_less_numeral if_True refl)
qed

lemma b64_decode_encode: "b64_decode (EncodeToString s) = s"
proof (induction s rule: EncodeToString.induct)
  case 1
  then show ?case by simp
next
  case (2 a)
  have "(of_char a :: nat) * 16 div 64 < 64"
    using nat_of_char_less_256 [of a] by linarith
  from decode_group1 [OF this] show ?case by (simp only: EncodeToString.simps Let_def) simp
next
  case (3 a b)
  note s = bytes_2 [OF nat_of_char_less_256 [of a] nat_of_char_less_256 [of b]]
  show ?case
    by (simp only: EncodeToString.simps Let_def decode_group2 [OF s(1)]
          nonzero_mult_div_cancel_right zero_neq_numeral [symmetric] s(2,3) not_False_eq_True) simp
next
  case (4 a b c rest)
  note s = bytes_3 [OF nat_of_char_less_256 [of a] nat_of_char_less_256 [of b]
      nat_of_char_less_256 [of c]]
  show ?case
    by (simp only: EncodeToString.simps Let_def decode_group3 [OF s(1)] s(2,3,4) "4.IH") simp
qed

end
