(* ===== verification/Ado_Client.thy ===== *)
theory Ado_Client
  imports Operator_State Go_Base64
begin

text \<open>
  The Azure DevOps client, \<^verbatim>\<open>src/internal/azuredevops/client.go\<close>: authorization header, request
  URLs, the three HTTP helpers with every error path, decoding of the responses, and the five
  operations of the interface \<^verbatim>\<open>adoClientFace\<close> that the controller calls
  (\<^verbatim>\<open>src/internal/controller/agentpool_controller.go\<close>).

  The network is a parameter (\<open>transport\<close>): it accepts or rejects a URL, answers a request, and
  converts between JSON text and JSON values.  Decoding a JSON value into a struct follows
  \<^verbatim>\<open>encoding/json\<close>: members are taken in order, a key selects the field with that name or, failing
  that, the field that equals it up to the case of ASCII letters, unknown members are ignored, \<^verbatim>\<open>null\<close>
  leaves a value unchanged and sets a pointer or slice to \<^verbatim>\<open>nil\<close>, and a value of another type is an
  error.  Indexing an empty slice panics.

  The locale \<open>ado_service\<close> is the contract the controller relies on: the client reaches the
  outside only through HTTP requests, the job query and the two registration calls return without
  panic, and a job status is consistent (a busy agent has an unfinished job).  It is interpreted on the client of this file, for every transport.
\<close>

section \<open>The interface adoClientFace\<close>

record 'w adoClientFace =
  ado_GetPoolID :: "string \<Rightarrow> string \<Rightarrow> ('w sys, int result) go"
  ado_GetJobStatus :: "string \<Rightarrow> int \<Rightarrow> ('w sys, JobStatus result) go"
  ado_RegisterDummyAgent :: "string \<Rightarrow> int \<Rightarrow> string \<Rightarrow> ('w sys, int result) go"
  ado_UnregisterAgent :: "string \<Rightarrow> int \<Rightarrow> int \<Rightarrow> ('w sys, unit result) go"
  ado_GetAgentByName :: "string \<Rightarrow> int \<Rightarrow> string \<Rightarrow> ('w sys, int result) go"

record 'w transport =
  t_RequestErr :: "string \<Rightarrow> string \<Rightarrow> go_error option"
  t_Do :: "http_request \<Rightarrow> 'w \<Rightarrow> http_response result \<times> 'w"
  t_JsonParse :: "string \<Rightarrow> json result"
  t_JsonPrint :: "json \<Rightarrow> string result"

section \<open>Decoding JSON values into structs\<close>

text \<open>A decoder updates the value it is given.\<close>

type_synonym 'a decoder = "json \<Rightarrow> 'a \<Rightarrow> 'a result"

definition type_error :: "go_error" where
  "type_error = ExtError ''UnmarshalTypeError'' ''json: cannot unmarshal value''"

definition dec_int :: "int decoder" where
  "dec_int j old = (case j of JNull \<Rightarrow> Ok old
     | JInt i \<Rightarrow> if - (2 ^ 63) \<le> i \<and> i < 2 ^ 63 then Ok i else Err type_error
     | _ \<Rightarrow> Err type_error)"

definition dec_string :: "string decoder" where
  "dec_string j old = (case j of JNull \<Rightarrow> Ok old | JString s \<Rightarrow> Ok s | _ \<Rightarrow> Err type_error)"

definition dec_bool :: "bool decoder" where
  "dec_bool j old = (case j of JNull \<Rightarrow> Ok old | JBool b \<Rightarrow> Ok b | _ \<Rightarrow> Err type_error)"

definition dec_ptr :: "'a \<Rightarrow> 'a decoder \<Rightarrow> 'a option decoder" where
  "dec_ptr zero d j old = (case j of JNull \<Rightarrow> Ok None
     | _ \<Rightarrow> map_sum id Some (d j (case old of None \<Rightarrow> zero | Some v \<Rightarrow> v)))"

fun dec_elems :: "'a \<Rightarrow> 'a decoder \<Rightarrow> json list \<Rightarrow> 'a list result" where
  "dec_elems zero d [] = Ok []"
| "dec_elems zero d (j # js) = (case d j zero of Err e \<Rightarrow> Err e
     | Ok v \<Rightarrow> (case dec_elems zero d js of Err e \<Rightarrow> Err e | Ok vs \<Rightarrow> Ok (v # vs)))"

definition dec_slice :: "'a \<Rightarrow> 'a decoder \<Rightarrow> 'a list decoder" where
  "dec_slice zero d j old = (case j of JNull \<Rightarrow> Ok [] | JArray js \<Rightarrow> dec_elems zero d js
     | _ \<Rightarrow> Err type_error)"

definition lower :: "char \<Rightarrow> char" where
  "lower c = (if 65 \<le> (of_char c :: nat) \<and> (of_char c :: nat) \<le> 90
              then char_of ((of_char c :: nat) + 32) else c)"

definition select_field :: "(string \<times> 'b) list \<Rightarrow> string \<Rightarrow> 'b option" where
  "select_field fs k = (case map_of fs k of Some d \<Rightarrow> Some d
     | None \<Rightarrow> map_option snd (find (\<lambda>(n, d). map lower n = map lower k) fs))"

fun dec_members :: "(string \<times> 'a decoder) list \<Rightarrow> (string \<times> json) list \<Rightarrow> 'a \<Rightarrow> 'a result" where
  "dec_members fs [] v = Ok v"
| "dec_members fs ((k, j) # ms) v = (case select_field fs k of None \<Rightarrow> dec_members fs ms v
     | Some d \<Rightarrow> (case d j v of Err e \<Rightarrow> Err e | Ok v' \<Rightarrow> dec_members fs ms v'))"

definition dec_struct :: "(string \<times> 'a decoder) list \<Rightarrow> 'a decoder" where
  "dec_struct fs j old = (case j of JNull \<Rightarrow> Ok old | JObject ms \<Rightarrow> dec_members fs ms old
     | _ \<Rightarrow> Err type_error)"

text \<open>One field of a struct, by its getter and setter.\<close>

definition field :: "('a \<Rightarrow> 'b) \<Rightarrow> ('b \<Rightarrow> 'a \<Rightarrow> 'a) \<Rightarrow> 'b decoder \<Rightarrow> 'a decoder" where
  "field sel upd d j v = map_sum id (\<lambda>x. upd x v) (d j (sel v))"

definition dec_AdoPool :: "AdoPool decoder" where
  "dec_AdoPool = dec_struct
     [(''id'', field apl_ID (\<lambda>x. apl_ID_update (\<lambda>_. x)) dec_int),
      (''name'', field apl_Name (\<lambda>x. apl_Name_update (\<lambda>_. x)) dec_string)]"

definition dec_PoolList :: "PoolList decoder" where
  "dec_PoolList = dec_struct
     [(''count'', field pl_Count (\<lambda>x. pl_Count_update (\<lambda>_. x)) dec_int),
      (''value'', field pl_Value (\<lambda>x. pl_Value_update (\<lambda>_. x))
         (dec_slice \<lparr>apl_ID = 0, apl_Name = []\<rparr> dec_AdoPool))]"

definition dec_AgentRef :: "AgentRef decoder" where
  "dec_AgentRef = dec_struct
     [(''id'', field ar_ID (\<lambda>x. ar_ID_update (\<lambda>_. x)) dec_int),
      (''name'', field ar_Name (\<lambda>x. ar_Name_update (\<lambda>_. x)) dec_string)]"

definition zero_JobRequest :: JobRequest where
  "zero_JobRequest = \<lparr>jr_RequestID = 0, jr_QueueTime = [], jr_AssignTime = None,
     jr_FinishTime = None, jr_ReservedAgent = None, jr_Demands = []\<rparr>"

definition dec_JobRequest :: "JobRequest decoder" where
  "dec_JobRequest = dec_struct
     [(''requestId'', field jr_RequestID (\<lambda>x. jr_RequestID_update (\<lambda>_. x)) dec_int),
      (''queueTime'', field jr_QueueTime (\<lambda>x. jr_QueueTime_update (\<lambda>_. x)) dec_string),
      (''assignTime'', field jr_AssignTime (\<lambda>x. jr_AssignTime_update (\<lambda>_. x))
         (dec_ptr [] dec_string)),
      (''finishTime'', field jr_FinishTime (\<lambda>x. jr_FinishTime_update (\<lambda>_. x))
         (dec_ptr [] dec_string)),
      (''reservedAgent'', field jr_ReservedAgent (\<lambda>x. jr_ReservedAgent_update (\<lambda>_. x))
         (dec_ptr \<lparr>ar_ID = 0, ar_Name = []\<rparr> dec_AgentRef)),
      (''demands'', field jr_Demands (\<lambda>x. jr_Demands_update (\<lambda>_. x)) (dec_slice [] dec_string))]"

definition dec_JobRequestList :: "JobRequestList decoder" where
  "dec_JobRequestList = dec_struct
     [(''count'', field jl_Count (\<lambda>x. jl_Count_update (\<lambda>_. x)) dec_int),
      (''value'', field jl_Value (\<lambda>x. jl_Value_update (\<lambda>_. x))
         (dec_slice zero_JobRequest dec_JobRequest))]"

definition dec_Agent :: "Agent decoder" where
  "dec_Agent = dec_struct
     [(''id'', field ag_ID (\<lambda>x. ag_ID_update (\<lambda>_. x)) dec_int),
      (''name'', field ag_Name (\<lambda>x. ag_Name_update (\<lambda>_. x)) dec_string),
      (''status'', field ag_Status (\<lambda>x. ag_Status_update (\<lambda>_. x)) dec_string),
      (''enabled'', field ag_Enabled (\<lambda>x. ag_Enabled_update (\<lambda>_. x)) dec_bool)]"

definition dec_AgentList :: "AgentList decoder" where
  "dec_AgentList = dec_struct
     [(''count'', field al_Count (\<lambda>x. al_Count_update (\<lambda>_. x)) dec_int),
      (''value'', field al_Value (\<lambda>x. al_Value_update (\<lambda>_. x))
         (dec_slice \<lparr>ag_ID = 0, ag_Name = [], ag_Status = [], ag_Enabled = False\<rparr> dec_Agent))]"

definition dec_RegisterAgentResponse :: "RegisterAgentResponse decoder" where
  "dec_RegisterAgentResponse = dec_struct
     [(''id'', field rs_ID (\<lambda>x. rs_ID_update (\<lambda>_. x)) dec_int),
      (''name'', field rs_Name (\<lambda>x. rs_Name_update (\<lambda>_. x)) dec_string)]"

text \<open>The registration request as a JSON value; an empty provisioning state is omitted.\<close>

definition enc_RegisterAgentRequest :: "RegisterAgentRequest \<Rightarrow> json" where
  "enc_RegisterAgentRequest r = JObject
     ([(''name'', JString (rq_Name r)), (''version'', JString (rq_Version r)),
       (''osDescription'', JString (rq_OSDescription r)), (''enabled'', JBool (rq_Enabled r))]
      @ (if rq_ProvisioningState r = [] then []
         else [(''provisioningState'', JString (rq_ProvisioningState r))])
      @ [(''systemCapabilities'',
          JObject (map (\<lambda>(k, v). (k, JString v)) (rq_SystemCapabilities r)))])"

section \<open>The client\<close>

record Client =
  cl_TimeoutSeconds :: nat
  cl_authorizationHdr :: string

definition NewClient :: "string \<Rightarrow> Client" where
  "NewClient pat = (let authValue = EncodeToString ('':'' @ pat)
     in \<lparr>cl_TimeoutSeconds = 30, cl_authorizationHdr = ''Basic '' @ authValue\<rparr>)"

definition http_Do :: "'w transport \<Rightarrow> http_request \<Rightarrow> ('w sys, http_response result) go" where
  "http_Do tr req = call (t_Do tr req) (\<lambda>_. HttpDo req)"

definition getJSON ::
    "'w transport \<Rightarrow> Client \<Rightarrow> string \<Rightarrow> 'a decoder \<Rightarrow> 'a \<Rightarrow> ('w sys, 'a result) go" where
  "getJSON tr c url decode zero =
     (case t_RequestErr tr ''GET'' url of
        Some e \<Rightarrow> go_ret (Err (Wrapf ''create request'' e))
      | None \<Rightarrow>
        go_bind (http_Do tr \<lparr>hq_Method = ''GET'', hq_URL = url,
                   hq_Headers = [(''Authorization'', cl_authorizationHdr c),
                                 (''Content-Type'', ''application/json'')],
                   hq_Body = None\<rparr>) (\<lambda>r.
        case r of Err e \<Rightarrow> go_ret (Err (Wrapf ''ADO API call failed'' e))
        | Ok resp \<Rightarrow>
          (case hp_ReadErr resp of
             Some e \<Rightarrow> go_ret (Err (Wrapf ''read response body'' e))
           | None \<Rightarrow>
             if hp_StatusCode resp \<noteq> 200 then
               go_ret (Err (Errorf (''ADO API returned '' @ int_str (hp_StatusCode resp)
                                      @ '': '' @ hp_Data resp)))
             else (case t_JsonParse tr (hp_Data resp) of
                 Err e \<Rightarrow> go_ret (Err (Wrapf ''unmarshal response'' e))
               | Ok j \<Rightarrow> (case decode j zero of
                     Err e \<Rightarrow> go_ret (Err (Wrapf ''unmarshal response'' e))
                   | Ok v \<Rightarrow> go_ret (Ok v))))))"

definition postJSON :: "'w transport \<Rightarrow> Client \<Rightarrow> string \<Rightarrow> json \<Rightarrow> ('w sys, string result) go" where
  "postJSON tr c url body =
     (case t_JsonPrint tr body of
        Err e \<Rightarrow> go_ret (Err (Wrapf ''marshal request body'' e))
      | Ok payload \<Rightarrow>
     (case t_RequestErr tr ''POST'' url of
        Some e \<Rightarrow> go_ret (Err (Wrapf ''create request'' e))
      | None \<Rightarrow>
        go_bind (http_Do tr \<lparr>hq_Method = ''POST'', hq_URL = url,
                   hq_Headers = [(''Authorization'', cl_authorizationHdr c),
                                 (''Content-Type'', ''application/json'')],
                   hq_Body = Some payload\<rparr>) (\<lambda>r.
        case r of Err e \<Rightarrow> go_ret (Err (Wrapf ''ADO API call failed'' e))
        | Ok resp \<Rightarrow>
          (case hp_ReadErr resp of
             Some e \<Rightarrow> go_ret (Err (Wrapf ''read response body'' e))
           | None \<Rightarrow>
             if hp_StatusCode resp < 200 \<or> hp_StatusCode resp \<ge> 300 then
               go_ret (Err (Errorf (''ADO API returned '' @ int_str (hp_StatusCode resp)
                                      @ '': '' @ hp_Data resp)))
             else go_ret (Ok (hp_Data resp))))))"

definition deleteJSON :: "'w transport \<Rightarrow> Client \<Rightarrow> string \<Rightarrow> ('w sys, unit result) go" where
  "deleteJSON tr c url =
     (case t_RequestErr tr ''DELETE'' url of
        Some e \<Rightarrow> go_ret (Err (Wrapf ''create request'' e))
      | None \<Rightarrow>
        go_bind (http_Do tr \<lparr>hq_Method = ''DELETE'', hq_URL = url,
                   hq_Headers = [(''Authorization'', cl_authorizationHdr c)],
                   hq_Body = None\<rparr>) (\<lambda>r.
        case r of Err e \<Rightarrow> go_ret (Err (Wrapf ''ADO API call failed'' e))
        | Ok resp \<Rightarrow>
          if hp_StatusCode resp \<noteq> 204 then
            go_ret (Err (Errorf (''ADO API returned '' @ int_str (hp_StatusCode resp)
                                   @ '': '' @ hp_Data resp)))
          else go_ret (Ok ())))"

text \<open>\<^verbatim>\<open>xs[0]\<close>\<close>

definition index0 :: "'a list \<Rightarrow> ('s, 'a) go" where
  "index0 xs = (case xs of [] \<Rightarrow> go_panic ''index out of range [0] with length 0''
                 | x # _ \<Rightarrow> go_ret x)"

definition GetPoolID ::
    "'w transport \<Rightarrow> Client \<Rightarrow> string \<Rightarrow> string \<Rightarrow> ('w sys, int result) go" where
  "GetPoolID tr c orgURL poolName =
     (let url = orgURL @ ''/_apis/distributedtask/pools?poolName='' @ poolName
                  @ ''&api-version=7.1''
      in go_bind (getJSON tr c url dec_PoolList \<lparr>pl_Count = 0, pl_Value = []\<rparr>) (\<lambda>r.
         case r of Err e \<Rightarrow> go_ret (Err e)
         | Ok poolList \<Rightarrow>
           if pl_Count poolList = 0 then
             go_ret (Err (Errorf (''agent pool '' @ quoted poolName @ '' not found in ADO'')))
           else if pl_Count poolList > 1 then
             go_ret (Err (Errorf (''multiple pools named '' @ quoted poolName
                                    @ '' found (expected 1)'')))
           else go_bind (index0 (pl_Value poolList)) (\<lambda>p. go_ret (Ok (apl_ID p)))))"

text \<open>The loop of \<^verbatim>\<open>GetJobStatus\<close>.\<close>

fun tally_jobs :: "JobRequest list \<Rightarrow> JobStatus \<Rightarrow> JobStatus" where
  "tally_jobs [] status = status"
| "tally_jobs (job # jobs) status =
     (if jr_FinishTime job = None then
        (let status = status\<lparr>js_Pending := js_Pending status + 1\<rparr>
         in tally_jobs jobs
              (case jr_ReservedAgent job of None \<Rightarrow> status
               | Some a \<Rightarrow> status\<lparr>js_BusyAgentNames := (js_BusyAgentNames status)(ar_Name a \<mapsto> True)\<rparr>))
      else tally_jobs jobs status)"

definition GetJobStatus ::
    "'w transport \<Rightarrow> Client \<Rightarrow> string \<Rightarrow> int \<Rightarrow> ('w sys, JobStatus result) go" where
  "GetJobStatus tr c orgURL poolID =
     (let url = orgURL @ ''/_apis/distributedtask/pools/'' @ int_str poolID
                  @ ''/jobrequests?completedRequestCount=0&api-version=7.1''
      in go_bind (getJSON tr c url dec_JobRequestList \<lparr>jl_Count = 0, jl_Value = []\<rparr>) (\<lambda>r.
         case r of Err e \<Rightarrow> go_ret (Err e)
         | Ok jobList \<Rightarrow>
           go_ret (Ok (tally_jobs (jl_Value jobList)
                        \<lparr>js_Pending = 0, js_BusyAgentNames = Map.empty\<rparr>))))"

definition GetAgentByName ::
    "'w transport \<Rightarrow> Client \<Rightarrow> string \<Rightarrow> int \<Rightarrow> string \<Rightarrow> ('w sys, int result) go" where
  "GetAgentByName tr c orgURL poolID name =
     (let url = orgURL @ ''/_apis/distributedtask/pools/'' @ int_str poolID
                  @ ''/agents?agentName='' @ name @ ''&api-version=7.1''
      in go_bind (getJSON tr c url dec_AgentList \<lparr>al_Count = 0, al_Value = []\<rparr>) (\<lambda>r.
         case r of Err e \<Rightarrow> go_ret (Err e)
         | Ok agentList \<Rightarrow>
           if al_Count agentList = 0 then go_ret (Ok 0)
           else go_bind (index0 (al_Value agentList)) (\<lambda>a. go_ret (Ok (ag_ID a)))))"

definition RegisterDummyAgent ::
    "'w transport \<Rightarrow> Client \<Rightarrow> string \<Rightarrow> int \<Rightarrow> string \<Rightarrow> ('w sys, int result) go" where
  "RegisterDummyAgent tr c orgURL poolID name =
     (let req = \<lparr>rq_Name = name, rq_Version = ''2.300.0'', rq_OSDescription = ''Kubernetes'',
                 rq_Enabled = True, rq_ProvisioningState = [],
                 rq_SystemCapabilities = [(''Agent.OS'', ''Linux'')]\<rparr>;
          url = orgURL @ ''/_apis/distributedtask/pools/'' @ int_str poolID
                  @ ''/agents?api-version=7.1''
      in go_bind (postJSON tr c url (enc_RegisterAgentRequest req)) (\<lambda>r.
         case r of Err e \<Rightarrow> go_ret (Err e)
         | Ok respBody \<Rightarrow>
           (case t_JsonParse tr respBody of
              Err e \<Rightarrow> go_ret (Err (Wrapf ''parse agent registration response'' e))
            | Ok j \<Rightarrow> (case dec_RegisterAgentResponse j \<lparr>rs_ID = 0, rs_Name = []\<rparr> of
                  Err e \<Rightarrow> go_ret (Err (Wrapf ''parse agent registration response'' e))
                | Ok resp \<Rightarrow> go_ret (Ok (rs_ID resp))))))"

definition UnregisterAgent ::
    "'w transport \<Rightarrow> Client \<Rightarrow> string \<Rightarrow> int \<Rightarrow> int \<Rightarrow> ('w sys, unit result) go" where
  "UnregisterAgent tr c orgURL poolID agentID =
     deleteJSON tr c (orgURL @ ''/_apis/distributedtask/pools/'' @ int_str poolID
                        @ ''/agents/'' @ int_str agentID @ ''?api-version=7.1'')"

text \<open>\<^verbatim>\<open>*Client\<close> as a value of the interface.\<close>

definition Client_face :: "'w transport \<Rightarrow> Client \<Rightarrow> 'w adoClientFace" where
  "Client_face tr c = \<lparr>ado_GetPoolID = GetPoolID tr c, ado_GetJobStatus = GetJobStatus tr c,
     ado_RegisterDummyAgent = RegisterDummyAgent tr c, ado_UnregisterAgent = UnregisterAgent tr c,
     ado_GetAgentByName = GetAgentByName tr c\<rparr>"

section \<open>The job tally\<close>

definition unfinished :: "JobRequest \<Rightarrow> bool" where
  "unfinished job \<longleftrightarrow> jr_FinishTime job = None"

lemma tally_jobs_pending:
  "js_Pending (tally_jobs jobs st) = js_Pending st + int (length (filter unfinished jobs))"
  by (induction jobs arbitrary: st) (auto simp: unfinished_def Let_def split: option.split)

lemma is_busy_upd [simp]: "is_busy (m(n \<mapsto> b)) n' = (if n' = n then b else is_busy m n')"
  by (simp add: is_busy_def)

lemma is_busy_empty [simp]: "\<not> is_busy Map.empty n"
  by (simp add: is_busy_def)

lemma tally_jobs_busy:
  "is_busy (js_BusyAgentNames (tally_jobs jobs st)) n \<longleftrightarrow>
     is_busy (js_BusyAgentNames st) n
     \<or> (\<exists>job \<in> set jobs. unfinished job \<and> (\<exists>a. jr_ReservedAgent job = Some a \<and> ar_Name a = n))"
  by (induction jobs arbitrary: st) (auto simp: unfinished_def Let_def split: option.split)

definition busy_names :: "JobStatus \<Rightarrow> string set" where
  "busy_names js = {n. is_busy (js_BusyAgentNames js) n}"

definition consistent_status :: "JobStatus \<Rightarrow> bool" where
  "consistent_status js \<longleftrightarrow>
     finite (busy_names js) \<and> int (card (busy_names js)) \<le> js_Pending js"

lemma tally_jobs_consistent:
  "consistent_status (tally_jobs jobs \<lparr>js_Pending = 0, js_BusyAgentNames = Map.empty\<rparr>)"
proof -
  let ?js = "tally_jobs jobs \<lparr>js_Pending = 0, js_BusyAgentNames = Map.empty\<rparr>"
  let ?ns = "\<lambda>job. ar_Name (the (jr_ReservedAgent job))"
  have sub: "busy_names ?js \<subseteq> ?ns ` set (filter unfinished jobs)"
    by (force simp: busy_names_def tally_jobs_busy)
  have "card (busy_names ?js) \<le> card (?ns ` set (filter unfinished jobs))"
    by (rule card_mono [OF _ sub]) simp
  also have "\<dots> \<le> card (set (filter unfinished jobs))"
    by (rule card_image_le) simp
  also have "\<dots> \<le> length (filter unfinished jobs)"
    by (rule card_length)
  finally show ?thesis
    using finite_subset [OF sub] by (simp add: consistent_status_def tally_jobs_pending)
qed

section \<open>The contract of the interface\<close>

fun is_http :: "obs \<Rightarrow> bool" where
  "is_http (HttpDo _) = True"
| "is_http _ = False"

locale ado_service =
  fixes A :: "'w adoClientFace"
  assumes pool_http: "emits is_http (ado_GetPoolID A org name)"
    and jobs_http: "emits is_http (ado_GetJobStatus A org pid)"
    and register_http: "emits is_http (ado_RegisterDummyAgent A org pid name)"
    and unregister_http: "emits is_http (ado_UnregisterAgent A org pid aid)"
    and lookup_http: "emits is_http (ado_GetAgentByName A org pid name)"
    and jobs_return: "completes (ado_GetJobStatus A org pid)"
    and register_returns: "completes (ado_RegisterDummyAgent A org pid name)"
    and unregister_returns: "completes (ado_UnregisterAgent A org pid aid)"
    and jobs_consistent:
      "ado_GetJobStatus A org pid s = (Ret (Ok js), t) \<Longrightarrow> consistent_status js"
begin

lemmas calls_http = pool_http jobs_http register_http unregister_http lookup_http

text \<open>Without pending jobs no agent is busy, so scaling to zero cannot meet a protected pod.\<close>

lemma idle_when_no_jobs:
  assumes "ado_GetJobStatus A org pid s = (Ret (Ok js), t)" and "js_Pending js \<le> 0"
  shows "\<not> is_busy (js_BusyAgentNames js) n"
proof -
  from jobs_consistent [OF assms(1)] have fin: "finite (busy_names js)"
    and "int (card (busy_names js)) \<le> js_Pending js"
    unfolding consistent_status_def by blast+
  with assms(2) have "card (busy_names js) = 0" by linarith
  with fin have "busy_names js = {}" by simp
  then show ?thesis by (auto simp: busy_names_def)
qed

end

lemma emits_http_Do: "P (HttpDo req) \<Longrightarrow> emits P (http_Do tr req)"
  by (simp add: http_Do_def emits_call)

lemma emits_getJSON: "emits is_http (getJSON tr c url decode zero)"
  unfolding getJSON_def by (intro emits_intros emits_http_Do) simp

lemma emits_postJSON: "emits is_http (postJSON tr c url body)"
  unfolding postJSON_def by (intro emits_intros emits_http_Do) simp

lemma emits_deleteJSON: "emits is_http (deleteJSON tr c url)"
  unfolding deleteJSON_def by (intro emits_intros emits_http_Do) simp

lemma emits_index0 [emits_intros]: "emits P (index0 xs)"
  by (simp add: index0_def emits_intros split: list.split)

lemmas emits_json = emits_getJSON emits_postJSON emits_deleteJSON

lemma completes_http_Do [completes_intros]: "completes (http_Do tr req)"
  by (simp add: http_Do_def completes_call)

lemma completes_getJSON [completes_intros]: "completes (getJSON tr c url decode zero)"
  unfolding getJSON_def by (intro completes_intros)

lemma completes_postJSON [completes_intros]: "completes (postJSON tr c url body)"
  unfolding postJSON_def by (intro completes_intros)

lemma completes_deleteJSON [completes_intros]: "completes (deleteJSON tr c url)"
  unfolding deleteJSON_def by (intro completes_intros)

lemma GetJobStatus_tally:
  assumes "GetJobStatus tr c org pid s = (Ret (Ok js), t)"
  shows "\<exists>jobs. js = tally_jobs jobs \<lparr>js_Pending = 0, js_BusyAgentNames = Map.empty\<rparr>"
  using assms
  by (auto simp: GetJobStatus_def go_defs Let_def split: prod.splits outcome.splits sum.splits)

interpretation client: ado_service "Client_face tr c" for tr :: "'w transport" and c
proof
  fix org name pid aid s js t
  show "emits is_http (ado_GetPoolID (Client_face tr c) org name)"
    by (simp add: Client_face_def GetPoolID_def Let_def) (intro emits_intros emits_json)
  show "emits is_http (ado_GetJobStatus (Client_face tr c) org pid)"
    by (simp add: Client_face_def GetJobStatus_def Let_def) (intro emits_intros emits_json)
  show "emits is_http (ado_RegisterDummyAgent (Client_face tr c) org pid name)"
    by (simp add: Client_face_def RegisterDummyAgent_def Let_def) (intro emits_intros emits_json)
  show "emits is_http (ado_UnregisterAgent (Client_face tr c) org pid aid)"
    by (simp add: Client_face_def UnregisterAgent_def emits_json)
  show "emits is_http (ado_GetAgentByName (Client_face tr c) org pid name)"
    by (simp add: Client_face_def GetAgentByName_def Let_def) (intro emits_intros emits_json)
  show "completes (ado_GetJobStatus (Client_face tr c) org pid)"
    by (simp add: Client_face_def GetJobStatus_def Let_def) (intro completes_intros)
  show "completes (ado_RegisterDummyAgent (Client_face tr c) org pid name)"
    by (simp add: Client_face_def RegisterDummyAgent_def Let_def) (intro completes_intros)
  show "completes (ado_UnregisterAgent (Client_face tr c) org pid aid)"
    by (simp add: Client_face_def UnregisterAgent_def) (intro completes_intros)
  assume "ado_GetJobStatus (Client_face tr c) org pid s = (Ret (Ok js), t)"
  then show "consistent_status js"
    using GetJobStatus_tally tally_jobs_consistent by (fastforce simp: Client_face_def)
qed

section \<open>Requests and answers\<close>

definition get_request :: "Client \<Rightarrow> string \<Rightarrow> http_request" where
  "get_request c url = \<lparr>hq_Method = ''GET'', hq_URL = url,
     hq_Headers = [(''Authorization'', cl_authorizationHdr c), (''Content-Type'', ''application/json'')],
     hq_Body = None\<rparr>"

text \<open>The service answers a request with a complete response of status 200 that decodes to a value.\<close>

definition answered :: "'w transport \<Rightarrow> Client \<Rightarrow> string \<Rightarrow> 'a decoder \<Rightarrow> 'a \<Rightarrow> 'w \<Rightarrow> 'a \<Rightarrow> bool" where
  "answered tr c url decode zero w v \<longleftrightarrow> t_RequestErr tr ''GET'' url = None
     \<and> (\<exists>resp j. fst (t_Do tr (get_request c url) w) = Ok resp
          \<and> hp_ReadErr resp = None \<and> hp_StatusCode resp = 200
          \<and> t_JsonParse tr (hp_Data resp) = Ok j \<and> decode j zero = Ok v)"

lemma wp_getJSON:
  "wp (getJSON tr c url decode zero)
     (\<lambda>r t. \<exists>x. r = Ret x
        \<and> (trace t = trace s \<and> (\<exists>e. x = Err e) \<or> trace t = trace s @ [HttpDo (get_request c url)])
        \<and> (\<forall>v. x = Ok v \<longleftrightarrow> answered tr c url decode zero (world s) v)) s"
  unfolding getJSON_def http_Do_def get_request_def [symmetric] answered_def
  by (auto simp: wp_simps split: option.split prod.split sum.split)

lemma wp_getJSON_bind:
  fixes s :: "'w sys"
  assumes "\<And>x t. answered tr c url decode zero (world s) = (\<lambda>v. x = Ok v) \<Longrightarrow> wp (f x) Q t"
  shows "wp (go_bind (getJSON tr c url decode zero) f) Q s"
proof (rule wp_bindI [OF wp_getJSON])
  fix x and t :: "'w sys"
  assume "\<exists>y. Ret x = Ret y
      \<and> (trace t = trace s \<and> (\<exists>e. y = Err e) \<or> trace t = trace s @ [HttpDo (get_request c url)])
      \<and> (\<forall>v. y = Ok v \<longleftrightarrow> answered tr c url decode zero (world s) v)"
  then have "answered tr c url decode zero (world s) = (\<lambda>v. x = Ok v)" by auto
  then show "wp (f x) Q t" by (rule assms)
qed simp

definition jobs_url :: "string \<Rightarrow> int \<Rightarrow> string" where
  "jobs_url org pid = org @ ''/_apis/distributedtask/pools/'' @ int_str pid
     @ ''/jobrequests?completedRequestCount=0&api-version=7.1''"

definition pools_url :: "string \<Rightarrow> string \<Rightarrow> string" where
  "pools_url org name = org @ ''/_apis/distributedtask/pools?poolName='' @ name @ ''&api-version=7.1''"

lemma wp_GetJobStatus:
  "wp (GetJobStatus tr c org pid)
     (\<lambda>r t. \<forall>js. r = Ret (Ok js) \<longleftrightarrow> (\<exists>jl. answered tr c (jobs_url org pid) dec_JobRequestList
        \<lparr>jl_Count = 0, jl_Value = []\<rparr> (world s) jl
        \<and> js = tally_jobs (jl_Value jl) \<lparr>js_Pending = 0, js_BusyAgentNames = Map.empty\<rparr>)) s"
  unfolding GetJobStatus_def Let_def jobs_url_def [symmetric]
  by (rule wp_getJSON_bind) (auto simp: wp_ret split: sum.split)

lemma wp_GetPoolID:
  "wp (GetPoolID tr c org name)
     (\<lambda>r t. let ans = answered tr c (pools_url org name) dec_PoolList \<lparr>pl_Count = 0, pl_Value = []\<rparr> (world s) in
        (\<forall>i. r = Ret (Ok i) \<longleftrightarrow> (\<exists>pl p ps. ans pl \<and> pl_Count pl \<noteq> 0 \<and> pl_Count pl \<le> 1
               \<and> pl_Value pl = p # ps \<and> i = apl_ID p))
        \<and> ((\<exists>msg. r = Panic msg) \<longleftrightarrow> (\<exists>pl. ans pl \<and> pl_Count pl \<noteq> 0 \<and> pl_Count pl \<le> 1 \<and> pl_Value pl = []))) s"
  unfolding GetPoolID_def Let_def pools_url_def [symmetric]
  by (rule wp_getJSON_bind) (auto simp: wp_simps index0_def split: sum.split list.split)

definition agents_url :: "string \<Rightarrow> int \<Rightarrow> string \<Rightarrow> string" where
  "agents_url org pid name = org @ ''/_apis/distributedtask/pools/'' @ int_str pid
     @ ''/agents?agentName='' @ name @ ''&api-version=7.1''"

lemma wp_GetAgentByName:
  "wp (GetAgentByName tr c org pid name)
     (\<lambda>r t. let ans = answered tr c (agents_url org pid name) dec_AgentList \<lparr>al_Count = 0, al_Value = []\<rparr> (world s) in
        (\<forall>i. r = Ret (Ok i) \<longleftrightarrow> (\<exists>al. ans al \<and> (al_Count al = 0 \<and> i = 0
               \<or> al_Count al \<noteq> 0 \<and> (\<exists>a as. al_Value al = a # as \<and> i = ag_ID a))))
        \<and> ((\<exists>msg. r = Panic msg) \<longleftrightarrow> (\<exists>al. ans al \<and> al_Count al \<noteq> 0 \<and> al_Value al = []))) s"
  unfolding GetAgentByName_def Let_def agents_url_def [symmetric]
  by (rule wp_getJSON_bind) (auto simp: wp_simps index0_def split: sum.split list.split)

text \<open>
  List answers carry the number of their elements.  With such a service the two lookups, which
  take the first element after looking at the count only, do not panic.
\<close>

locale counted_answers =
  fixes tr :: "'w transport"
  assumes pools_counted: "answered tr cl (pools_url org name) dec_PoolList \<lparr>pl_Count = 0, pl_Value = []\<rparr> w pl \<Longrightarrow>
      pl_Count pl = int (length (pl_Value pl))"
    and agents_counted: "answered tr cl (agents_url org pid name) dec_AgentList \<lparr>al_Count = 0, al_Value = []\<rparr> w al \<Longrightarrow>
      al_Count al = int (length (al_Value al))"
begin

lemma pool_returns: "completes (GetPoolID tr cl org name)"
  unfolding completes_def
proof
  fix s
  obtain r t where run: "GetPoolID tr cl org name s = (r, t)" by fastforce
  have "r \<noteq> Panic msg" for msg
    using wp_run [OF wp_GetPoolID run] by (auto simp: Let_def dest: pools_counted)
  with run show "\<exists>x t. GetPoolID tr cl org name s = (Ret x, t)" by (cases r) auto
qed

lemma lookup_returns: "completes (GetAgentByName tr cl org pid name)"
  unfolding completes_def
proof
  fix s
  obtain r t where run: "GetAgentByName tr cl org pid name s = (r, t)" by fastforce
  have "r \<noteq> Panic msg" for msg
    using wp_run [OF wp_GetAgentByName run] by (auto simp: Let_def dest: agents_counted)
  with run show "\<exists>x t. GetAgentByName tr cl org pid name s = (Ret x, t)" by (cases r) auto
qed

lemma face_returns:
  "completes (ado_GetPoolID (Client_face tr cl) org name)"
  "completes (ado_GetAgentByName (Client_face tr cl) org pid name)"
  using pool_returns lookup_returns by (simp_all add: Client_face_def)

end

end
