(* ===== verification/Dummy_Agent.thy ===== *)
theory Dummy_Agent
  imports Ado_Client
begin

text \<open>
  The placeholder agent of an empty pool, \<^verbatim>\<open>manageDummyAgent\<close> of
  \<^verbatim>\<open>src/internal/controller/agentpool_controller.go\<close>: with no agents desired an offline agent is
  recovered or registered so that Azure DevOps queues jobs, and it is unregistered when agents come
  up.  The identifier is kept in the status of the pool, which the function updates in place; here
  it returns the updated pool.  The answers of the two registration calls are recorded in the trace
  (\<open>Registered\<close>, \<open>Unregistered\<close>).
\<close>

section \<open>Operations\<close>

definition dummyName :: "AgentPool \<Rightarrow> string" where
  "dummyName pool = ap_Name pool @ ''-dummy''"

abbreviation set_DummyAgentID :: "int32 \<Rightarrow> AgentPool \<Rightarrow> AgentPool" where
  "set_DummyAgentID n pool \<equiv> set_status (\<lambda>st. st\<lparr>st_DummyAgentID := n\<rparr>) pool"

abbreviation DummyAgentID :: "AgentPool \<Rightarrow> int32" where
  "DummyAgentID pool \<equiv> st_DummyAgentID (ap_Status pool)"

text \<open>The second branch: unregister when agents are desired.\<close>

definition unregister_dummy :: "'w adoClientFace \<Rightarrow> AgentPool \<Rightarrow> int32
    \<Rightarrow> ('w sys, AgentPool \<times> unit result) go" where
  "unregister_dummy A pool desired =
     (if of_int32 desired > 0 \<and> DummyAgentID pool \<noteq> 0 then
        go_bind (ado_UnregisterAgent A (sp_OrganizationURL (ap_Spec pool))
                   (of_int32 (st_PoolID (ap_Status pool))) (of_int32 (DummyAgentID pool))) (\<lambda>r.
        go_bind (tell (Unregistered (of_int32 (DummyAgentID pool)) r)) (\<lambda>_.
        case r of
          Err e \<Rightarrow> go_ret (pool, Err (Wrapf ''unregister dummy agent'' e))
        | Ok _ \<Rightarrow>
            go_bind (tell (RecordEvent (ap_Name pool) ''Normal'' ''DummyAgentUnregistered''
                       ''Unregistered dummy agent; real agents are now active'')) (\<lambda>_.
            go_ret (set_DummyAgentID 0 pool, Ok ()))))
      else go_ret (pool, Ok ()))"

text \<open>The end of the first branch: register a new one.\<close>

definition register_dummy :: "'w adoClientFace \<Rightarrow> AgentPool \<Rightarrow> int32
    \<Rightarrow> ('w sys, AgentPool \<times> unit result) go" where
  "register_dummy A pool desired =
     go_bind (ado_RegisterDummyAgent A (sp_OrganizationURL (ap_Spec pool))
                (of_int32 (st_PoolID (ap_Status pool))) (dummyName pool)) (\<lambda>r.
     go_bind (tell (Registered (dummyName pool) r)) (\<lambda>_.
     case r of
       Err e \<Rightarrow> go_ret (pool, Err (Wrapf ''register dummy agent'' e))
     | Ok i \<Rightarrow>
         go_bind (tell (RecordEvent (ap_Name pool) ''Normal'' ''DummyAgentRegistered''
                    (''Registered dummy agent '' @ dummyName pool @ '' (ID: '' @ int_str i
                       @ '') for scale-to-zero''))) (\<lambda>_.
         unregister_dummy A (set_DummyAgentID (to_int32 i) pool) desired)))"

definition manageDummyAgent :: "'w adoClientFace \<Rightarrow> AgentPool \<Rightarrow> int32
    \<Rightarrow> ('w sys, AgentPool \<times> unit result) go" where
  "manageDummyAgent A pool desired =
     (if desired = 0 \<and> DummyAgentID pool = 0 then
        go_bind (ado_GetAgentByName A (sp_OrganizationURL (ap_Spec pool))
                   (of_int32 (st_PoolID (ap_Status pool))) (dummyName pool)) (\<lambda>r.
        case r of
          Err e \<Rightarrow> register_dummy A pool desired
        | Ok i \<Rightarrow>
            if i > 0 then go_ret (set_DummyAgentID (to_int32 i) pool, Ok ())
            else register_dummy A pool desired)
      else unregister_dummy A pool desired)"

section \<open>The placeholder as a state machine\<close>

text \<open>
  The abstract view: the identifier in the status (0 for none), the desired number of agents, the
  registration calls made, the identifier afterwards, and whether the step succeeded.
\<close>

fun is_registration :: "obs \<Rightarrow> bool" where
  "is_registration (Registered _ _) = True"
| "is_registration (Unregistered _ _) = True"
| "is_registration _ = False"

inductive dummy_step :: "string \<Rightarrow> int32 \<Rightarrow> int32 \<Rightarrow> obs list \<Rightarrow> int32 \<Rightarrow> bool \<Rightarrow> bool"
  for name :: string where
  keep: "\<not> (desired = 0 \<and> i = 0) \<Longrightarrow> \<not> (of_int32 desired > 0 \<and> i \<noteq> 0) \<Longrightarrow>
    dummy_step name i desired [] i True"
| recover: "0 < n \<Longrightarrow> dummy_step name 0 0 [] (to_int32 n) True"
| register: "dummy_step name 0 0 [Registered name (Ok n)] (to_int32 n) True"
| register_fails: "dummy_step name 0 0 [Registered name (Err e)] 0 False"
| unregister: "of_int32 desired > 0 \<Longrightarrow> i \<noteq> 0 \<Longrightarrow>
    dummy_step name i desired [Unregistered (of_int32 i) (Ok ())] 0 True"
| unregister_fails: "of_int32 desired > 0 \<Longrightarrow> i \<noteq> 0 \<Longrightarrow>
    dummy_step name i desired [Unregistered (of_int32 i) (Err e)] i False"

inductive_cases dummy_stepE: "dummy_step name i desired calls i' ok"

lemma dummy_step_failed: "dummy_step name i desired calls i' False \<Longrightarrow> i' = i"
  by (auto elim: dummy_stepE)

lemma dummy_step_cleared: "dummy_step name i desired calls i' True \<Longrightarrow> of_int32 desired > 0 \<Longrightarrow> i' = 0"
  by (auto elim: dummy_stepE)

lemma dummy_step_once: "dummy_step name i desired calls i' ok \<Longrightarrow> length calls \<le> 1"
  by (auto elim: dummy_stepE)

text \<open>A sequence of steps with the registration calls they make.\<close>

inductive dummy_run :: "string \<Rightarrow> int32 \<Rightarrow> obs list \<Rightarrow> int32 \<Rightarrow> bool" for name :: string where
  start: "dummy_run name i [] i"
| more: "dummy_run name i calls j \<Longrightarrow> dummy_step name j desired calls' k ok \<Longrightarrow>
    dummy_run name i (calls @ calls') k"

fun balance :: "obs list \<Rightarrow> int" where
  "balance [] = 0"
| "balance (Registered _ (Ok _) # os) = balance os + 1"
| "balance (Unregistered _ (Ok _) # os) = balance os - 1"
| "balance (_ # os) = balance os"

lemma balance_append [simp]: "balance (os @ os') = balance os + balance os'"
  by (induction os rule: balance.induct) auto

text \<open>
  The service numbers its agents from 1 within 32 bits.  Then a run never leaves more than one
  registered placeholder, and none that the status does not name.
\<close>

fun valid_id :: "obs \<Rightarrow> bool" where
  "valid_id (Registered _ (Ok n)) \<longleftrightarrow> 0 < n \<and> n < 2 ^ 31"
| "valid_id _ \<longleftrightarrow> True"

definition valid_ids :: "obs list \<Rightarrow> bool" where
  "valid_ids os \<longleftrightarrow> list_all valid_id os"

lemma to_int32_valid: "0 < n \<Longrightarrow> n < 2 ^ 31 \<Longrightarrow> to_int32 n \<noteq> 0"
  using to_int32_eq_0 [of n] by simp

lemma dummy_run_balance:
  assumes "dummy_run name 0 calls i" and "valid_ids calls"
  shows "balance calls \<le> (if i = 0 then 0 else 1)"
  using assms
proof (induction "0 :: int32" calls i rule: dummy_run.induct)
  case start
  then show ?case by simp
next
  case (more calls j desired calls' k ok)
  from more.prems have "valid_ids calls" "valid_ids calls'" by (auto simp: valid_ids_def)
  with more.hyps(2) have "balance calls \<le> (if j = 0 then 0 else 1)" by blast
  with \<open>valid_ids calls'\<close> show ?case
    by (rule_tac dummy_stepE [OF more.hyps(3)]) (auto simp: valid_ids_def to_int32_valid split: if_splits)
qed

section \<open>Refinement\<close>

text \<open>How a run of the code from \<open>pool\<close> in state \<open>s\<close> appears in the abstract machine.\<close>

definition dummy_refines :: "AgentPool \<Rightarrow> int32 \<Rightarrow> 'w sys \<Rightarrow> (AgentPool \<times> unit result) outcome \<Rightarrow> 'w sys \<Rightarrow> bool"
  where "dummy_refines pool desired s r t \<longleftrightarrow> (case r of Panic _ \<Rightarrow> True
     | Ret (pool', res) \<Rightarrow> (\<exists>i calls. pool' = set_DummyAgentID i pool
         \<and> filter is_registration (trace t) = filter is_registration (trace s) @ calls
         \<and> dummy_step (dummyName pool) (DummyAgentID pool) desired calls i (is_ok res)))"

context ado_service
begin

lemma calls_not_registration:
  "emits (\<lambda>ob. \<not> is_registration ob) (ado_RegisterDummyAgent A org pid name)"
  "emits (\<lambda>ob. \<not> is_registration ob) (ado_UnregisterAgent A org pid aid)"
  "emits (\<lambda>ob. \<not> is_registration ob) (ado_GetAgentByName A org pid name)"
proof -
  have "is_http ob \<Longrightarrow> \<not> is_registration ob" for ob by (cases ob) simp_all
  then show "emits (\<lambda>ob. \<not> is_registration ob) (ado_RegisterDummyAgent A org pid name)"
    "emits (\<lambda>ob. \<not> is_registration ob) (ado_UnregisterAgent A org pid aid)"
    "emits (\<lambda>ob. \<not> is_registration ob) (ado_GetAgentByName A org pid name)"
    by (auto intro: emits_mono [OF register_http] emits_mono [OF unregister_http] emits_mono [OF lookup_http])
qed

lemma same_dummy: "set_DummyAgentID (DummyAgentID pool) pool = pool"
  by simp

lemma wp_unregister_dummy:
  assumes "\<not> (desired = 0 \<and> DummyAgentID pool = 0)"
  shows "wp (unregister_dummy A pool desired) (dummy_refines pool desired s) s"
proof (cases "of_int32 desired > 0 \<and> DummyAgentID pool \<noteq> 0")
  case False
  with assms keep have "dummy_step (dummyName pool) (DummyAgentID pool) desired [] (DummyAgentID pool) True"
    by blast
  then have "dummy_refines pool desired s (Ret (pool, Ok ())) s"
    unfolding dummy_refines_def by (auto intro: exI [of _ "DummyAgentID pool"])
  with False show ?thesis by (auto simp: unregister_dummy_def wp_ret)
next
  case True
  note step = unregister [of desired "DummyAgentID pool" "dummyName pool"]
    unregister_fails [of desired "DummyAgentID pool" "dummyName pool"]
  from True show ?thesis
    unfolding unregister_dummy_def if_P [OF True]
    by (intro wp_bindI [OF wp_filter [OF calls_not_registration(2)]])
       (auto simp: wp_simps dummy_refines_def step intro: exI [of _ "DummyAgentID pool"] split: sum.split)
qed

lemma wp_register_dummy:
  assumes zero: "DummyAgentID pool = 0" and tr: "filter is_registration (trace u) = filter is_registration (trace s)"
  shows "wp (register_dummy A pool 0) (dummy_refines pool 0 s) u"
  unfolding register_dummy_def
proof (rule wp_bindI [OF wp_filter [OF calls_not_registration(1)]])
  fix r and t :: "'w sys"
  assume "filter is_registration (trace t) = filter is_registration (trace u)"
  then show "wp (go_bind (tell (Registered (dummyName pool) r)) (\<lambda>_. case r of
        Err e \<Rightarrow> go_ret (pool, Err (Wrapf ''register dummy agent'' e))
      | Ok i \<Rightarrow> go_bind (tell (RecordEvent (ap_Name pool) ''Normal'' ''DummyAgentRegistered''
                    (''Registered dummy agent '' @ dummyName pool @ '' (ID: '' @ int_str i
                       @ '') for scale-to-zero''))) (\<lambda>_.
          unregister_dummy A (set_DummyAgentID (to_int32 i) pool) 0))) (dummy_refines pool 0 s) t"
    using zero tr register [of "dummyName pool"] register_fails [of "dummyName pool"]
    by (auto simp: wp_simps unregister_dummy_def dummy_refines_def intro: exI [of _ 0] split: sum.split)
qed (simp add: dummy_refines_def)

lemma manageDummyAgent_refines:
  "wp (manageDummyAgent A pool desired) (dummy_refines pool desired s) s"
proof (cases "desired = 0 \<and> DummyAgentID pool = 0")
  case False
  with wp_unregister_dummy show ?thesis by (auto simp: manageDummyAgent_def)
next
  case True
  then show ?thesis
    unfolding manageDummyAgent_def if_P [OF True]
    using recover [of _ "dummyName pool"]
    by (intro wp_bindI [OF wp_filter [OF calls_not_registration(3)]])
       (auto simp: wp_ret dummy_refines_def intro!: wp_register_dummy split: sum.split)
qed

end

section \<open>Successive reconciliations\<close>

text \<open>
  The calls of \<^verbatim>\<open>manageDummyAgent\<close> by successive reconciliations of a pool whose status is kept, one
  for each desired number.
\<close>

primrec manage_rounds :: "'w adoClientFace \<Rightarrow> AgentPool \<Rightarrow> int32 list \<Rightarrow> ('w sys, AgentPool) go" where
  "manage_rounds A pool [] = go_ret pool"
| "manage_rounds A pool (desired # ds) =
     go_bind (manageDummyAgent A pool desired) (\<lambda>(pool, r). manage_rounds A pool ds)"

lemma dummy_run_Cons:
  "dummy_run name j calls k \<Longrightarrow> dummy_step name i d calls0 j ok \<Longrightarrow> dummy_run name i (calls0 @ calls) k"
proof (induction rule: dummy_run.induct)
  case (start j)
  then show ?case using dummy_run.more [OF dummy_run.start start] by simp
next
  case (more j calls k d' calls' l ok')
  then show ?case using dummy_run.more [of name i "calls0 @ calls" k d' calls' l ok'] by simp
qed

context ado_service
begin

lemma manage_rounds_run:
  "wp (manage_rounds A pool ds) (\<lambda>r t. \<forall>pool'. r = Ret pool' \<longrightarrow> (\<exists>calls.
     filter is_registration (trace t) = filter is_registration (trace s) @ calls
     \<and> dummy_run (dummyName pool) (DummyAgentID pool) calls (DummyAgentID pool'))) s"
proof (induction ds arbitrary: pool s)
  case Nil
  then show ?case by (auto simp: wp_ret intro: dummy_run.start)
next
  case (Cons d ds)
  show ?case
    unfolding manage_rounds.simps
  proof (rule wp_bindI [OF manageDummyAgent_refines])
    fix x and t :: "'w sys"
    assume "dummy_refines pool d s (Ret x) t"
    then obtain i calls r where x: "x = (set_DummyAgentID i pool, r)"
      and tr: "filter is_registration (trace t) = filter is_registration (trace s) @ calls"
      and step: "dummy_step (dummyName pool) (DummyAgentID pool) d calls i (is_ok r)"
      by (cases x) (auto simp: dummy_refines_def)
    have name: "dummyName (set_DummyAgentID i pool) = dummyName pool" by (simp add: dummyName_def)
    show "wp (case x of (pool, r) \<Rightarrow> manage_rounds A pool ds) (\<lambda>r t. \<forall>pool'. r = Ret pool' \<longrightarrow> (\<exists>calls.
        filter is_registration (trace t) = filter is_registration (trace s) @ calls
        \<and> dummy_run (dummyName pool) (DummyAgentID pool) calls (DummyAgentID pool'))) t"
      unfolding x prod.case
      by (rule wp_mono [OF Cons.IH])
         (use tr dummy_run_Cons [OF _ step] in \<open>fastforce simp: name\<close>)
  qed simp
qed

end

end
