(* ===== verification/Metrics.thy ===== *)
theory Metrics
  imports Operator_State
begin

text \<open>
  The Prometheus metrics of \<^verbatim>\<open>src/internal/controller/metrics.go\<close>: the three gauges and the error
  counter, identified by namespace, subsystem and name, and the two functions that update them.
  Updates are calls in the trace; \<open>gauge_value\<close> and \<open>counter_value\<close> read from a trace what a scrape
  would report: the last value set, the number of increments.
\<close>

definition activeAgentsGauge :: "string list" where
  "activeAgentsGauge = [''azp'', ''agentpool'', ''active_agents'']"

definition pendingJobsGauge :: "string list" where
  "pendingJobsGauge = [''azp'', ''agentpool'', ''pending_jobs'']"

definition availablePVCsGauge :: "string list" where
  "availablePVCsGauge = [''azp'', ''agentpool'', ''available_pvc_slots'']"

definition reconcileErrorsTotal :: "string list" where
  "reconcileErrorsTotal = [''azp'', ''agentpool'', ''reconcile_errors_total'']"

text \<open>\<^verbatim>\<open>init\<close>: the collectors handed to the registry, in order.\<close>

definition registered_collectors :: "string list list" where
  "registered_collectors =
     [activeAgentsGauge, pendingJobsGauge, availablePVCsGauge, reconcileErrorsTotal]"

definition recordMetrics :: "string \<Rightarrow> string \<Rightarrow> int \<Rightarrow> int \<Rightarrow> int \<Rightarrow> ('w sys, unit) go" where
  "recordMetrics pool namespace active pending availPVCSlots =
     (let labels = [(''pool'', pool), (''namespace'', namespace)]
      in go_bind (tell (GaugeSet activeAgentsGauge labels active)) (\<lambda>_.
         go_bind (tell (GaugeSet pendingJobsGauge labels pending)) (\<lambda>_.
         tell (GaugeSet availablePVCsGauge labels availPVCSlots))))"

definition recordReconcileError :: "string \<Rightarrow> string \<Rightarrow> string \<Rightarrow> ('w sys, unit) go" where
  "recordReconcileError pool namespace reason =
     tell (CounterInc reconcileErrorsTotal
             [(''pool'', pool), (''namespace'', namespace), (''reason'', reason)])"

section \<open>What a scrape reports\<close>

fun gauge_value :: "obs list \<Rightarrow> string list \<Rightarrow> (string \<times> string) list \<Rightarrow> int option" where
  "gauge_value [] g ls = None"
| "gauge_value (ob # os) g ls = (case gauge_value os g ls of Some v \<Rightarrow> Some v
     | None \<Rightarrow> (case ob of GaugeSet g' ls' v \<Rightarrow> if g' = g \<and> ls' = ls then Some v else None
                | _ \<Rightarrow> None))"

fun counter_value :: "obs list \<Rightarrow> string list \<Rightarrow> (string \<times> string) list \<Rightarrow> nat" where
  "counter_value os g ls = length (filter (\<lambda>ob. ob = CounterInc g ls) os)"

lemma gauge_value_append:
  "gauge_value (os @ os') g ls = (case gauge_value os' g ls of Some v \<Rightarrow> Some v
     | None \<Rightarrow> gauge_value os g ls)"
  by (induction os) (auto split: option.split)

lemmas metric_names =
  activeAgentsGauge_def pendingJobsGauge_def availablePVCsGauge_def reconcileErrorsTotal_def

lemma registered_collectors_distinct: "distinct registered_collectors"
  by (simp add: registered_collectors_def metric_names)

fun is_metric :: "obs \<Rightarrow> bool" where
  "is_metric (GaugeSet _ _ _) = True"
| "is_metric (CounterInc _ _) = True"
| "is_metric _ = False"

lemma emits_recordMetrics: "emits is_metric (recordMetrics pool ns a p f)"
  unfolding recordMetrics_def Let_def by (intro emits_intros) simp_all

lemma emits_recordReconcileError: "emits is_metric (recordReconcileError pool ns reason)"
  unfolding recordReconcileError_def by (intro emits_intros) simp

lemma wp_recordReconcileError [wp_simps]:
  "wp (recordReconcileError pool ns reason) Q s \<longleftrightarrow>
     Q (Ret ()) (s\<lparr>trace := trace s @ [CounterInc reconcileErrorsTotal
        [(''pool'', pool), (''namespace'', ns), (''reason'', reason)]]\<rparr>)"
  by (simp add: recordReconcileError_def wp_simps)

lemma recordMetrics_values:
  "wp (recordMetrics pool ns active pending slots)
     (\<lambda>r t. r = Ret ()
        \<and> world t = world s
        \<and> gauge_value (trace t) activeAgentsGauge [(''pool'', pool), (''namespace'', ns)] = Some active
        \<and> gauge_value (trace t) pendingJobsGauge [(''pool'', pool), (''namespace'', ns)] = Some pending
        \<and> gauge_value (trace t) availablePVCsGauge [(''pool'', pool), (''namespace'', ns)] = Some slots) s"
  by (simp add: recordMetrics_def Let_def wp_simps gauge_value_append metric_names)

end
