(* ===== verification/Reconciler.thy ===== *)
theory Reconciler
  imports Agent_Pods Dummy_Agent Metrics
begin

text \<open>
  The control loop, \<^verbatim>\<open>src/internal/controller/agentpool_controller.go\<close>: \<open>Reconcile\<close> with its early
  returns, the deletion handler, the helpers that read the token and resolve the pool, and the
  conditions they set.

  \<open>Reconcile\<close> is one Go function; its body is cut here at four points into definitions that are
  composed in the order of the code: \<open>Reconcile\<close> up to the pool identifier, \<open>reconcile_jobs\<close> for the
  cache pool and the job query, \<open>reconcile_pods\<close> for listing, cleanup and scaling, and
  \<open>reconcile_status\<close> for the dummy agent, the status and the metrics.  The \<open>pool\<close> variable is a
  pointer in Go; here every step that writes to it returns the new value.
\<close>

section \<open>The reconciler\<close>

record 'w AgentPoolReconciler =
  rc_Client :: "'w client"
  rc_Machinery :: "'w machinery"
  rc_Transport :: "'w transport"
  rc_newADOClient :: "(string \<Rightarrow> 'w adoClientFace) option"

record Result =
  res_RequeueAfter :: nat

definition finalizerName :: string where
  "finalizerName = ''agents.amaanx86.github.io/cleanup''"

text \<open>30 seconds.\<close>

definition reconcileInterval :: nat where "reconcileInterval = 30"

type_synonym reconciled = "Result \<times> go_error option"

abbreviation no_requeue :: Result where "no_requeue \<equiv> \<lparr>res_RequeueAfter = 0\<rparr>"

abbreviation requeue :: Result where "requeue \<equiv> \<lparr>res_RequeueAfter = reconcileInterval\<rparr>"

definition setCondition :: "'w machinery \<Rightarrow> AgentPool \<Rightarrow> string \<Rightarrow> ConditionStatus \<Rightarrow> string \<Rightarrow> string
    \<Rightarrow> AgentPool" where
  "setCondition m pool condType status reason message =
     set_status (\<lambda>st. st\<lparr>st_Conditions := m_SetStatusCondition m (st_Conditions st)
       \<lparr>cond_Type = condType, cond_Status = status, cond_ObservedGeneration = ap_Generation pool,
        cond_Reason = reason, cond_Message = message\<rparr>\<rparr>) pool"

definition buildADOClient :: "'w AgentPoolReconciler \<Rightarrow> string \<Rightarrow> 'w adoClientFace" where
  "buildADOClient R pat =
     (case rc_newADOClient R of Some new \<Rightarrow> new pat
      | None \<Rightarrow> Client_face (rc_Transport R) (NewClient pat))"

text \<open>
  Set the \<^verbatim>\<open>Available\<close> condition to false and try to store it; an error is ignored.  The result is the
  pool variable afterwards.
\<close>

definition fail_condition :: "'w client \<Rightarrow> 'w machinery \<Rightarrow> AgentPool \<Rightarrow> string \<Rightarrow> string
    \<Rightarrow> ('w sys, AgentPool) go" where
  "fail_condition c m pool reason message =
     (let pool = setCondition m pool ''Available'' ConditionFalse reason message
      in go_bind (r_UpdateStatus c pool) (\<lambda>r.
         go_ret (case r of Err e \<Rightarrow> pool | Ok pool' \<Rightarrow> pool')))"

definition fetchPAT :: "'w client \<Rightarrow> 'w machinery \<Rightarrow> AgentPool \<Rightarrow> ('w sys, string option) go" where
  "fetchPAT c m pool =
     (let ref = sp_TokenSecretRef (ap_Spec pool)
      in go_bind (r_GetSecret c \<lparr>nn_Namespace = ap_Namespace pool, nn_Name = sks_Name ref\<rparr>) (\<lambda>r.
         case r of
           Err e \<Rightarrow>
             go_bind (fail_condition c m pool ''SecretNotFound''
                        (''Could not read secret '' @ quoted (sks_Name ref) @ '': '' @ error_text e)) (\<lambda>_.
             go_ret None)
         | Ok secret \<Rightarrow>
             (case map_get (sec_Data secret) (sks_Key ref) of
                None \<Rightarrow>
                  go_bind (fail_condition c m pool ''SecretKeyMissing''
                             (''Key '' @ quoted (sks_Key ref) @ '' not found in secret ''
                                @ quoted (sks_Name ref))) (\<lambda>_.
                  go_ret None)
              | Some patBytes \<Rightarrow> go_ret (Some patBytes))))"

text \<open>The pool after a successful resolution is the object the status update returned.\<close>

definition resolvePoolID :: "'w client \<Rightarrow> 'w machinery \<Rightarrow> AgentPool \<Rightarrow> 'w adoClientFace
    \<Rightarrow> ('w sys, AgentPool option) go" where
  "resolvePoolID c m pool A =
     go_bind (ado_GetPoolID A (sp_OrganizationURL (ap_Spec pool)) (sp_PoolName (ap_Spec pool))) (\<lambda>r.
     case r of
       Err e \<Rightarrow>
         go_bind (fail_condition c m pool ''PoolResolutionFailed''
                    (''Could not find ADO pool '' @ quoted (sp_PoolName (ap_Spec pool)) @ '': ''
                       @ error_text e)) (\<lambda>_.
         go_ret None)
     | Ok poolID \<Rightarrow>
         go_bind (r_UpdateStatus c (set_status (\<lambda>st. st\<lparr>st_PoolID := to_int32 poolID\<rparr>) pool)) (\<lambda>r.
         case r of Err e \<Rightarrow> go_ret None | Ok pool' \<Rightarrow> go_ret (Some pool')))"

section \<open>Deletion\<close>

text \<open>The attempt to unregister the dummy agent; no failure stops the deletion.\<close>

definition unregister_on_deletion :: "'w AgentPoolReconciler \<Rightarrow> AgentPool \<Rightarrow> ('w sys, unit) go" where
  "unregister_on_deletion R pool =
     (if DummyAgentID pool \<noteq> 0 then
        (let ref = sp_TokenSecretRef (ap_Spec pool)
         in go_bind (r_GetSecret (rc_Client R)
                       \<lparr>nn_Namespace = ap_Namespace pool, nn_Name = sks_Name ref\<rparr>) (\<lambda>r.
            case r of
              Err e \<Rightarrow> go_ret ()
            | Ok secret \<Rightarrow>
                (case map_get (sec_Data secret) (sks_Key ref) of
                   None \<Rightarrow> go_ret ()
                 | Some patBytes \<Rightarrow>
                     go_bind (ado_UnregisterAgent (buildADOClient R patBytes)
                        (sp_OrganizationURL (ap_Spec pool)) (of_int32 (st_PoolID (ap_Status pool)))
                        (of_int32 (DummyAgentID pool))) (\<lambda>r.
                     tell (Unregistered (of_int32 (DummyAgentID pool)) r)))))
      else go_ret ())"

definition handleDeletion :: "'w AgentPoolReconciler \<Rightarrow> AgentPool \<Rightarrow> ('w sys, reconciled) go" where
  "handleDeletion R pool =
     (if \<not> m_ContainsFinalizer (rc_Machinery R) pool finalizerName then go_ret (no_requeue, None)
      else
        go_bind (unregister_on_deletion R pool) (\<lambda>_.
        go_bind (r_UpdatePool (rc_Client R) (m_RemoveFinalizer (rc_Machinery R) pool finalizerName)) (\<lambda>r.
        case r of Err e \<Rightarrow> go_ret (no_requeue, Some e)
        | Ok _ \<Rightarrow> go_ret (no_requeue, None))))"

section \<open>Scaling\<close>

text \<open>The scale-up loop: at most \<open>n\<close> more pods, stopping at the first failure.\<close>

primrec create_loop :: "'w client \<Rightarrow> 'w machinery \<Rightarrow> AgentPool \<Rightarrow> string \<Rightarrow> nat \<Rightarrow> int
    \<Rightarrow> ('w sys, int) go" where
  "create_loop c m pool ns 0 created = go_ret created"
| "create_loop c m pool ns (Suc n) created =
     go_bind (createAgentPod c m pool) (\<lambda>r.
     case r of
       Err e \<Rightarrow>
         go_bind (recordReconcileError (ap_Name pool) ns ''PodCreateFailed'') (\<lambda>_.
         go_ret created)
     | Ok _ \<Rightarrow> create_loop c m pool ns n (created + 1))"

text \<open>Scale up, then scale down; the result is the new count of active pods.\<close>

definition reconcile_scale :: "'w client \<Rightarrow> 'w machinery \<Rightarrow> AgentPool \<Rightarrow> string \<Rightarrow> int \<Rightarrow> Pod list \<Rightarrow> int32
    \<Rightarrow> (string \<rightharpoonup> bool) \<Rightarrow> ('w sys, int) go" where
  "reconcile_scale c m pool ns activeCount activePods desired busyAgentNames =
     (let toCreate = of_int32 desired - activeCount
      in go_bind (create_loop c m pool ns (nat toCreate) 0) (\<lambda>created.
         let activeCount = activeCount + created;
             toDelete = activeCount - of_int32 desired
         in if toDelete > 0 then
              go_bind (scaleDown c pool activePods toDelete busyAgentNames) (\<lambda>deleted.
              go_ret (activeCount - deleted))
            else go_ret activeCount))"

section \<open>Reconcile\<close>

definition reconcile_status :: "'w AgentPoolReconciler \<Rightarrow> NamespacedName \<Rightarrow> AgentPool \<Rightarrow> 'w adoClientFace
    \<Rightarrow> JobStatus \<Rightarrow> int32 \<Rightarrow> int \<Rightarrow> ('w sys, reconciled) go" where
  "reconcile_status R req pool A jobStatus desired activeCount =
     go_bind (manageDummyAgent A pool desired) (\<lambda>(pool, r).
     go_bind (case r of Err e \<Rightarrow> recordReconcileError (ap_Name pool) (nn_Namespace req) ''DummyAgentFailed''
              | Ok _ \<Rightarrow> go_ret ()) (\<lambda>_.
     go_bind (countFreePVCSlots (rc_Client R) pool) (\<lambda>r.
     let freePVCSlots = (case r of Err e \<Rightarrow> 0 | Ok n \<Rightarrow> n);
         pool = set_status (\<lambda>st. st\<lparr>st_ActiveAgents := Some (to_int32 activeCount),
                                    st_PendingJobs := Some (to_int32 (js_Pending jobStatus))\<rparr>) pool;
         pool = setCondition (rc_Machinery R) pool ''Available'' ConditionTrue ''Reconciled''
                  (int_str activeCount @ '' agent(s) active, '' @ int_str (js_Pending jobStatus)
                     @ '' job(s) pending'')
     in go_bind (r_UpdateStatus (rc_Client R) pool) (\<lambda>r.
        case r of
          Err e \<Rightarrow> go_ret (no_requeue, Some e)
        | Ok pool \<Rightarrow>
            go_bind (recordMetrics (ap_Name pool) (nn_Namespace req) activeCount
                       (js_Pending jobStatus) freePVCSlots) (\<lambda>_.
            go_ret (requeue, None))))))"

definition reconcile_pods :: "'w AgentPoolReconciler \<Rightarrow> NamespacedName \<Rightarrow> AgentPool \<Rightarrow> 'w adoClientFace
    \<Rightarrow> JobStatus \<Rightarrow> ('w sys, reconciled) go" where
  "reconcile_pods R req pool A jobStatus =
     go_bind (r_ListPods (rc_Client R) (nn_Namespace req) [(labelPoolName, ap_Name pool)]) (\<lambda>r.
     case r of
       Err e \<Rightarrow> go_ret (no_requeue, Some e)
     | Ok pods \<Rightarrow>
         go_bind (cleanupCompletedPods (rc_Client R) (rc_Machinery R) pool pods) (\<lambda>_.
         let (activeCount, activePods) = countActivePods pods;
             desired = clamp (to_int32 (js_Pending jobStatus)) (sp_MinAgents (ap_Spec pool))
                         (sp_MaxAgents (ap_Spec pool))
         in go_bind (reconcile_scale (rc_Client R) (rc_Machinery R) pool (nn_Namespace req)
                       activeCount activePods desired (js_BusyAgentNames jobStatus)) (\<lambda>activeCount.
            reconcile_status R req pool A jobStatus desired activeCount)))"

definition reconcile_jobs :: "'w AgentPoolReconciler \<Rightarrow> NamespacedName \<Rightarrow> AgentPool \<Rightarrow> 'w adoClientFace
    \<Rightarrow> ('w sys, reconciled) go" where
  "reconcile_jobs R req pool A =
     go_bind (ensurePVCPool (rc_Client R) (rc_Machinery R) pool) (\<lambda>r.
     go_bind (case r of Err e \<Rightarrow> recordReconcileError (ap_Name pool) (nn_Namespace req) ''PVCPoolFailed''
              | Ok _ \<Rightarrow> go_ret ()) (\<lambda>_.
     go_bind (ado_GetJobStatus A (sp_OrganizationURL (ap_Spec pool))
                (of_int32 (st_PoolID (ap_Status pool)))) (\<lambda>r.
     go_bind (tell (GotJobStatus r)) (\<lambda>_.
     case r of
       Err e \<Rightarrow>
         go_bind (fail_condition (rc_Client R) (rc_Machinery R) pool ''JobStatusQueryFailed''
                    (''ADO API error: '' @ error_text e)) (\<lambda>pool.
         go_bind (recordReconcileError (ap_Name pool) (nn_Namespace req) ''ADOQueryFailed'') (\<lambda>_.
         go_ret (requeue, None)))
     | Ok jobStatus \<Rightarrow> reconcile_pods R req pool A jobStatus))))"

definition reconcile_pool :: "'w AgentPoolReconciler \<Rightarrow> NamespacedName \<Rightarrow> AgentPool
    \<Rightarrow> ('w sys, reconciled) go" where
  "reconcile_pool R req pool =
     go_bind (fetchPAT (rc_Client R) (rc_Machinery R) pool) (\<lambda>r.
     case r of
       None \<Rightarrow> go_ret (requeue, None)
     | Some pat \<Rightarrow>
         (let A = buildADOClient R pat
          in if st_PoolID (ap_Status pool) = 0 then
               go_bind (resolvePoolID (rc_Client R) (rc_Machinery R) pool A) (\<lambda>r.
               case r of None \<Rightarrow> go_ret (requeue, None)
               | Some pool \<Rightarrow> reconcile_jobs R req pool A)
             else reconcile_jobs R req pool A))"

definition Reconcile :: "'w AgentPoolReconciler \<Rightarrow> NamespacedName \<Rightarrow> ('w sys, reconciled) go" where
  "Reconcile R req =
     go_bind (r_GetPool (rc_Client R) req) (\<lambda>r.
     case r of
       Err e \<Rightarrow> go_ret (no_requeue, m_IgnoreNotFound (rc_Machinery R) e)
     | Ok pool \<Rightarrow>
         if ap_DeletionTimestamp pool \<noteq> None then handleDeletion R pool
         else if \<not> m_ContainsFinalizer (rc_Machinery R) pool finalizerName then
           go_bind (r_UpdatePool (rc_Client R)
                      (m_AddFinalizer (rc_Machinery R) pool finalizerName)) (\<lambda>r.
           case r of Err e \<Rightarrow> go_ret (no_requeue, Some e) | Ok _ \<Rightarrow> go_ret (no_requeue, None))
         else reconcile_pool R req pool)"

text \<open>
  The reconciler that \<^verbatim>\<open>src/cmd/main.go\<close> registers with the manager: no client constructor is
  injected, so the Azure DevOps client is the one of this repository.
\<close>

definition operator :: "'w client \<Rightarrow> 'w machinery \<Rightarrow> 'w transport \<Rightarrow> 'w AgentPoolReconciler" where
  "operator c m tr = \<lparr>rc_Client = c, rc_Machinery = m, rc_Transport = tr, rc_newADOClient = None\<rparr>"

end
