(* ===== verification/Reconcile_Facts.thy ===== *)
theory Reconcile_Facts
  imports Reconciler
begin

text \<open>
  What a reconciliation does whatever the API server, the network and the Azure DevOps service
  answer.  The scaling step creates no more pods than are missing, deletes no more than are in
  excess, and never does both; the deletions of a reconciliation concern completed pods or pods that
  the job query of the same reconciliation reports idle; every failure on the way ends in a requeue
  or in an error; deletion of the pool always reaches the finalizer.
\<close>

section \<open>Scaling\<close>

lemma wp_create_loop:
  "wp (create_loop c m pool ns n k)
     (\<lambda>r t. \<exists>ps. created_by m pool s t ps \<and> length ps \<le> n
        \<and> (\<forall>j. r = Ret j \<longrightarrow> j = k + int (length ps))) s"
proof (induction n arbitrary: k s)
  case 0
  then show ?case by (auto simp: wp_ret intro!: exI [of _ "[]"])
next
  case (Suc n)
  let ?Q = "\<lambda>r t. \<exists>ps. created_by m pool s t ps \<and> length ps \<le> Suc n
        \<and> (\<forall>j. r = Ret j \<longrightarrow> j = k + int (length ps))"
  show ?case
    unfolding create_loop.simps
  proof (rule wp_bindI [OF wp_createAgentPod])
    fix r and t :: "'a sys"
    assume "\<exists>ps. created_by m pool s t ps \<and> length ps = (if Ret r = Ret (Ok ()) then 1 else 0)"
    then obtain ps where ps: "created_by m pool s t ps" "length ps = (if r = Ok () then 1 else 0)"
      by auto
    show "wp (case r of Err e \<Rightarrow> go_bind (recordReconcileError (ap_Name pool) ns ''PodCreateFailed'')
          (\<lambda>_. go_ret k) | Ok _ \<Rightarrow> create_loop c m pool ns n (k + 1)) ?Q t"
    proof (cases r)
      case (Inl e)
      with ps show ?thesis by (auto simp: wp_simps created_by_def intro!: exI [of _ "[]"])
    next
      case (Inr u)
      with ps(2) have one: "length ps = 1" by simp
      have "wp (create_loop c m pool ns n (k + 1)) ?Q t"
      proof (rule wp_mono [OF Suc.IH])
        fix r u
        assume "\<exists>qs. created_by m pool t u qs \<and> length qs \<le> n \<and> (\<forall>j. r = Ret j \<longrightarrow> j = k + 1 + int (length qs))"
        then obtain qs where qs: "created_by m pool t u qs" "length qs \<le> n"
          "\<forall>j. r = Ret j \<longrightarrow> j = k + 1 + int (length qs)" by blast
        have "length (ps @ qs) \<le> Suc n" using one qs(2) by simp
        moreover have "\<forall>j. r = Ret j \<longrightarrow> j = k + int (length (ps @ qs))" using one qs(3) by (simp add: add.assoc)
        ultimately show "?Q r u" using created_by_trans [OF ps(1) qs(1)] by blast
      qed
      with Inr show ?thesis by simp
    qed
  next
    fix msg and t :: "'a sys"
    assume "\<exists>ps. created_by m pool s t ps \<and> length ps = (if Panic msg = Ret (Ok ()) then 1 else 0)"
    then show "?Q (Panic msg) t" by (auto intro: exI [of _ "[]"])
  qed
qed

text \<open>Creation makes no deletion, deletion no creation.\<close>

fun launch_call :: "obs \<Rightarrow> bool" where
  "launch_call (CreatePod _ _) = True"
| "launch_call (RecordEvent _ _ _ _) = True"
| "launch_call (CounterInc _ _) = True"
| "launch_call ob = is_pvc_call ob"

lemma pvc_call_launch: "is_pvc_call ob \<Longrightarrow> launch_call ob"
  by (cases ob) simp_all

lemma emits_launch_pod: "emits launch_call (launch_pod c m pool podName asg)"
proof -
  have "emits launch_call (rollbackAssignedPVCs c m ns asg)" for ns
    by (rule emits_mono [OF emits_rollback]) (rule pvc_call_launch)
  then show ?thesis
    unfolding launch_pod_def call_defs by (auto intro!: emits_intros split: sum.split)
qed

lemma emits_createAgentPod: "emits launch_call (createAgentPod c m pool)"
proof -
  have "emits launch_call (findAndAssignPVCs c m pool podName)" for podName
    by (rule emits_mono [OF emits_findAndAssign]) (rule pvc_call_launch)
  then show ?thesis
    unfolding createAgentPod_def by (auto intro!: emits_intros emits_agent_pod_name emits_launch_pod)
qed

lemma emits_create_loop: "emits launch_call (create_loop c m pool ns n k)"
  by (induction n arbitrary: k)
     (auto simp: recordReconcileError_def intro!: emits_intros emits_createAgentPod)

lemma launch_call_not_delete: "launch_call ob \<Longrightarrow> \<not> is_delete ob"
  by (cases ob) simp_all

lemmas emits_create_loop_no_delete = emits_mono [OF emits_create_loop launch_call_not_delete]

lemma deleted_ok_is_delete: "deleted_ok ob \<Longrightarrow> is_delete ob"
  by (cases ob) simp_all

lemma emits_not_deleted: "emits (\<lambda>ob. \<not> is_delete ob) p \<Longrightarrow> emits (\<lambda>ob. \<not> deleted_ok ob) p"
  by (erule emits_mono) (auto dest: deleted_ok_is_delete)

lemma emits_scaleDown_not_created: "emits (\<lambda>ob. \<not> created_ok ob) (scaleDown c pool pods n busy)"
proof (rule emits_mono [OF emits_scaleDown])
  show "idle_delete busy (set pods) ob \<Longrightarrow> \<not> created_ok ob" for ob by (cases ob) simp_all
qed

lemma created_by_same:
  "created_by m pool s t ps \<Longrightarrow> filter created_ok (trace u) = filter created_ok (trace t) \<Longrightarrow>
     created_by m pool s u ps"
  by (simp add: created_by_def)

text \<open>
  The whole scaling step.  With fewer pods than desired it only creates, at most the missing ones;
  with more it only deletes, at most the excess.
\<close>

lemma wp_reconcile_scale:
  "wp (reconcile_scale c m pool ns n pods desired busy)
     (\<lambda>r t. \<exists>ps k. created_by m pool s t ps \<and> deletions t = deletions s + k
        \<and> int (length ps) \<le> max 0 (of_int32 desired - n) \<and> 0 \<le> k \<and> k \<le> max 0 (n - of_int32 desired)
        \<and> (\<forall>j. r = Ret j \<longrightarrow> j = n + int (length ps) - k)) s"
proof -
  let ?d = "of_int32 desired"
  let ?P = "\<lambda>r t. (\<exists>ps. created_by m pool s t ps \<and> length ps \<le> nat (?d - n)
        \<and> (\<forall>j. r = Ret j \<longrightarrow> j = 0 + int (length ps)))
      \<and> filter deleted_ok (trace t) = filter deleted_ok (trace s)"
  let ?Q = "\<lambda>r t. \<exists>ps k. created_by m pool s t ps \<and> deletions t = deletions s + k
        \<and> int (length ps) \<le> max 0 (?d - n) \<and> 0 \<le> k \<and> k \<le> max 0 (n - ?d)
        \<and> (\<forall>j. r = Ret j \<longrightarrow> j = n + int (length ps) - k)"
  have "wp (create_loop c m pool ns (nat (?d - n)) 0) ?P s"
    by (intro wp_conj wp_create_loop wp_filter emits_not_deleted emits_create_loop_no_delete)
  then show ?thesis
    unfolding reconcile_scale_def Let_def
  proof (rule wp_bindI)
    fix created and t :: "'a sys"
    assume "?P (Ret created) t"
    then obtain ps where ps: "created_by m pool s t ps" "length ps \<le> nat (?d - n)"
      "created = int (length ps)" and del: "deletions t = deletions s"
      by (auto simp: deletions_def)
    have down: "wp (scaleDown c pool pods (n + created - ?d) busy)
        (\<lambda>r u. (\<exists>j. r = Ret (0 + j) \<and> 0 \<le> j \<and> j \<le> max 0 (n + created - ?d - 0)
            \<and> deletions u = deletions t + j)
          \<and> filter created_ok (trace u) = filter created_ok (trace t)) t"
      unfolding scaleDown_def
      by (intro wp_conj wp_scale_down_loop wp_filter emits_scaleDown_not_created [unfolded scaleDown_def])
    have bound: "max 0 (n + created - ?d) \<le> max 0 (n - ?d)" using ps(2,3) by auto
    show "wp (if n + created - ?d > 0 then
          go_bind (scaleDown c pool pods (n + created - ?d) busy) (\<lambda>deleted. go_ret (n + created - deleted))
        else go_ret (n + created)) ?Q t"
    proof (cases "n + created - ?d > 0")
      case True
      have "wp (go_bind (scaleDown c pool pods (n + created - ?d) busy)
          (\<lambda>deleted. go_ret (n + created - deleted))) ?Q t"
      proof (rule wp_bindI [OF down])
        fix x :: int and u :: "'a sys"
        assume "(\<exists>j. Ret x = Ret (0 + j) \<and> 0 \<le> j \<and> j \<le> max 0 (n + created - ?d - 0)
              \<and> deletions u = deletions t + j) \<and> filter created_ok (trace u) = filter created_ok (trace t)"
        then have x: "0 \<le> x" "x \<le> max 0 (n + created - ?d)" "deletions u = deletions s + x"
          and same: "filter created_ok (trace u) = filter created_ok (trace t)"
          using del by simp_all
        from x(2) bound have "x \<le> max 0 (n - ?d)" by (rule order_trans)
        with x ps created_by_same [OF ps(1) same] show "wp (go_ret (n + created - x)) ?Q u"
          unfolding wp_ret by (intro exI [of _ ps] exI [of _ x]) simp
      qed auto
      with True show ?thesis by simp
    next
      case False
      have "?Q (Ret (n + created)) t"
        using ps del by (intro exI [of _ ps] exI [of _ 0]) auto
      with False show ?thesis by (simp add: wp_ret)
    qed
  next
    fix msg and t :: "'a sys"
    assume "?P (Panic msg) t"
    then obtain ps where "created_by m pool s t ps" "length ps \<le> nat (?d - n)" "deletions t = deletions s"
      by (auto simp: deletions_def)
    then show "?Q (Panic msg) t" by (intro exI [of _ ps] exI [of _ 0]) auto
  qed
qed

text \<open>The scale-up loop creates all pods it is asked for, or counts a failure.\<close>

abbreviation create_failure :: "AgentPool \<Rightarrow> string \<Rightarrow> obs" where
  "create_failure pool ns \<equiv> CounterInc reconcileErrorsTotal
     [(''pool'', ap_Name pool), (''namespace'', ns), (''reason'', ''PodCreateFailed'')]"

lemma wp_create_loop_exact:
  "wp (create_loop c m pool ns n k)
     (\<lambda>r t. \<exists>os. trace t = trace s @ os
        \<and> (\<forall>j. r = Ret j \<longrightarrow> create_failure pool ns \<in> set os \<or> j = k + int n)) s"
proof (induction n arbitrary: k s)
  case 0
  then show ?case by (simp add: wp_ret)
next
  case (Suc n)
  let ?Q = "\<lambda>r t. \<exists>os. trace t = trace s @ os
        \<and> (\<forall>j. r = Ret j \<longrightarrow> create_failure pool ns \<in> set os \<or> j = k + int (Suc n))"
  show ?case
    unfolding create_loop.simps
  proof (rule wp_bindI [OF emits_wp [OF emits_createAgentPod]])
    fix r and t :: "'a sys"
    assume "\<exists>os. trace t = trace s @ os \<and> list_all launch_call os"
    then obtain os where os: "trace t = trace s @ os" by blast
    show "wp (case r of Err e \<Rightarrow> go_bind (recordReconcileError (ap_Name pool) ns ''PodCreateFailed'')
          (\<lambda>_. go_ret k) | Ok _ \<Rightarrow> create_loop c m pool ns n (k + 1)) ?Q t"
    proof (cases r)
      case (Inl e)
      with os show ?thesis by (auto simp: wp_simps)
    next
      case (Inr u)
      have "wp (create_loop c m pool ns n (k + 1)) ?Q t"
        by (rule wp_mono [OF Suc.IH]) (use os in \<open>force simp: add.assoc\<close>)
      with Inr show ?thesis by simp
    qed
  qed auto
qed

text \<open>
  Without a failed creation or deletion the step reaches the desired number, or deletes every idle
  pod of the excess.
\<close>

lemma wp_reconcile_scale_exact:
  "wp (reconcile_scale c m pool ns n pods desired busy)
     (\<lambda>r t. \<exists>os. trace t = trace s @ os
        \<and> (\<forall>j. r = Ret j \<longrightarrow> create_failure pool ns \<in> set os \<or> list_ex failed_delete os
             \<or> j = (if n \<le> of_int32 desired then of_int32 desired
                    else n - min (n - of_int32 desired) (int (length (idle busy pods)))))) s"
proof -
  let ?d = "of_int32 desired"
  let ?goal = "if n \<le> ?d then ?d else n - min (n - ?d) (int (length (idle busy pods)))"
  let ?Q = "\<lambda>r t. \<exists>os. trace t = trace s @ os
        \<and> (\<forall>j. r = Ret j \<longrightarrow> create_failure pool ns \<in> set os \<or> list_ex failed_delete os \<or> j = ?goal)"
  show ?thesis
    unfolding reconcile_scale_def Let_def
  proof (rule wp_bindI [OF wp_create_loop_exact])
    fix created :: int and t :: "'a sys"
    assume "\<exists>os. trace t = trace s @ os \<and> (\<forall>j. Ret created = Ret j \<longrightarrow>
        create_failure pool ns \<in> set os \<or> j = 0 + int (nat (?d - n)))"
    then obtain os where os: "trace t = trace s @ os"
      and created: "create_failure pool ns \<in> set os \<or> created = int (nat (?d - n))" by auto
    have "wp (go_bind (scaleDown c pool pods (n + created - ?d) busy)
        (\<lambda>deleted. go_ret (n + created - deleted))) ?Q t" if "n + created - ?d > 0"
      unfolding scaleDown_def
    proof (rule wp_bindI [OF wp_scale_down_exact])
      fix x :: int and u :: "'a sys"
      assume "\<exists>os'. trace u = trace t @ os' \<and> (list_ex failed_delete os'
          \<or> (delete_targets os' = take (nat (n + created - ?d - 0)) (idle busy pods)
              \<and> Ret x = Ret (0 + int (length (delete_targets os')))))"
      then obtain os' where os': "trace u = trace t @ os'" "list_ex failed_delete os'
          \<or> x = int (min (length (idle busy pods)) (nat (n + created - ?d)))" by auto
      have "x = int (min (length (idle busy pods)) (nat (n + created - ?d))) \<Longrightarrow>
          created = int (nat (?d - n)) \<Longrightarrow> n + created - x = ?goal"
        using that by (auto simp: min_def split: if_splits)
      with os os' created show "wp (go_ret (n + created - x)) ?Q u"
        by (auto simp: wp_ret)
    qed (use os in auto)
    moreover have "?Q (Ret (n + created)) t" if "\<not> n + created - ?d > 0"
      using os created that by auto
    ultimately show "wp (if n + created - ?d > 0 then
          go_bind (scaleDown c pool pods (n + created - ?d) busy) (\<lambda>deleted. go_ret (n + created - deleted))
        else go_ret (n + created)) ?Q t" by (simp add: wp_ret)
  qed auto
qed

section \<open>Deletions are guarded by the job query\<close>

text \<open>
  Reading a trace from the left with the last job status: a deletion is allowed when the query has
  been answered and the pod is completed, or active and idle in that answer.
\<close>

fun guarded :: "JobStatus option \<Rightarrow> obs list \<Rightarrow> bool" where
  "guarded js [] \<longleftrightarrow> True"
| "guarded js (GotJobStatus r # os) \<longleftrightarrow> guarded (case r of Err _ \<Rightarrow> None | Ok j \<Rightarrow> Some j) os"
| "guarded js (DeletePod p ok # os) \<longleftrightarrow>
     (case js of None \<Rightarrow> False
      | Some j \<Rightarrow> completed p \<or> active p \<and> \<not> is_busy (js_BusyAgentNames j) (pod_Name p))
     \<and> guarded js os"
| "guarded js (_ # os) \<longleftrightarrow> guarded js os"

fun is_query :: "obs \<Rightarrow> bool" where
  "is_query (GotJobStatus _) = True"
| "is_query _ = False"

abbreviation quiet :: "obs \<Rightarrow> bool" where
  "quiet ob \<equiv> \<not> is_delete ob \<and> \<not> is_query ob \<and> \<not> created_ok ob"

fun safe_call :: "JobStatus \<Rightarrow> obs \<Rightarrow> bool" where
  "safe_call j (DeletePod p ok) \<longleftrightarrow>
     completed p \<or> active p \<and> \<not> is_busy (js_BusyAgentNames j) (pod_Name p)"
| "safe_call j ob \<longleftrightarrow> \<not> is_query ob"

lemma guarded_quiet: "list_all quiet os \<Longrightarrow> guarded js (os @ os') = guarded js os'"
proof (induction os)
  case (Cons ob os)
  then show ?case by (cases ob) simp_all
qed simp

lemma guarded_safe: "list_all (safe_call j) os \<Longrightarrow> guarded (Some j) os"
proof (induction os)
  case (Cons ob os)
  then show ?case by (cases ob) simp_all
qed simp

lemma quiet_safe: "quiet ob \<Longrightarrow> safe_call j ob"
  by (cases ob) simp_all

definition traces :: "(obs list \<Rightarrow> bool) \<Rightarrow> ('w sys, 'a) go \<Rightarrow> bool" where
  "traces T p \<longleftrightarrow> (\<forall>s. \<exists>os. trace (snd (p s)) = trace s @ os \<and> T os)"

lemma traces_wp: "traces T p \<Longrightarrow> wp p (\<lambda>r t. \<exists>os. trace t = trace s @ os \<and> T os) s"
proof (rule wp_runI)
  fix r t
  assume "traces T p" and run: "p s = (r, t)"
  then have "\<exists>os. trace (snd (p s)) = trace s @ os \<and> T os" unfolding traces_def by blast
  with run show "\<exists>os. trace t = trace s @ os \<and> T os" by simp
qed

lemma traces_emits: "emits P p \<Longrightarrow> (\<And>os. list_all P os \<Longrightarrow> T os) \<Longrightarrow> traces T p"
  unfolding traces_def emits_def by blast

lemma traces_bind_quiet:
  assumes "emits quiet p" and "\<And>x. traces (guarded js) (f x)"
  shows "traces (guarded js) (go_bind p f)"
  unfolding traces_def
proof
  fix s
  obtain r t where run: "p s = (r, t)" by fastforce
  from emits_run [OF assms(1) run] obtain os where os: "trace t = trace s @ os" "list_all quiet os" by blast
  show "\<exists>os. trace (snd (go_bind p f s)) = trace s @ os \<and> guarded js os"
  proof (cases r)
    case (Ret x)
    from assms(2) [of x] obtain os' where "trace (snd (f x t)) = trace t @ os'" "guarded js os'"
      unfolding traces_def by blast
    with run Ret os show ?thesis by (intro exI [of _ "os @ os'"]) (simp add: go_bind_Ret guarded_quiet)
  next
    case (Panic msg)
    with run os guarded_quiet [OF os(2), of js "[]"] show ?thesis by (auto simp: go_bind_Panic)
  qed
qed

lemma traces_query:
  assumes "traces (guarded (case r of Err _ \<Rightarrow> None | Ok j \<Rightarrow> Some j)) p"
  shows "traces (guarded js) (go_bind (tell (GotJobStatus r)) (\<lambda>_. p))"
  unfolding traces_def
proof
  fix s :: "'a sys"
  let ?s = "s\<lparr>trace := trace s @ [GotJobStatus r]\<rparr>"
  from assms obtain os where "trace (snd (p ?s)) = trace ?s @ os"
    "guarded (case r of Err _ \<Rightarrow> None | Ok j \<Rightarrow> Some j) os"
    unfolding traces_def by blast
  then show "\<exists>os. trace (snd (go_bind (tell (GotJobStatus r)) (\<lambda>_. p) s)) = trace s @ os \<and> guarded js os"
    by (intro exI [of _ "GotJobStatus r # os"]) (simp add: tell_def go_bind_def)
qed

lemma traces_quiet: "emits quiet p \<Longrightarrow> traces (guarded js) p"
  by (erule traces_emits) (use guarded_quiet [of _ js "[]"] in simp)

lemma traces_if: "(b \<Longrightarrow> traces T p) \<Longrightarrow> (\<not> b \<Longrightarrow> traces T q) \<Longrightarrow> traces T (if b then p else q)"
  by simp

lemma traces_case_sum:
  "(\<And>e. r = Inl e \<Longrightarrow> traces T (f e)) \<Longrightarrow> (\<And>x. r = Inr x \<Longrightarrow> traces T (g x))
     \<Longrightarrow> traces T (case r of Inl e \<Rightarrow> f e | Inr x \<Rightarrow> g x)"
  by (simp split: sum.split)

lemma traces_case_option:
  "(r = None \<Longrightarrow> traces T f) \<Longrightarrow> (\<And>x. r = Some x \<Longrightarrow> traces T (g x))
     \<Longrightarrow> traces T (case r of None \<Rightarrow> f | Some x \<Rightarrow> g x)"
  by (simp split: option.split)

lemma traces_ret: "traces (guarded js) (go_ret x)"
  by (intro traces_quiet emits_intros)

lemmas traces_intros = traces_if traces_case_sum traces_case_option traces_ret

section \<open>The reconciler against any Azure DevOps client\<close>

lemma quiet_calls:
  "is_pvc_call ob \<Longrightarrow> quiet ob" "is_http ob \<Longrightarrow> quiet ob" "is_metric ob \<Longrightarrow> quiet ob"
  by (cases ob; simp)+

lemma emits_quiet_metrics:
  "emits quiet (recordReconcileError pool ns reason)" "emits quiet (recordMetrics pool ns a b c)"
  by (rule emits_mono [OF emits_recordReconcileError] emits_mono [OF emits_recordMetrics],
      erule quiet_calls)+

lemma emits_quiet_fail_condition: "emits quiet (fail_condition c m pool reason msg)"
  unfolding fail_condition_def Let_def call_defs by (intro emits_intros) simp

lemma emits_quiet_fetchPAT: "emits quiet (fetchPAT c m pool)"
  unfolding fetchPAT_def Let_def call_defs by (intro emits_intros emits_quiet_fail_condition) simp

lemma emits_quiet_pvc:
  "emits quiet (ensurePVCPool c m pool)" "emits quiet (countFreePVCSlots c pool)"
  by (rule emits_mono [OF emits_ensurePVCPool] emits_mono [OF emits_countFree], erule quiet_calls)+

lemma emits_safe_scale:
  assumes "\<forall>p \<in> set pods. active p"
  shows "emits (safe_call j) (reconcile_scale c m pool ns n pods desired (js_BusyAgentNames j))"
proof -
  have "launch_call ob \<Longrightarrow> safe_call j ob" for ob by (cases ob) simp_all
  then have up: "emits (safe_call j) (create_loop c m pool ns k i)" for k i
    by (rule emits_mono [OF emits_create_loop])
  have "idle_delete (js_BusyAgentNames j) (set pods) ob \<Longrightarrow> safe_call j ob" for ob
    using assms by (cases ob) auto
  then have "emits (safe_call j) (scaleDown c pool pods k (js_BusyAgentNames j))" for k
    by (rule emits_mono [OF emits_scaleDown])
  with up show ?thesis unfolding reconcile_scale_def Let_def by (intro emits_intros)
qed

lemma emits_safe_cleanup: "emits (safe_call j) (cleanupCompletedPods c m pool pods)"
proof (rule emits_mono [OF emits_cleanup])
  show "cleanup_call ob \<Longrightarrow> safe_call j ob" for ob by (cases ob) simp_all
qed

locale reconciler =
  fixes R :: "'w AgentPoolReconciler"
  assumes service: "ado_service (buildADOClient R pat)"
begin

lemma emits_quiet_ado:
  "emits quiet (ado_GetPoolID (buildADOClient R pat) org name)"
  "emits quiet (ado_GetJobStatus (buildADOClient R pat) org pid)"
  "emits quiet (ado_RegisterDummyAgent (buildADOClient R pat) org pid name)"
  "emits quiet (ado_UnregisterAgent (buildADOClient R pat) org pid aid)"
  "emits quiet (ado_GetAgentByName (buildADOClient R pat) org pid name)"
  by (rule emits_mono [OF ado_service.pool_http [OF service]]
       emits_mono [OF ado_service.jobs_http [OF service]]
       emits_mono [OF ado_service.register_http [OF service]]
       emits_mono [OF ado_service.unregister_http [OF service]]
       emits_mono [OF ado_service.lookup_http [OF service]], erule quiet_calls)+

lemma emits_quiet_dummy: "emits quiet (manageDummyAgent (buildADOClient R pat) pool desired)"
  unfolding manageDummyAgent_def register_dummy_def unregister_dummy_def
  by (intro emits_intros emits_quiet_ado) simp_all

lemma emits_quiet_status:
  "emits quiet (reconcile_status R req pool (buildADOClient R pat) js desired n)"
  unfolding reconcile_status_def Let_def call_defs
  by (intro emits_intros emits_quiet_dummy emits_quiet_metrics emits_quiet_pvc) simp_all

lemma emits_safe_pods: "emits (safe_call j) (reconcile_pods R req pool (buildADOClient R pat) j)"
proof -
  have status: "emits (safe_call j) (reconcile_status R req pool (buildADOClient R pat) j d n)" for d n
    by (rule emits_mono [OF emits_quiet_status]) (rule quiet_safe)
  show ?thesis
    unfolding reconcile_pods_def Let_def call_defs countActivePods_active prod.case
    by (intro emits_intros emits_safe_cleanup emits_safe_scale status) simp_all
qed

lemma traces_jobs: "traces (guarded None) (reconcile_jobs R req pool (buildADOClient R pat))"
  unfolding reconcile_jobs_def
proof (intro traces_query traces_bind_quiet)
  fix x y z
  show "emits quiet (case x of Err e \<Rightarrow> recordReconcileError (ap_Name pool) (nn_Namespace req) ''PVCPoolFailed''
      | Ok _ \<Rightarrow> go_ret ())"
    by (intro emits_intros emits_quiet_metrics)
  show "traces (guarded (case z of Err _ \<Rightarrow> None | Ok j \<Rightarrow> Some j)) (case z of
      Err e \<Rightarrow> go_bind (fail_condition (rc_Client R) (rc_Machinery R) pool ''JobStatusQueryFailed''
          (''ADO API error: '' @ error_text e)) (\<lambda>pool.
        go_bind (recordReconcileError (ap_Name pool) (nn_Namespace req) ''ADOQueryFailed'')
          (\<lambda>_. go_ret (requeue, None)))
    | Ok js \<Rightarrow> reconcile_pods R req pool (buildADOClient R pat) js)"
    by (cases z)
       (auto intro!: traces_quiet emits_intros emits_quiet_fail_condition emits_quiet_metrics
          traces_emits [OF emits_safe_pods] guarded_safe)
qed (rule emits_quiet_pvc emits_quiet_ado)+

lemma emits_quiet_resolve: "emits quiet (resolvePoolID c m pool (buildADOClient R pat))"
  unfolding resolvePoolID_def call_defs
  by (intro emits_intros emits_quiet_ado emits_quiet_fail_condition) simp

lemma traces_pool: "traces (guarded None) (reconcile_pool R req pool)"
  unfolding reconcile_pool_def Let_def
  by (intro traces_intros traces_bind_quiet traces_jobs emits_quiet_fetchPAT emits_quiet_resolve)

lemma emits_quiet_deletion: "emits quiet (handleDeletion R pool)"
  unfolding handleDeletion_def unregister_on_deletion_def Let_def call_defs
  by (intro emits_intros emits_quiet_ado) simp_all

lemma Reconcile_guarded: "traces (guarded None) (Reconcile R req)"
  unfolding Reconcile_def
  by (intro traces_intros traces_pool traces_quiet [OF emits_quiet_deletion] traces_bind_quiet)
     (auto simp: call_defs intro!: emits_intros)

end

section \<open>How many pods a reconciliation creates\<close>

text \<open>Pods of one pool, at most as many as its bounds allow.\<close>

definition creates_within :: "'w machinery \<Rightarrow> 'w sys \<Rightarrow> 'w sys \<Rightarrow> bool" where
  "creates_within m s t \<longleftrightarrow> (\<exists>pool ps. created_by m pool s t ps
     \<and> int (length ps) \<le> max 0 (max (of_int32 (sp_MinAgents (ap_Spec pool)))
                                    (of_int32 (sp_MaxAgents (ap_Spec pool)))))"

lemma creates_within_none:
  "filter created_ok (trace t) = filter created_ok (trace s) \<Longrightarrow> creates_within m s t"
  unfolding creates_within_def by (intro exI exI [of _ "[]"]) simp

lemma creates_within_shift:
  "filter created_ok (trace t) = filter created_ok (trace s) \<Longrightarrow> creates_within m t u \<Longrightarrow> creates_within m s u"
  by (simp add: creates_within_def created_by_def)

lemma creates_within_extend:
  "creates_within m s t \<Longrightarrow> filter created_ok (trace u) = filter created_ok (trace t) \<Longrightarrow> creates_within m s u"
  by (simp add: creates_within_def created_by_def)

lemma wp_quiet_then:
  assumes "emits quiet p" and "\<And>x t. wp (f x) (\<lambda>r u. creates_within m t u) t"
  shows "wp (go_bind p f) (\<lambda>r u. creates_within m s u) s"
proof (rule wp_bindI [OF wp_filter [where P = created_ok]])
  show "emits (\<lambda>ob. \<not> created_ok ob) p" by (rule emits_mono [OF assms(1)]) simp
  fix x and t :: "'a sys"
  assume "filter created_ok (trace t) = filter created_ok (trace s)"
  then show "wp (f x) (\<lambda>r u. creates_within m s u) t"
    by (intro wp_mono [OF assms(2)]) (rule creates_within_shift)
qed (rule creates_within_none)

lemma wp_then_quiet:
  assumes "wp p (\<lambda>r t. creates_within m s t) s" and "\<And>x. emits quiet (f x)"
  shows "wp (go_bind p f) (\<lambda>r u. creates_within m s u) s"
proof (rule wp_bindI [OF assms(1)])
  fix x t
  assume t: "creates_within m s t"
  have "emits (\<lambda>ob. \<not> created_ok ob) (f x)" by (rule emits_mono [OF assms(2)]) simp
  then show "wp (f x) (\<lambda>r u. creates_within m s u) t"
    by (rule wp_mono [OF wp_filter]) (rule creates_within_extend [OF t])
qed

lemma wp_quiet: "emits quiet p \<Longrightarrow> wp p (\<lambda>r t. creates_within m s t) s"
  by (rule wp_mono [OF wp_filter [where P = created_ok]]) (auto elim: emits_mono creates_within_none)

lemma wp_created_scale:
  assumes "0 \<le> n"
  shows "wp (reconcile_scale c m pool ns n pods (clamp v (sp_MinAgents (ap_Spec pool)) (sp_MaxAgents (ap_Spec pool))) busy)
           (\<lambda>r t. creates_within m s t) s"
proof (rule wp_mono [OF wp_reconcile_scale])
  fix r t
  let ?lo = "sp_MinAgents (ap_Spec pool)" and ?hi = "sp_MaxAgents (ap_Spec pool)"
  assume "\<exists>ps k. created_by m pool s t ps \<and> deletions t = deletions s + k
    \<and> int (length ps) \<le> max 0 (of_int32 (clamp v ?lo ?hi) - n) \<and> 0 \<le> k
    \<and> k \<le> max 0 (n - of_int32 (clamp v ?lo ?hi)) \<and> (\<forall>j. r = Ret j \<longrightarrow> j = n + int (length ps) - k)"
  then obtain ps where ps: "created_by m pool s t ps"
    "int (length ps) \<le> max 0 (of_int32 (clamp v ?lo ?hi) - n)" by blast
  have "of_int32 (clamp v ?lo ?hi) \<le> max (of_int32 ?lo) (of_int32 ?hi)" by (auto simp: clamp_def)
  with ps(2) assms have "int (length ps) \<le> max 0 (max (of_int32 ?lo) (of_int32 ?hi))" by linarith
  with ps(1) show "creates_within m s t" unfolding creates_within_def by blast
qed

lemma emits_quiet_cleanup: "emits (\<lambda>ob. \<not> created_ok ob) (cleanupCompletedPods c m pool pods)"
proof (rule emits_mono [OF emits_cleanup])
  show "cleanup_call ob \<Longrightarrow> \<not> created_ok ob" for ob by (cases ob) simp_all
qed

context reconciler
begin

lemma wp_created_pods:
  "wp (reconcile_pods R req pool (buildADOClient R pat) js) (\<lambda>r t. creates_within (rc_Machinery R) s t) s"
proof -
  let ?c = "rc_Client R" and ?m = "rc_Machinery R" and ?ns = "nn_Namespace req"
  let ?d = "clamp (to_int32 (js_Pending js)) (sp_MinAgents (ap_Spec pool)) (sp_MaxAgents (ap_Spec pool))"
  have scale: "wp (go_bind (reconcile_scale ?c ?m pool ?ns (int (length (filter active pods)))
        (filter active pods) ?d (js_BusyAgentNames js))
      (\<lambda>n. reconcile_status R req pool (buildADOClient R pat) js ?d n)) (\<lambda>r u. creates_within ?m t u) t"
    for pods t
    by (intro wp_then_quiet wp_created_scale emits_quiet_status) simp
  have "wp (go_bind (cleanupCompletedPods ?c ?m pool pods) (\<lambda>_.
      go_bind (reconcile_scale ?c ?m pool ?ns (int (length (filter active pods)))
        (filter active pods) ?d (js_BusyAgentNames js))
      (\<lambda>n. reconcile_status R req pool (buildADOClient R pat) js ?d n))) (\<lambda>r u. creates_within ?m t u) t"
    for pods t
    by (rule wp_bindI [OF wp_filter [OF emits_quiet_cleanup]])
       (auto intro: wp_mono [OF scale] creates_within_shift creates_within_none)
  then show ?thesis
    unfolding reconcile_pods_def Let_def countActivePods_active prod.case
    by (intro wp_quiet_then) (auto simp: call_defs wp_ret intro!: emits_intros creates_within_none split: sum.split)
qed

lemma wp_created_jobs:
  "wp (reconcile_jobs R req pool (buildADOClient R pat)) (\<lambda>r t. creates_within (rc_Machinery R) s t) s"
  unfolding reconcile_jobs_def
proof (rule wp_quiet_then [OF emits_quiet_pvc(1)], rule wp_quiet_then,
    rule_tac [2] wp_quiet_then [OF emits_quiet_ado(2)])
  show "emits quiet (case x of Err e \<Rightarrow> recordReconcileError (ap_Name pool) (nn_Namespace req) ''PVCPoolFailed''
      | Ok _ \<Rightarrow> go_ret ())" for x :: "unit result"
    by (intro emits_intros emits_quiet_metrics)
  fix r :: "JobStatus result" and t :: "'w sys"
  let ?t = "t\<lparr>trace := trace t @ [GotJobStatus r]\<rparr>"
  have "wp (case r of Err e \<Rightarrow>
        go_bind (fail_condition (rc_Client R) (rc_Machinery R) pool ''JobStatusQueryFailed''
          (''ADO API error: '' @ error_text e)) (\<lambda>pool.
        go_bind (recordReconcileError (ap_Name pool) (nn_Namespace req) ''ADOQueryFailed'')
          (\<lambda>_. go_ret (requeue, None)))
      | Ok js \<Rightarrow> reconcile_pods R req pool (buildADOClient R pat) js)
      (\<lambda>r u. creates_within (rc_Machinery R) ?t u) ?t"
    by (auto intro!: wp_quiet emits_intros emits_quiet_fail_condition emits_quiet_metrics wp_created_pods
          split: sum.split)
  then show "wp (go_bind (tell (GotJobStatus r)) (\<lambda>_. case r of Err e \<Rightarrow>
        go_bind (fail_condition (rc_Client R) (rc_Machinery R) pool ''JobStatusQueryFailed''
          (''ADO API error: '' @ error_text e)) (\<lambda>pool.
        go_bind (recordReconcileError (ap_Name pool) (nn_Namespace req) ''ADOQueryFailed'')
          (\<lambda>_. go_ret (requeue, None)))
      | Ok js \<Rightarrow> reconcile_pods R req pool (buildADOClient R pat) js))
      (\<lambda>r u. creates_within (rc_Machinery R) t u) t"
    unfolding wp_bind wp_tell outcome.case by (rule wp_mono) (erule creates_within_shift [rotated], simp)
qed

lemma wp_created: "wp (Reconcile R req) (\<lambda>r t. creates_within (rc_Machinery R) s t) s"
proof -
  have pool: "wp (reconcile_pool R req pool) (\<lambda>r t. creates_within (rc_Machinery R) s t) s" for pool s
    unfolding reconcile_pool_def Let_def
    by (intro wp_quiet_then emits_quiet_fetchPAT)
       (auto simp: wp_ret intro!: wp_quiet_then emits_quiet_resolve wp_created_jobs creates_within_none
          split: option.split)
  show ?thesis
    unfolding Reconcile_def
    by (intro wp_quiet_then)
       (auto simp: call_defs wp_ret intro!: emits_intros pool wp_quiet emits_quiet_deletion
          creates_within_none split: sum.split)
qed

end

end
