(* ===== verification/Reconcile_Outcomes.thy ===== *)
theory Reconcile_Outcomes
  imports Reconcile_Facts
begin

text \<open>
  How a reconciliation ends: requeue or error, the finalizer on deletion, the condition that the
  status reports, and the agreement of status and metrics.  The locale \<open>status_conditions\<close> states what
  \<^verbatim>\<open>meta.SetStatusCondition\<close> documents; the locale \<open>reconciler\<close> is interpreted on the reconciler that
  the manager starts.
\<close>

section \<open>The operator\<close>

lemma buildADOClient_operator [simp]: "buildADOClient (operator c m tr) pat = Client_face tr (NewClient pat)"
  by (simp add: buildADOClient_def operator_def)

lemma operator_fields [simp]:
  "rc_Client (operator c m tr) = c" "rc_Machinery (operator c m tr) = m"
  by (simp_all add: operator_def)

interpretation op: reconciler "operator c m tr" for c :: "'w client" and m tr
  by (rule reconciler.intro) (simp add: client.ado_service_axioms)

section \<open>Requeue or error\<close>

definition retried :: "reconciled \<Rightarrow> bool" where
  "retried x \<longleftrightarrow> x = (requeue, None) \<or> fst x = no_requeue \<and> snd x \<noteq> None"

lemma returns_status: "returns retried (reconcile_status R req pool A js desired n)"
  unfolding reconcile_status_def Let_def by (intro returns_intros) (simp_all add: retried_def)

lemma returns_pods: "returns retried (reconcile_pods R req pool A js)"
  unfolding reconcile_pods_def Let_def countActivePods_active prod.case
  by (intro returns_intros returns_status) (simp add: retried_def)

lemma returns_jobs: "returns retried (reconcile_jobs R req pool A)"
  unfolding reconcile_jobs_def by (intro returns_intros returns_pods) (simp add: retried_def)

lemma returns_pool: "returns retried (reconcile_pool R req pool)"
  unfolding reconcile_pool_def Let_def by (intro returns_intros returns_jobs) (simp_all add: retried_def)

section \<open>Deletion\<close>

fun is_pool_update :: "obs \<Rightarrow> bool" where
  "is_pool_update (UpdatePool _ _) = True"
| "is_pool_update _ = False"

context reconciler
begin

lemma completes_unregister: "completes (unregister_on_deletion R pool)"
  unfolding unregister_on_deletion_def Let_def call_defs
  by (intro completes_intros ado_service.unregister_returns [OF service])

lemma emits_unregister: "emits (\<lambda>ob. \<not> is_pool_update ob) (unregister_on_deletion R pool)"
proof -
  have "is_http ob \<Longrightarrow> \<not> is_pool_update ob" for ob by (cases ob) simp_all
  then show ?thesis
    unfolding unregister_on_deletion_def Let_def call_defs
    by (intro emits_intros emits_mono [OF ado_service.unregister_http [OF service]]) simp_all
qed

text \<open>With the finalizer present, deletion always gets to the update that removes it.\<close>

lemma wp_handleDeletion:
  assumes fin: "m_ContainsFinalizer (rc_Machinery R) pool finalizerName"
  shows "wp (handleDeletion R pool)
     (\<lambda>r t. \<exists>os ok. trace t = trace s @ os
          @ [UpdatePool (m_RemoveFinalizer (rc_Machinery R) pool finalizerName) ok]
        \<and> list_all (\<lambda>ob. \<not> is_pool_update ob) os
        \<and> (if ok then r = Ret (no_requeue, None) else \<exists>e. r = Ret (no_requeue, Some e))) s"
proof -
  have "wp (unregister_on_deletion R pool)
      (\<lambda>r t. \<exists>x. r = Ret x \<and> (\<exists>os. trace t = trace s @ os \<and> list_all (\<lambda>ob. \<not> is_pool_update ob) os)) s"
    by (rule completes_wp [OF completes_unregister emits_wp [OF emits_unregister]])
  then show ?thesis
    using fin unfolding handleDeletion_def
    by (simp, elim wp_bindI) (auto simp: call_defs wp_simps split: prod.split sum.split)
qed

end

section \<open>Conditions\<close>

definition condition_of :: "Condition list \<Rightarrow> string \<Rightarrow> Condition option" where
  "condition_of cs ty = find (\<lambda>c. cond_Type c = ty) cs"

lemma setCondition_fields [simp]:
  "ap_Name (setCondition m pool ty st reason msg) = ap_Name pool"
  "ap_Namespace (setCondition m pool ty st reason msg) = ap_Namespace pool"
  "ap_Spec (setCondition m pool ty st reason msg) = ap_Spec pool"
  "ap_Generation (setCondition m pool ty st reason msg) = ap_Generation pool"
  "st_ActiveAgents (ap_Status (setCondition m pool ty st reason msg)) = st_ActiveAgents (ap_Status pool)"
  "st_PendingJobs (ap_Status (setCondition m pool ty st reason msg)) = st_PendingJobs (ap_Status pool)"
  "st_DummyAgentID (ap_Status (setCondition m pool ty st reason msg)) = st_DummyAgentID (ap_Status pool)"
  "st_PoolID (ap_Status (setCondition m pool ty st reason msg)) = st_PoolID (ap_Status pool)"
  by (simp_all add: setCondition_def)

locale status_conditions =
  fixes m :: "'w machinery"
  assumes set_found: "condition_of (m_SetStatusCondition m cs new) (cond_Type new) = Some new"
    and set_others: "ty \<noteq> cond_Type new \<Longrightarrow>
      condition_of (m_SetStatusCondition m cs new) ty = condition_of cs ty"
begin

text \<open>What the status of a pool reports as availability.\<close>

lemma setCondition_reports:
  "condition_of (st_Conditions (ap_Status (setCondition m pool ty st reason msg))) ty =
     Some \<lparr>cond_Type = ty, cond_Status = st, cond_ObservedGeneration = ap_Generation pool,
           cond_Reason = reason, cond_Message = msg\<rparr>"
  using set_found [of _ "\<lparr>cond_Type = ty, cond_Status = st, cond_ObservedGeneration = ap_Generation pool,
           cond_Reason = reason, cond_Message = msg\<rparr>"]
  by (simp add: setCondition_def)

end

definition reports :: "AgentPool \<Rightarrow> ConditionStatus \<Rightarrow> string \<Rightarrow> bool" where
  "reports pool st reason \<longleftrightarrow> (\<exists>c. condition_of (st_Conditions (ap_Status pool)) ''Available'' = Some c
     \<and> cond_Status c = st \<and> cond_Reason c = reason \<and> cond_ObservedGeneration c = ap_Generation pool)"

context status_conditions
begin

lemma setCondition_reports_iff: "reports (setCondition m pool ''Available'' st reason msg) st reason"
  using setCondition_reports by (simp add: reports_def setCondition_def)

text \<open>
  The token: it is read, or the pool is reported unavailable with the reason, and nothing else is
  called.
\<close>

lemma wp_fetchPAT:
  "wp (fetchPAT c m pool)
     (\<lambda>r t. \<exists>nn. nn = \<lparr>nn_Namespace = ap_Namespace pool, nn_Name = sks_Name (sp_TokenSecretRef (ap_Spec pool))\<rparr>
        \<and> (case r of Panic _ \<Rightarrow> False
           | Ret (Some pat) \<Rightarrow> trace t = trace s @ [GetSecret nn]
           | Ret None \<Rightarrow> (\<exists>pool' ok. trace t = trace s @ [GetSecret nn, UpdateStatus pool' ok]
               \<and> (reports pool' ConditionFalse ''SecretNotFound''
                    \<or> reports pool' ConditionFalse ''SecretKeyMissing'')
               \<and> ap_Spec pool' = ap_Spec pool))) s"
  by (auto simp: fetchPAT_def fail_condition_def Let_def call_defs wp_simps
        setCondition_reports_iff
      split: prod.split sum.split option.split)

text \<open>The pool identifier: resolved and stored, or reported as unresolvable, or the store failed.\<close>

lemma wp_resolve_failure:
  assumes "ado_GetPoolID A (sp_OrganizationURL (ap_Spec pool)) (sp_PoolName (ap_Spec pool)) s = (Ret (Err e), t)"
  shows "wp (resolvePoolID c m pool A)
     (\<lambda>r u. r = Ret None \<and> (\<exists>pool' ok. trace u = trace t @ [UpdateStatus pool' ok]
        \<and> reports pool' ConditionFalse ''PoolResolutionFailed'')) s"
  using assms
  by (auto simp: resolvePoolID_def wp_def go_bind_Ret fail_condition_def Let_def call_defs call_def
        go_ret_def go_bind_def setCondition_reports_iff split: prod.split sum.split)

end

section \<open>When the job query fails\<close>

text \<open>
  Nothing is scaled on missing information: no pod is created or deleted, the pool is reported
  unavailable, and the reconciliation is retried after the interval.
\<close>

definition query_failed :: "reconciled outcome \<Rightarrow> obs list \<Rightarrow> bool" where
  "query_failed r os \<longleftrightarrow> r = Ret (requeue, None)
     \<and> list_all (\<lambda>ob. \<not> is_delete ob \<and> \<not> created_ok ob) os
     \<and> (\<exists>pool' ok. UpdateStatus pool' ok \<in> set os \<and> reports pool' ConditionFalse ''JobStatusQueryFailed'')"

definition holds_back :: "reconciled outcome \<Rightarrow> obs list \<Rightarrow> bool" where
  "holds_back r os \<longleftrightarrow> ((\<exists>e. GotJobStatus (Err e) \<in> set os) \<longrightarrow> query_failed r os)"

lemma holds_back_quiet: "list_all quiet qs \<Longrightarrow> holds_back r os \<Longrightarrow> holds_back r (qs @ os)"
  unfolding holds_back_def query_failed_def by (fastforce simp: list_all_iff)

lemma holds_back_no_query: "list_all (\<lambda>ob. \<not> is_query ob) os \<Longrightarrow> holds_back r os"
  unfolding holds_back_def by (auto simp: list_all_iff)

lemma holds_back_only_quiet: "list_all quiet os \<Longrightarrow> holds_back r os"
  by (rule holds_back_no_query) (simp add: list_all_iff)

lemma wp_holds_back_bind:
  assumes "emits quiet p" and "\<And>x t. wp (f x) (\<lambda>r u. \<exists>os. trace u = trace t @ os \<and> holds_back r os) t"
  shows "wp (go_bind p f) (\<lambda>r u. \<exists>os. trace u = trace s @ os \<and> holds_back r os) s"
proof (rule wp_bindI [OF emits_wp [OF assms(1)]])
  fix x and t :: "'a sys"
  assume "\<exists>os. trace t = trace s @ os \<and> list_all quiet os"
  then obtain qs where qs: "trace t = trace s @ qs" "list_all quiet qs" by blast
  show "wp (f x) (\<lambda>r u. \<exists>os. trace u = trace s @ os \<and> holds_back r os) t"
  proof (rule wp_mono [OF assms(2)])
    fix r u
    assume "\<exists>os. trace u = trace t @ os \<and> holds_back r os"
    then obtain os where "trace u = trace s @ qs @ os" "holds_back r os" using qs(1) by auto
    with qs(2) show "\<exists>os. trace u = trace s @ os \<and> holds_back r os" by (auto intro: holds_back_quiet)
  qed
next
  fix msg and t :: "'a sys"
  assume "\<exists>os. trace t = trace s @ os \<and> list_all quiet os"
  then obtain qs where qs: "trace t = trace s @ qs" "list_all quiet qs" by blast
  then have "holds_back (Panic msg) qs" by (intro holds_back_no_query) (simp add: list_all_iff)
  with qs(1) show "\<exists>os. trace t = trace s @ os \<and> holds_back (Panic msg) os" by blast
qed

lemma wp_job_query_answer:
  assumes "reconciler R" and "status_conditions (rc_Machinery R)"
  shows "wp (go_bind (tell (GotJobStatus r)) (\<lambda>_. case r of
      Err e \<Rightarrow> go_bind (fail_condition (rc_Client R) (rc_Machinery R) pool ''JobStatusQueryFailed''
          (''ADO API error: '' @ error_text e)) (\<lambda>pool.
        go_bind (recordReconcileError (ap_Name pool) (nn_Namespace req) ''ADOQueryFailed'')
          (\<lambda>_. go_ret (requeue, None)))
    | Ok js \<Rightarrow> reconcile_pods R req pool (buildADOClient R pat) js))
    (\<lambda>r u. \<exists>os. trace u = trace t @ os \<and> holds_back r os) t"
proof (cases r)
  case (Inl e)
  then show ?thesis
    using status_conditions.setCondition_reports_iff [OF assms(2)]
    by (auto simp: fail_condition_def Let_def call_defs wp_simps holds_back_def query_failed_def
        split: prod.split sum.split)
next
  case (Inr js)
  have "safe_call js ob \<Longrightarrow> \<not> is_query ob" for ob by (cases ob) simp_all
  then have "emits (\<lambda>ob. \<not> is_query ob) (reconcile_pods R req pool (buildADOClient R pat) js)"
    by (rule emits_mono [OF reconciler.emits_safe_pods [OF assms(1)]])
  from emits_wp [OF this] have "wp (reconcile_pods R req pool (buildADOClient R pat) js)
      (\<lambda>r u. \<exists>os. trace u = trace t @ os \<and> holds_back r os) (t\<lparr>trace := trace t @ [GotJobStatus (Ok js)]\<rparr>)"
    by (rule wp_mono) (fastforce simp: holds_back_def list_all_iff)
  with Inr show ?thesis by (simp add: wp_simps)
qed

lemma wp_jobs_holds_back:
  assumes "reconciler R" and "status_conditions (rc_Machinery R)"
  shows "wp (reconcile_jobs R req pool (buildADOClient R pat))
     (\<lambda>r u. \<exists>os. trace u = trace s @ os \<and> holds_back r os) s"
  unfolding reconcile_jobs_def
proof (rule wp_holds_back_bind [OF emits_quiet_pvc(1)], rule wp_holds_back_bind,
    rule_tac [2] wp_holds_back_bind [OF reconciler.emits_quiet_ado(2) [OF assms(1)]],
    rule_tac [2] wp_job_query_answer [OF assms])
  show "emits quiet (case x of Err e \<Rightarrow> recordReconcileError (ap_Name pool) (nn_Namespace req) ''PVCPoolFailed''
      | Ok _ \<Rightarrow> go_ret ())" for x :: "unit result"
    by (intro emits_intros emits_quiet_metrics)
qed

lemma wp_Reconcile_holds_back:
  assumes "reconciler R" and "status_conditions (rc_Machinery R)"
  shows "wp (Reconcile R req) (\<lambda>r u. \<exists>os. trace u = trace s @ os \<and> holds_back r os) s"
proof -
  have ret: "wp (go_ret x) (\<lambda>r u. \<exists>os. trace u = trace t @ os \<and> holds_back r os) t" for x and t :: "'a sys"
    by (simp add: wp_ret holds_back_def)
  have pool: "wp (reconcile_pool R req pool) (\<lambda>r u. \<exists>os. trace u = trace t @ os \<and> holds_back r os) t" for pool t
    unfolding reconcile_pool_def Let_def
    by (intro wp_holds_back_bind emits_quiet_fetchPAT)
       (auto simp: ret intro!: wp_holds_back_bind reconciler.emits_quiet_resolve [OF assms(1)]
          wp_jobs_holds_back [OF assms] split: option.split)
  have del: "wp (handleDeletion R pool) (\<lambda>r u. \<exists>os. trace u = trace t @ os \<and> holds_back r os) t" for pool t
    by (rule wp_mono [OF emits_wp [OF reconciler.emits_quiet_deletion [OF assms(1)]]])
       (blast intro: holds_back_only_quiet)
  show ?thesis
    unfolding Reconcile_def
    by (intro wp_holds_back_bind)
       (auto simp: call_defs ret intro!: emits_intros pool del wp_holds_back_bind split: sum.split)
qed

section \<open>Status and metrics agree\<close>

lemma wp_after:
  assumes "returns P p" and "\<And>x t. P x \<Longrightarrow> wp (f x) Q t" and "\<And>msg t. Q (Panic msg) t"
  shows "wp (go_bind p f) Q s"
  by (rule wp_bindI [OF returns_wp [OF assms(1)]]) (auto intro: assms(2,3))

lemma returns_dummy:
  "returns (\<lambda>(pool', r). \<exists>i. pool' = set_DummyAgentID i pool) (manageDummyAgent A pool desired)"
proof -
  have id: "\<exists>i. pool = set_DummyAgentID i pool" by (rule exI [of _ "DummyAgentID pool"]) simp
  have unreg: "returns (\<lambda>(pool', r). \<exists>i. pool' = set_DummyAgentID i pool) (unregister_dummy A pool d)" for pool d
    unfolding unregister_dummy_def
    by (intro returns_intros) (auto intro: exI [of _ 0] exI [of _ "DummyAgentID pool"])
  have again: "returns (\<lambda>(pool', r). \<exists>i. pool' = set_DummyAgentID i pool)
      (unregister_dummy A (set_DummyAgentID k pool) d)" for k d
    using unreg [of "set_DummyAgentID k pool" d] by (auto simp: returns_def)
  show ?thesis
    unfolding manageDummyAgent_def register_dummy_def
    by (intro returns_intros unreg again) (use id in auto)
qed

text \<open>
  The numbers that the status and the gauges show after a completed reconciliation: the active
  count, truncated to 32 bits in the status, and the pending jobs.
\<close>

definition published :: "NamespacedName \<Rightarrow> AgentPool \<Rightarrow> int \<Rightarrow> int \<Rightarrow> obs list \<Rightarrow> bool" where
  "published req pool n pending tr \<longleftrightarrow> (\<exists>p. UpdateStatus p True \<in> set tr
     \<and> reports p ConditionTrue ''Reconciled'' \<and> ap_Name p = ap_Name pool
     \<and> st_ActiveAgents (ap_Status p) = Some (to_int32 n)
     \<and> st_PendingJobs (ap_Status p) = Some (to_int32 pending))
     \<and> gauge_value tr activeAgentsGauge [(''pool'', ap_Name pool), (''namespace'', nn_Namespace req)] = Some n
     \<and> gauge_value tr pendingJobsGauge [(''pool'', ap_Name pool), (''namespace'', nn_Namespace req)] = Some pending"

lemma wp_status_published:
  assumes sc: "status_conditions (rc_Machinery R)"
    and name: "\<And>p w p' w'. c_UpdateStatus (rc_Client R) p w = (Ok p', w') \<Longrightarrow> ap_Name p' = ap_Name p"
  shows "wp (reconcile_status R req pool A js desired n)
     (\<lambda>r t. r = Ret (requeue, None) \<longrightarrow> published req pool n (js_Pending js) (trace t)) s"
proof -
  let ?Q = "\<lambda>r t. r = Ret (requeue, None) \<longrightarrow> published req pool n (js_Pending js) (trace t)"
  have final: "wp (go_bind (r_UpdateStatus (rc_Client R) p) (\<lambda>r. case r of
        Err e \<Rightarrow> go_ret (no_requeue, Some e)
      | Ok p' \<Rightarrow> go_bind (recordMetrics (ap_Name p') (nn_Namespace req) n (js_Pending js) k)
          (\<lambda>_. go_ret (requeue, None)))) ?Q t"
    if p: "reports p ConditionTrue ''Reconciled''" "ap_Name p = ap_Name pool"
      "st_ActiveAgents (ap_Status p) = Some (to_int32 n)"
      "st_PendingJobs (ap_Status p) = Some (to_int32 (js_Pending js))" for p k t
    using p name
    by (auto simp: call_defs wp_simps recordMetrics_def Let_def published_def gauge_value_append
        metric_names split: prod.split sum.split)
  have report: "reports (setCondition (rc_Machinery R) p ''Available'' ConditionTrue ''Reconciled'' msg)
      ConditionTrue ''Reconciled''" for p msg
    by (rule status_conditions.setCondition_reports_iff [OF sc])
  show ?thesis
    unfolding reconcile_status_def Let_def
    by (rule wp_after [OF returns_dummy]; clarsimp)
       (intro wp_after [where P = "\<lambda>_. True"] final; simp add: returns_def report)
qed

section \<open>At the desired state\<close>

text \<open>Reading and reporting: what is left to do when nothing has to change.\<close>

fun report_call :: "obs \<Rightarrow> bool" where
  "report_call (ListPods _ _) = True"
| "report_call (ListPVCs _ _) = True"
| "report_call (UpdateStatus _ _) = True"
| "report_call (GaugeSet _ _ _) = True"
| "report_call _ = False"

definition dummy_settled :: "AgentPool \<Rightarrow> int32 \<Rightarrow> bool" where
  "dummy_settled pool desired \<longleftrightarrow>
     \<not> (desired = 0 \<and> DummyAgentID pool = 0) \<and> \<not> (of_int32 desired > 0 \<and> DummyAgentID pool \<noteq> 0)"

lemma manageDummyAgent_settled:
  "dummy_settled pool desired \<Longrightarrow> manageDummyAgent A pool desired = go_ret (pool, Ok ())"
  unfolding dummy_settled_def manageDummyAgent_def unregister_dummy_def by (simp only: if_False simp_thms)

lemma cleanup_loop_none: "\<forall>p \<in> set pods. \<not> completed p \<Longrightarrow> cleanup_loop c m pool pods fe = go_ret fe"
  by (induction pods) auto

lemma emits_count_reports: "emits report_call (countFreePVCSlots c pool)"
proof -
  have "emits report_call (count_loop c pool cvs n)" for cvs n
    by (induction cvs arbitrary: n) (auto simp: call_defs intro!: emits_intros)
  then show ?thesis unfolding countFreePVCSlots_def by (intro emits_intros)
qed

lemma emits_status_reports:
  assumes "dummy_settled pool desired"
  shows "emits report_call (reconcile_status R req pool A js desired n)"
  unfolding reconcile_status_def manageDummyAgent_settled [OF assms] go_bind_ret prod.case sum.case
    Let_def call_defs recordMetrics_def
  by (intro emits_intros emits_count_reports) simp_all

lemma wp_pods_settled:
  assumes "c_ListPods (rc_Client R) (nn_Namespace req) [(labelPoolName, ap_Name pool)] (world s) = (Ok pods, w')"
    and act: "\<forall>p \<in> set pods. active p"
    and "int (length pods) = of_int32 (clamp (to_int32 (js_Pending js)) (sp_MinAgents (ap_Spec pool))
                                             (sp_MaxAgents (ap_Spec pool)))"
    and "dummy_settled pool (clamp (to_int32 (js_Pending js)) (sp_MinAgents (ap_Spec pool))
                                   (sp_MaxAgents (ap_Spec pool)))"
  shows "wp (reconcile_pods R req pool A js) (\<lambda>r t. \<exists>os. trace t = trace s @ os \<and> list_all report_call os) s"
proof -
  let ?d = "clamp (to_int32 (js_Pending js)) (sp_MinAgents (ap_Spec pool)) (sp_MaxAgents (ap_Spec pool))"
  let ?s = "s\<lparr>world := w', trace := trace s @ [ListPods (nn_Namespace req) [(labelPoolName, ap_Name pool)]]\<rparr>"
  have none: "\<forall>p \<in> set pods. \<not> completed p" using act active_not_completed by blast
  have "filter active pods = pods" using act by simp
  then have scale: "reconcile_scale c m pool ns (int (length (filter active pods))) (filter active pods) ?d busy
      = go_ret (int (length pods))" for c :: "'a client" and m ns busy
    using assms(3) by (simp add: reconcile_scale_def Let_def)
  have "wp (reconcile_status R req pool A js ?d (int (length pods)))
      (\<lambda>r t. \<exists>os. trace t = trace ?s @ os \<and> list_all report_call os) ?s"
    by (rule emits_wp [OF emits_status_reports [OF assms(4)]])
  then have "wp (reconcile_status R req pool A js ?d (int (length pods)))
      (\<lambda>r t. \<exists>os. trace t = trace s @ os \<and> list_all report_call os) ?s"
    by (rule wp_mono) auto
  then show ?thesis
    using assms(1)
    by (simp add: reconcile_pods_def call_defs wp_bind wp_call cleanupCompletedPods_def
        cleanup_loop_none [OF none] countActivePods_active Let_def scale wp_ret)
qed

end
