(* ===== verification/Cluster_Contract.thy ===== *)
theory Cluster_Contract
  imports Pvc_Contract Reconcile_Outcomes
begin

text \<open>
  Pods and claims together.  The locale \<open>cluster_api\<close> extends the contract on claims by the pods: a
  creation adds the pod it is given, a deletion removes at most that pod, listed pods exist, and the
  other calls of the operator (status, finalizers, secrets, HTTP, random numbers) touch neither pods
  nor claims.  A resource that the server returns has the requested namespace and distinct cache
  names.

  The invariant: every claim that a live agent pod mounts is assigned to that pod.  It implies that
  no two live agent pods of a namespace mount the same claim, and it is kept by every operation of
  the controller up to a whole reconciliation.
\<close>

section \<open>Ownership\<close>

abbreviation pod_key :: "Pod \<Rightarrow> key" where
  "pod_key p \<equiv> (pod_Namespace p, pod_Name p)"

type_synonym pod_view = "key \<Rightarrow> Pod option"

definition mounts :: "Pod \<Rightarrow> string set" where
  "mounts p = vol_ClaimName ` set (ps_Volumes (pod_Spec p))"

text \<open>Agent pods carry the pool label; a live one has not completed.\<close>

definition live_agent :: "Pod \<Rightarrow> bool" where
  "live_agent p \<longleftrightarrow> map_get (pod_Labels p) labelPoolName \<noteq> None \<and> \<not> completed p"

definition owner_of :: "label_view \<Rightarrow> key \<Rightarrow> string option" where
  "owner_of L k = (case L k of None \<Rightarrow> None | Some ls \<Rightarrow> ls labelAssignedPod)"

definition owned :: "label_view \<Rightarrow> pod_view \<Rightarrow> bool" where
  "owned L P \<longleftrightarrow> (\<forall>ns a p. P (ns, a) = Some p \<longrightarrow> live_agent p \<longrightarrow>
     (\<forall>n \<in> mounts p. owner_of L (ns, n) = Some a))"

lemma ownedD: "owned L P \<Longrightarrow> P (ns, a) = Some p \<Longrightarrow> live_agent p \<Longrightarrow> n \<in> mounts p \<Longrightarrow> owner_of L (ns, n) = Some a"
  unfolding owned_def by blast

text \<open>Exclusive use follows.\<close>

lemma owned_exclusive:
  assumes "owned L P" and "P (ns, a) = Some p" and "P (ns, b) = Some q"
    and "live_agent p" and "live_agent q" and "n \<in> mounts p" and "n \<in> mounts q"
  shows "a = b"
  using ownedD [OF assms(1,2,4,6)] ownedD [OF assms(1,3,5,7)] by simp

text \<open>Changing claims that have no owner keeps the invariant, as does removing pods.\<close>

lemma owned_unowned:
  assumes "owned L P" and "\<And>k. L' k = L k \<or> owner_of L k = None"
  shows "owned L' P"
proof -
  have "owner_of L' k = Some a" if "owner_of L k = Some a" for k a
    using assms(2) [of k] that by (auto simp: owner_of_def)
  with assms(1) show ?thesis unfolding owned_def by blast
qed

lemma owned_remove: "owned L P \<Longrightarrow> owned L (P(k := None))"
  unfolding owned_def by simp

lemma owned_add:
  assumes "owned L P" and "\<And>n. n \<in> mounts p \<Longrightarrow> owner_of L (ns, n) = Some a"
  shows "owned L (P((ns, a) \<mapsto> p))"
  using assms unfolding owned_def by simp

lemma owner_set_assigned: "L (ns, n) = Some ls \<Longrightarrow> L' (ns, n) = Some (set_assigned pod ls) \<Longrightarrow>
    owner_of L' (ns, n) = Some pod"
  by (simp add: owner_of_def set_assigned_def)

lemma wf_free_unowned:
  "claims_wf L \<Longrightarrow> L k = Some ls \<Longrightarrow> ls labelPoolName \<noteq> None \<Longrightarrow> ls labelPoolState = Some pvcStateFree \<Longrightarrow>
     owner_of L k = None"
  unfolding claims_wf_def claim_wf_def owner_of_def by fastforce

subsection \<open>Effect of the pool operations on ownership\<close>

lemma holds_unowned:
  assumes h: "holds L0 pool pod asg L" and wf: "claims_wf L0"
  shows "L k = L0 k \<or> owner_of L0 k = None"
proof (cases "\<exists>n \<in> snd ` set asg. k = (ap_Namespace pool, n)")
  case True
  then obtain cache n where n: "(cache, n) \<in> set asg" "k = (ap_Namespace pool, n)" by auto
  with h have "was_free_for L0 pool cache n" by (auto simp: holds_def)
  then have "owner_of L0 (ap_Namespace pool, n) = None"
    using wf_free_unowned [OF wf] by (auto simp: was_free_for_def)
  with n(2) show ?thesis by simp
next
  case False
  with h show ?thesis by (auto simp: holds_def)
qed

lemma recoverable_unowned:
  assumes "recoverable L0 pool pod L"
  shows "L k = L0 k \<or> owner_of L0 k = None"
proof -
  from assms obtain N where N: "were_free L0 (ap_Namespace pool) N"
    "restorable L0 N (ap_Namespace pool) pod L" unfolding recoverable_def by blast
  from N(2) have "L k = L0 k \<or> (\<exists>n \<in> N. k = (ap_Namespace pool, n))" unfolding restorable_def by blast
  moreover have "owner_of L0 (ap_Namespace pool, n) = None" if "n \<in> N" for n
    using N(1) that by (auto simp: were_free_def owner_of_def)
  ultimately show ?thesis by auto
qed

lemma provisioned_unowned:
  assumes "provisioned pool C I L L'"
  shows "L' k = L k \<or> owner_of L k = None"
proof -
  have "L' k = L k \<or> L k = None"
    using assms [unfolded provisioned_def, THEN spec [of _ k]] by auto
  then show ?thesis by (auto simp: owner_of_def)
qed

lemma freed_owned:
  assumes "owned L P" and K: "K \<subseteq> claims_of L pool pod"
    and gone: "\<And>p. P (ap_Namespace pool, pod) = Some p \<Longrightarrow> completed p"
  shows "owned (freed K L) P"
  unfolding owned_def
proof (intro allI impI ballI)
  fix ns a p n
  assume p: "P (ns, a) = Some p" "live_agent p" "n \<in> mounts p"
  from ownedD [OF assms(1) p] have own: "owner_of L (ns, n) = Some a" .
  have "(ns, n) \<notin> K"
  proof
    assume "(ns, n) \<in> K"
    with K have "(ns, n) \<in> claims_of L pool pod" by blast
    with own have "ns = ap_Namespace pool" "a = pod" by (auto simp: in_claims_of owner_of_def)
    with gone p show False by (auto simp: live_agent_def)
  qed
  with own show "owner_of (freed K L) (ns, n) = Some a" by (simp add: owner_of_def freed_def)
qed

text \<open>The claims that a new pod mounts are the assigned ones.\<close>

lemma served_assigned: "(cv, n) \<in> set (served asg cvs) \<Longrightarrow> n \<in> snd ` set asg"
  by (auto simp: served_def split: option.splits) (metis map_of_SomeD snd_conv image_eqI)

lemma mounts_buildAgentPod: "mounts (buildAgentPod pool podName asg) \<subseteq> snd ` set asg"
  by (auto simp: mounts_def buildAgentPod_volumes dest: served_assigned)

lemma holds_owner:
  assumes "holds L0 pool pod asg L" and "n \<in> snd ` set asg"
  shows "owner_of L (ap_Namespace pool, n) = Some pod"
proof -
  from assms(2) obtain cache where "(cache, n) \<in> set asg" by auto
  with assms(1) obtain ls where "L0 (ap_Namespace pool, n) = Some ls"
    by (auto simp: holds_def was_free_for_def)
  with assms show ?thesis by (auto simp: holds_def owner_of_def set_assigned_def)
qed

text \<open>
  The state of a cluster, given how its claims and pods are observed: well-formed claims and a
  property of the claims and pods.  With \<open>owned\<close> for the property it is the invariant of the cluster.
\<close>

definition tracked :: "(label_view \<Rightarrow> pod_view \<Rightarrow> bool) \<Rightarrow> ('w \<Rightarrow> claims) \<Rightarrow> ('w \<Rightarrow> pod_view) \<Rightarrow> 'w \<Rightarrow> bool" where
  "tracked E store pods w \<longleftrightarrow> claims_wf (lab (store w)) \<and> E (lab (store w)) (pods w)"

abbreviation cluster_inv :: "('w \<Rightarrow> claims) \<Rightarrow> ('w \<Rightarrow> pod_view) \<Rightarrow> 'w \<Rightarrow> bool" where
  "cluster_inv \<equiv> tracked owned"

section \<open>The contract\<close>

definition admissible :: "string \<Rightarrow> AgentPool \<Rightarrow> bool" where
  "admissible ns pool \<longleftrightarrow> ap_Namespace pool = ns \<and> distinct (map cv_Name (sp_CacheVolumes (ap_Spec pool)))"

locale cluster_api = pvc_api c m store
  for c :: "'w client" and m :: "'w machinery" and store :: "'w \<Rightarrow> claims" +
  fixes tr :: "'w transport" and pods :: "'w \<Rightarrow> pod_view"
  assumes pods_key: "pods w (ns, a) = Some p \<Longrightarrow> pod_key p = (ns, a)"
    and create_pod_ok: "c_CreatePod c p w = (Ok u, w') \<Longrightarrow> store w' = store w
      \<and> pods w (pod_key p) = None
      \<and> (\<exists>p'. pod_key p' = pod_key p \<and> pod_Labels p' = pod_Labels p \<and> pod_Phase p' = PodPending
            \<and> ps_Volumes (pod_Spec p') = ps_Volumes (pod_Spec p) \<and> pods w' = (pods w)(pod_key p \<mapsto> p'))"
    and create_pod_err: "c_CreatePod c p w = (Err e, w') \<Longrightarrow> store w' = store w \<and> pods w' = pods w"
    and delete_pod: "c_DeletePod c p w = (r, w') \<Longrightarrow> store w' = store w
      \<and> (pods w' = pods w \<or> pods w' = (pods w)(pod_key p := None))"
    and list_pods: "c_ListPods c ns sel w = (ps, w') \<Longrightarrow> store w' = store w \<and> pods w' = pods w
      \<and> (\<forall>xs. ps = Ok xs \<longrightarrow> (\<forall>p \<in> set xs. pods w (ns, pod_Name p) = Some p))"
    and patch_pods: "c_PatchPVC c base v w = (rp, w') \<Longrightarrow> pods w' = pods w"
    and create_pvc_pods: "c_CreatePVC c v w = (ru, w') \<Longrightarrow> pods w' = pods w"
    and get_pvc_pods: "c_GetPVC c nn w = (rp, w') \<Longrightarrow> pods w' = pods w"
    and list_pvc_pods: "c_ListPVCs c ns sel w = (rps, w') \<Longrightarrow> pods w' = pods w"
    and order_pods: "m_RangeOrder m xs w = (ys, w') \<Longrightarrow> pods w' = pods w"
    and intn_frame: "m_Intn m i w = (j, w') \<Longrightarrow> store w' = store w \<and> pods w' = pods w"
    and get_pool_frame: "c_GetPool c nn w = (rpool, w') \<Longrightarrow> store w' = store w \<and> pods w' = pods w
      \<and> (\<forall>pool. rpool = Ok pool \<longrightarrow> admissible (nn_Namespace nn) pool)"
    and get_secret_frame: "c_GetSecret c nn w = (rs, w') \<Longrightarrow> store w' = store w \<and> pods w' = pods w"
    and update_pool_frame: "c_UpdatePool c pool w = (rpool, w') \<Longrightarrow> store w' = store w \<and> pods w' = pods w"
    and update_status_frame: "c_UpdateStatus c pool w = (rpool, w') \<Longrightarrow>
      store w' = store w \<and> pods w' = pods w
      \<and> (\<forall>pool'. rpool = Ok pool' \<longrightarrow> admissible (ap_Namespace pool) pool')"
    and http_frame: "t_Do tr q w = (rh, w') \<Longrightarrow> store w' = store w \<and> pods w' = pods w"
    and pod_owner: "m_SetPodOwner m pool p = Ok p' \<Longrightarrow> pod_key p' = pod_key p
      \<and> pod_Labels p' = pod_Labels p \<and> ps_Volumes (pod_Spec p') = ps_Volumes (pod_Spec p)"

text \<open>
  Properties that the operator keeps: they survive changes of claims that have no owner, the removal
  of pods, the creation of a pod that owns what it mounts, and the release of the claims of a pod
  that may be released.  A pod that is seen completed may be released, also after its removal.
\<close>

locale tracked_cluster = cluster_api c m store tr pods
  for c :: "'w client" and m :: "'w machinery" and store :: "'w \<Rightarrow> claims"
    and tr :: "'w transport" and pods :: "'w \<Rightarrow> pod_view" +
  fixes E :: "label_view \<Rightarrow> pod_view \<Rightarrow> bool" and releasable :: "pod_view \<Rightarrow> key \<Rightarrow> bool"
  assumes E_unowned: "E L P \<Longrightarrow> (\<And>k. L' k = L k \<or> owner_of L k = None) \<Longrightarrow> E L' P"
    and E_remove: "E L P \<Longrightarrow> E L (P(k := None))"
    and E_add: "E L P \<Longrightarrow> \<not> completed p \<Longrightarrow> (\<And>n. n \<in> mounts p \<Longrightarrow> owner_of L (ns, n) = Some a) \<Longrightarrow>
      E L (P((ns, a) \<mapsto> p))"
    and E_freed: "E L P \<Longrightarrow> releasable P (ap_Namespace pool, pod) \<Longrightarrow> K \<subseteq> claims_of L pool pod \<Longrightarrow>
      E (freed K L) P"
    and releasable_completed: "E L P \<Longrightarrow> P k = Some p \<Longrightarrow> completed p \<Longrightarrow> releasable P k"
    and releasable_remove: "releasable P k \<Longrightarrow> releasable (P(k' := None)) k"

section \<open>Frames\<close>

lemma keeps_world_call:
  "(\<And>w x w'. f w = (x, w') \<Longrightarrow> I w \<Longrightarrow> I w') \<Longrightarrow> keeps (\<lambda>s. I (world s)) (call f ob)"
  by (auto simp: keeps_def call_def split: prod.split)

lemma keeps_world_ask:
  "(\<And>w x w'. f w = (x, w') \<Longrightarrow> I w \<Longrightarrow> I w') \<Longrightarrow> keeps (\<lambda>s. I (world s)) (ask f)"
  by (auto simp: keeps_def ask_def split: prod.split)

lemma keeps_world_tell [keeps_intros]: "keeps (\<lambda>s. I (world s)) (tell ob)"
  by (simp add: keeps_def tell_def)

lemma keeps_map_set [keeps_intros]: "keeps I (map_set g k v)"
  by (simp add: map_set_def keeps_intros split: option.split)

lemma keeps_wp: "keeps I p \<Longrightarrow> I s \<Longrightarrow> wp p (\<lambda>r t. I t) s"
  by (rule wp_runI) (rule keeps_run)

lemma keepsI: "(\<And>s. I s \<Longrightarrow> wp p (\<lambda>r t. I t) s) \<Longrightarrow> keeps I p"
  unfolding keeps_def wp_def by (metis case_prod_beta)

context cluster_api
begin

text \<open>The pool operations do not touch pods.\<close>

lemma keeps_pods_pvc_calls:
  "keeps (\<lambda>s. pods (world s) = P) (r_GetPVC c nn)"
  "keeps (\<lambda>s. pods (world s) = P) (r_ListPVCs c ns sel)"
  "keeps (\<lambda>s. pods (world s) = P) (r_CreatePVC c v)"
  "keeps (\<lambda>s. pods (world s) = P) (r_PatchPVC c base v)"
  "keeps (\<lambda>s. pods (world s) = P) (ask (m_RangeOrder m xs))"
  unfolding call_defs
  by (rule keeps_world_call keeps_world_ask;
      simp add: get_pvc_pods list_pvc_pods create_pvc_pods patch_pods order_pods)+

lemma keeps_pods_releasePVC: "keeps (\<lambda>s. pods (world s) = P) (releasePVC c v)"
  unfolding releasePVC_def by (intro keeps_intros keeps_pods_pvc_calls)

lemma keeps_pods_release_loop: "keeps (\<lambda>s. pods (world s) = P) (release_loop c vs fe)"
  by (induction vs arbitrary: fe) (auto intro!: keeps_intros keeps_pods_releasePVC)

lemma keeps_pods_release: "keeps (\<lambda>s. pods (world s) = P) (releasePVCsForPod c pool pod)"
  unfolding releasePVCsForPod_def by (intro keeps_intros keeps_pods_pvc_calls keeps_pods_release_loop)

lemma keeps_pods_rollback_loop: "keeps (\<lambda>s. pods (world s) = P) (rollback_loop c ns names)"
  by (induction names) (auto intro!: keeps_intros keeps_pods_pvc_calls keeps_pods_releasePVC)

lemma keeps_pods_rollback: "keeps (\<lambda>s. pods (world s) = P) (rollbackAssignedPVCs c m ns asg)"
  unfolding rollbackAssignedPVCs_def by (intro keeps_intros keeps_pods_pvc_calls keeps_pods_rollback_loop)

lemma keeps_pods_assign_template: "keeps (\<lambda>s. pods (world s) = P) (assign_template c m pool pod cv asg)"
  unfolding assign_template_def assign_claim_def
  by (auto intro!: keeps_intros keeps_pods_pvc_calls keeps_pods_rollback split: list.split)

lemma keeps_pods_assign_loop: "keeps (\<lambda>s. pods (world s) = P) (assign_loop c m pool pod cvs asg)"
  by (induction cvs arbitrary: asg) (auto intro!: keeps_intros keeps_pods_assign_template)

lemma keeps_pods_findAndAssign: "keeps (\<lambda>s. pods (world s) = P) (findAndAssignPVCs c m pool pod)"
  unfolding findAndAssignPVCs_def by (intro keeps_intros keeps_pods_assign_loop)

lemma keeps_pods_ensure_slots: "keeps (\<lambda>s. pods (world s) = P) (ensure_slots c m pool cv is)"
  by (induction "is") (auto simp: ensure_slot_def Let_def intro!: keeps_intros keeps_pods_pvc_calls)

lemma keeps_pods_ensure_templates: "keeps (\<lambda>s. pods (world s) = P) (ensure_templates c m pool cvs)"
  by (induction cvs) (auto intro!: keeps_intros keeps_pods_ensure_slots)

lemma keeps_pods_ensure: "keeps (\<lambda>s. pods (world s) = P) (ensurePVCPool c m pool)"
  unfolding ensurePVCPool_def by (intro keeps_intros keeps_pods_ensure_templates)

end

context tracked_cluster
begin

text \<open>The remaining calls touch neither.\<close>

abbreviation safe :: "('w sys, 'a) go \<Rightarrow> bool" where
  "safe p \<equiv> keeps (\<lambda>s. tracked E store pods (world s)) p"

lemma safe_calls:
  "safe (r_GetPool c nn)" "safe (r_GetSecret c nn)" "safe (r_UpdatePool c pool)"
  "safe (r_UpdateStatus c pool)" "safe (r_ListPods c ns sel)" "safe (ask (m_Intn m i))"
  "safe (http_Do tr q)" "safe (r_ListPVCs c ns sel)" "safe (tell ob)"
  unfolding call_defs http_Do_def tracked_def
  by (rule keeps_world_call keeps_world_ask keeps_world_tell;
      simp add: get_pool_frame get_secret_frame update_pool_frame update_status_frame list_pods
        intn_frame http_frame list_pvc_pods list_store)+

lemma safe_json: "safe (getJSON tr cl url decode zero)" "safe (postJSON tr cl url body)" "safe (deleteJSON tr cl url)"
  unfolding getJSON_def postJSON_def deleteJSON_def by (intro keeps_intros safe_calls)+

lemma keeps_index0: "keeps I (index0 xs)"
  by (simp add: index0_def keeps_intros split: list.split)

lemma safe_ado:
  "safe (ado_GetPoolID (Client_face tr cl) org name)"
  "safe (ado_GetJobStatus (Client_face tr cl) org pid)"
  "safe (ado_RegisterDummyAgent (Client_face tr cl) org pid name)"
  "safe (ado_UnregisterAgent (Client_face tr cl) org pid aid)"
  "safe (ado_GetAgentByName (Client_face tr cl) org pid name)"
  unfolding Client_face_def GetPoolID_def GetJobStatus_def RegisterDummyAgent_def UnregisterAgent_def
    GetAgentByName_def Let_def adoClientFace.simps
  by (intro keeps_intros safe_json keeps_index0)+

end

section \<open>Every operation keeps the invariant\<close>

context tracked_cluster
begin

lemma inv_holds:
  assumes "holds L0 pool pod asg (lab (store w))" and "claims_wf L0" and "E L0 (pods w)"
  shows "tracked E store pods w"
  using holds_wf [OF assms(1,2)] E_unowned [OF assms(3) holds_unowned [OF assms(1,2)]] by (simp add: tracked_def)

lemma inv_recoverable:
  assumes "recoverable L0 pool pod (lab (store w))" and "claims_wf L0" and "E L0 (pods w)"
  shows "tracked E store pods w"
  using recoverable_wf [OF assms(1,2)] E_unowned [OF assms(3) recoverable_unowned [OF assms(1)]] by (simp add: tracked_def)

lemma wp_inv_rollback:
  assumes h: "holds L0 pool pod asg (lab (store (world t)))" and wf: "claims_wf L0"
    and own: "E L0 (pods (world t))"
  shows "wp (go_bind (rollbackAssignedPVCs c m (ap_Namespace pool) asg) (\<lambda>_. go_ret x))
           (\<lambda>r u. r = Ret x \<and> tracked E store pods (world u)) t"
proof (rule wp_bindI)
  note free = holds_were_free [OF h wf]
  show "wp (rollbackAssignedPVCs c m (ap_Namespace pool) asg)
      (\<lambda>r u. (r = Ret () \<and> restorable L0 (snd ` set asg) (ap_Namespace pool) pod (lab (store (world u))))
         \<and> pods (world u) = pods (world t)) t"
    by (intro wp_conj wp_rollback [OF holds_restorable [OF h] free subset_refl]
        keeps_wp keeps_pods_rollback refl)
  fix y and u :: "'w sys"
  assume u: "(Ret y = Ret () \<and> restorable L0 (snd ` set asg) (ap_Namespace pool) pod (lab (store (world u))))
      \<and> pods (world u) = pods (world t)"
  with free have "recoverable L0 pool pod (lab (store (world u)))" unfolding recoverable_def by blast
  with u wf own have "tracked E store pods (world u)" by (auto intro: inv_recoverable)
  then show "wp (go_ret x) (\<lambda>r u. r = Ret x \<and> tracked E store pods (world u)) u" by (simp add: wp_ret)
qed simp

lemma wp_inv_launch:
  assumes h: "holds L0 pool pod asg (lab (store (world t)))" and wf: "claims_wf L0"
    and own: "E L0 (pods (world t))"
  shows "wp (launch_pod c m pool pod asg)
           (\<lambda>r u. returned r \<and> tracked E store pods (world u)) t"
proof (cases "m_SetPodOwner m pool (buildAgentPod pool pod asg)")
  case (Inl e)
  then show ?thesis by (auto simp: launch_pod_def intro: wp_mono [OF wp_inv_rollback [OF assms]])
next
  case (Inr p)
  note p = pod_owner [OF Inr]
  obtain r w' where r: "c_CreatePod c p (world t) = (r, w')" by fastforce
  show ?thesis
  proof (cases r)
    case (Inl e)
    let ?t = "t\<lparr>world := w', trace := trace t @ [CreatePod p False]\<rparr>"
    from create_pod_err [OF r [unfolded Inl]] have "wp (go_bind
        (rollbackAssignedPVCs c m (ap_Namespace pool) asg) (\<lambda>_. go_ret (Err (Wrapf ''create pod'' e))))
        (\<lambda>r u. returned r \<and> tracked E store pods (world u)) ?t"
      by (intro wp_mono [OF wp_inv_rollback [OF _ wf]]) (use h own in auto)
    with Inl Inr r show ?thesis by (simp add: launch_pod_def call_defs wp_bind wp_call)
  next
    case (Inr x)
    from create_pod_ok [OF r [unfolded Inr]] obtain p' where p': "pod_key p' = pod_key p"
      "ps_Volumes (pod_Spec p') = ps_Volumes (pod_Spec p)" "store w' = store (world t)"
      "pods w' = (pods (world t))(pod_key p \<mapsto> p')" "pod_Phase p' = PodPending" by blast
    have "mounts p' \<subseteq> snd ` set asg"
      using mounts_buildAgentPod [of pool pod asg] p p'(2) by (simp add: mounts_def)
    then have "owner_of (lab (store w')) (ap_Namespace pool, n) = Some pod" if "n \<in> mounts p'" for n
      using holds_owner [OF h] that p'(3) by (auto simp: subset_iff)
    moreover have "\<not> completed p'" using p'(5) by (simp add: completed_def)
    moreover note E_unowned [OF own holds_unowned [OF h wf]]
    ultimately have "E (lab (store w')) (pods w')"
      using p'(3,4) p by (auto intro: E_add)
    with holds_wf [OF h wf] p'(3) have "tracked E store pods w'" by (simp add: tracked_def)
    with Inr \<open>m_SetPodOwner m pool _ = Ok p\<close> r show ?thesis
      by (simp add: launch_pod_def call_defs wp_simps)
  qed
qed

lemma safe_randomString: "keeps (\<lambda>s. store (world s) = S \<and> pods (world s) = P) (randomString m n)"
proof (induction n)
  case (Suc n)
  have "keeps (\<lambda>s. store (world s) = S \<and> pods (world s) = P) (ask (m_Intn m i))" for i
    by (rule keeps_world_ask [where I = "\<lambda>w. store w = S \<and> pods w = P"]) (auto dest: intn_frame)
  with Suc show ?case by (auto simp: charset_at_def intro!: keeps_intros)
qed (simp add: keeps_intros)

text \<open>Once the pod has a name, assignment and launch return and keep the invariant.\<close>

lemma wp_inv_named:
  assumes inv: "tracked E store pods (world t)"
    and dist: "distinct (map cv_Name (sp_CacheVolumes (ap_Spec pool)))"
  shows "wp (if sp_CacheVolumes (ap_Spec pool) \<noteq> [] then
        go_bind (findAndAssignPVCs c m pool podName) (\<lambda>r. case r of
          Err e \<Rightarrow> go_ret (Err (Wrapf ''assign PVCs'' e))
        | Ok asg \<Rightarrow> launch_pod c m pool podName asg)
      else launch_pod c m pool podName [])
      (\<lambda>r u. returned r \<and> tracked E store pods (world u)) t"
proof -
  let ?L = "lab (store (world t))" and ?P = "pods (world t)"
  let ?Q = "\<lambda>r u. returned r \<and> tracked E store pods (world u)"
  from inv have wf: "claims_wf ?L" and own: "E ?L ?P" by (simp_all add: tracked_def)
  have "wp (findAndAssignPVCs c m pool podName)
      (\<lambda>r u. ends (\<lambda>asg L. holds ?L pool podName asg L \<and> map fst asg = map cv_Name (sp_CacheVolumes (ap_Spec pool)))
            (recoverable ?L pool podName) r (lab (store (world u))) \<and> pods (world u) = ?P) t"
    using findAndAssign_any [of t pool podName] wf dist
    by (intro wp_conj keeps_wp keeps_pods_findAndAssign) simp_all
  then have "wp (go_bind (findAndAssignPVCs c m pool podName) (\<lambda>r. case r of
        Err e \<Rightarrow> go_ret (Err (Wrapf ''assign PVCs'' e))
      | Ok asg \<Rightarrow> launch_pod c m pool podName asg)) ?Q t"
    by (rule wp_bindI)
       (auto simp: wp_ret wf own split: sum.split intro!: wp_inv_launch intro: inv_recoverable)
  moreover have "wp (launch_pod c m pool podName []) ?Q t"
    using wf own by (intro wp_inv_launch [where ?L0.0 = ?L]) simp_all
  ultimately show ?thesis by simp
qed

lemma safe_name: "safe (agent_pod_name m pool)"
proof (rule keepsI)
  fix s :: "'w sys"
  assume inv: "tracked E store pods (world s)"
  have "keeps (\<lambda>t. store (world t) = store (world s) \<and> pods (world t) = pods (world s)) (agent_pod_name m pool)"
    unfolding agent_pod_name_def by (intro keeps_intros safe_randomString)
  from keeps_wp [OF this] show "wp (agent_pod_name m pool) (\<lambda>r t. tracked E store pods (world t)) s"
    by (rule wp_mono) (use inv in \<open>simp_all add: tracked_def\<close>)
qed

lemma safe_createAgentPod:
  assumes "distinct (map cv_Name (sp_CacheVolumes (ap_Spec pool)))"
  shows "safe (createAgentPod c m pool)"
  unfolding createAgentPod_def
  by (intro keeps_bind safe_name keepsI) (rule wp_mono [OF wp_inv_named [OF _ assms]], auto)

lemma safe_delete: "safe (r_DeletePod c p)"
proof -
  have "tracked E store pods w'" if "c_DeletePod c p w = (r, w')" "tracked E store pods w" for w r w'
    using delete_pod [OF that(1)] that(2) by (auto simp: tracked_def intro: E_remove)
  then show ?thesis unfolding call_defs by (rule keeps_world_call)
qed

lemma safe_scaleDown: "safe (scaleDown c pool ps n busy)"
proof -
  have "safe (scale_down_loop c pool ps n busy d)" for d
    by (induction ps arbitrary: d) (auto intro!: keeps_intros safe_delete)
  then show ?thesis unfolding scaleDown_def .
qed

lemma safe_ensurePVCPool: "safe (ensurePVCPool c m pool)"
proof (rule keepsI)
  fix s :: "'w sys"
  assume inv: "tracked E store pods (world s)"
  have "wp (ensurePVCPool c m pool) (\<lambda>r t. (\<exists>C I. provisioned pool C I (lab (store (world s))) (lab (store (world t))))
        \<and> pods (world t) = pods (world s)) s"
    by (intro wp_conj keeps_wp keeps_pods_ensure refl wp_mono [OF ensurePVCPool_spec])
       (auto simp: ends_def split: outcome.splits sum.splits)
  then show "wp (ensurePVCPool c m pool) (\<lambda>r t. tracked E store pods (world t)) s"
    by (rule wp_mono)
       (use inv in \<open>auto simp: tracked_def intro: provisioned_wf E_unowned [OF _ provisioned_unowned]\<close>)
qed

end

text \<open>The completed pods of a list may be released.\<close>

context tracked_cluster
begin

abbreviation finished_in :: "Pod list \<Rightarrow> pod_view \<Rightarrow> bool" where
  "finished_in ps P \<equiv> \<forall>p \<in> set ps. completed p \<longrightarrow> releasable P (pod_key p)"

lemma keeps_cleanup_release:
  assumes "p \<in> set ps" and "completed p" and "pod_Namespace p = ap_Namespace pool"
  shows "keeps (\<lambda>s. tracked E store pods (world s) \<and> finished_in ps (pods (world s)))
           (releasePVCsForPod c pool (pod_Name p))"
proof (rule keepsI)
  fix s :: "'w sys"
  let ?L = "lab (store (world s))" and ?P = "pods (world s)"
  assume inv: "tracked E store pods (world s) \<and> finished_in ps ?P"
  from inv assms have rel: "releasable ?P (ap_Namespace pool, pod_Name p)" by auto
  have spec: "wp (releasePVCsForPod c pool (pod_Name p))
      (\<lambda>r t. (\<exists>K \<subseteq> claims_of ?L pool (pod_Name p). lab (store (world t)) = freed K ?L) \<and> pods (world t) = ?P) s"
  proof (rule wp_conj [OF wp_mono [OF releasePVCsForPod_spec]])
    show "wp (releasePVCsForPod c pool (pod_Name p)) (\<lambda>r t. pods (world t) = ?P) s"
      by (intro keeps_wp keeps_pods_release refl)
    fix r and t :: "'w sys"
    let ?F = "\<lambda>L. \<exists>K \<subseteq> claims_of ?L pool (pod_Name p). L = freed K ?L"
    assume "ends (\<lambda>_ L. L = freed (claims_of ?L pool (pod_Name p)) ?L) ?F r (lab (store (world t)))"
    then have "ends (\<lambda>_. ?F) ?F r (lab (store (world t)))" by (rule ends_mono) (blast, assumption)
    then show "?F (lab (store (world t)))" by (rule ends_same)
  qed
  show "wp (releasePVCsForPod c pool (pod_Name p))
      (\<lambda>r t. tracked E store pods (world t) \<and> finished_in ps (pods (world t))) s"
  proof (rule wp_mono [OF spec])
    fix r and t :: "'w sys"
    assume "(\<exists>K \<subseteq> claims_of ?L pool (pod_Name p). lab (store (world t)) = freed K ?L) \<and> pods (world t) = ?P"
    then obtain K where K: "K \<subseteq> claims_of ?L pool (pod_Name p)" "lab (store (world t)) = freed K ?L"
      and P: "pods (world t) = ?P" by blast
    have "E (freed K ?L) ?P"
      using inv by (intro E_freed [OF _ rel K(1)]) (simp add: tracked_def)
    with inv K(2) P show "tracked E store pods (world t) \<and> finished_in ps (pods (world t))"
      by (simp add: tracked_def freed_wf)
  qed
qed

lemma keeps_cleanup_delete_call:
  "keeps (\<lambda>s. tracked E store pods (world s) \<and> finished_in ps (pods (world s))) (r_DeletePod c p)"
proof -
  have "tracked E store pods w' \<and> finished_in ps (pods w')"
    if "c_DeletePod c p w = (r, w')" "tracked E store pods w \<and> finished_in ps (pods w)" for w r w'
  proof -
    have "releasable ((pods w)(k := None)) (pod_key q)" if "q \<in> set ps" "completed q" for q k
      using \<open>tracked E store pods w \<and> finished_in ps (pods w)\<close> that by (intro releasable_remove) blast
    with delete_pod [OF that(1)] that(2) show ?thesis by (auto simp: tracked_def intro: E_remove)
  qed
  then show ?thesis
    unfolding call_defs
    by (rule keeps_world_call [where I = "\<lambda>w. tracked E store pods w \<and> finished_in ps (pods w)"])
qed

lemma keeps_cleanup_loop:
  assumes ns: "\<And>p. p \<in> set ps \<Longrightarrow> pod_Namespace p = ap_Namespace pool" and "set qs \<subseteq> set ps"
  shows "keeps (\<lambda>s. tracked E store pods (world s) \<and> finished_in ps (pods (world s)))
           (cleanup_loop c m pool qs fe)"
  using assms(2)
proof (induction qs arbitrary: fe)
  case Nil
  then show ?case by (simp add: keeps_intros)
next
  case (Cons p qs)
  let ?I = "\<lambda>s. tracked E store pods (world s) \<and> finished_in ps (pods (world s))"
  have tell: "keeps ?I (tell ob)" for ob
    by (rule keeps_world_tell [where I = "\<lambda>w. tracked E store pods w \<and> finished_in ps (pods w)"])
  have "keeps ?I (cleanup_release c pool p fe)" if "completed p" for fe
    unfolding cleanup_release_def using that ns Cons.prems
    by (intro keeps_intros keeps_cleanup_release) auto
  moreover have "keeps ?I (cleanup_delete c m pool p fe)" for fe
    unfolding cleanup_delete_def by (intro keeps_intros keeps_cleanup_delete_call tell)
  ultimately show ?case using Cons by (auto intro!: keeps_intros)
qed

lemma wp_safe_cleanup:
  assumes "\<And>p. p \<in> set ps \<Longrightarrow> pods (world s) (ap_Namespace pool, pod_Name p) = Some p"
    and "tracked E store pods (world s)"
  shows "wp (cleanupCompletedPods c m pool ps) (\<lambda>r t. tracked E store pods (world t)) s"
proof -
  have ns: "pod_Namespace p = ap_Namespace pool" if "p \<in> set ps" for p
    using pods_key [OF assms(1) [OF that]] by simp
  have "finished_in ps (pods (world s))"
    using assms ns releasable_completed by (auto simp: tracked_def)
  with assms(2) have start: "tracked E store pods (world s) \<and> finished_in ps (pods (world s))" ..
  have "keeps (\<lambda>s. tracked E store pods (world s) \<and> finished_in ps (pods (world s)))
      (cleanupCompletedPods c m pool ps)"
    unfolding cleanupCompletedPods_def by (intro keeps_intros keeps_cleanup_loop ns subset_refl)
  from keeps_wp [OF this start] show ?thesis by (rule wp_mono) simp
qed

lemma safe_create_loop:
  "distinct (map cv_Name (sp_CacheVolumes (ap_Spec pool))) \<Longrightarrow> safe (create_loop c m pool ns n k)"
  by (induction n arbitrary: k)
     (auto simp: recordReconcileError_def intro!: keeps_intros safe_createAgentPod safe_calls)

lemma safe_scale:
  "distinct (map cv_Name (sp_CacheVolumes (ap_Spec pool))) \<Longrightarrow>
     safe (reconcile_scale c m pool ns n ps desired busy)"
  unfolding reconcile_scale_def Let_def by (intro keeps_intros safe_create_loop safe_scaleDown)

lemma safe_dummy: "safe (manageDummyAgent (Client_face tr cl) pool desired)"
  unfolding manageDummyAgent_def register_dummy_def unregister_dummy_def
  by (intro keeps_intros safe_ado safe_calls)

lemma safe_count: "safe (countFreePVCSlots c pool)"
proof -
  have "safe (count_loop c pool cvs n)" for cvs n
    by (induction cvs arbitrary: n) (auto intro!: keeps_intros safe_calls)
  then show ?thesis unfolding countFreePVCSlots_def by (intro keeps_intros)
qed

lemma safe_status:
  "safe (reconcile_status (operator c m tr) req pool (Client_face tr cl) js desired n)"
  unfolding reconcile_status_def Let_def recordMetrics_def recordReconcileError_def operator_fields
  by (intro keeps_intros safe_dummy safe_calls safe_count)

lemma safe_pods:
  assumes "admissible (nn_Namespace req) pool"
  shows "safe (reconcile_pods (operator c m tr) req pool (Client_face tr cl) js)"
proof (rule keepsI)
  fix s :: "'w sys"
  let ?I = "\<lambda>r t. tracked E store pods (world t)"
  let ?d = "clamp (to_int32 (js_Pending js)) (sp_MinAgents (ap_Spec pool)) (sp_MaxAgents (ap_Spec pool))"
  assume inv: "tracked E store pods (world s)"
  have rest: "safe (go_bind (reconcile_scale c m pool (nn_Namespace req) n ps ?d busy)
      (\<lambda>n. reconcile_status (operator c m tr) req pool (Client_face tr cl) js ?d n))" for n ps busy
    using assms by (intro keeps_intros safe_scale safe_status) (simp add: admissible_def)
  obtain r w' where r: "c_ListPods c (nn_Namespace req) [(labelPoolName, ap_Name pool)] (world s) = (r, w')"
    by fastforce
  note frame = list_pods [OF r]
  let ?s = "s\<lparr>world := w', trace := trace s @ [ListPods (nn_Namespace req) [(labelPoolName, ap_Name pool)]]\<rparr>"
  have inv': "tracked E store pods (world ?s)" using inv frame by (simp add: tracked_def)
  show "wp (reconcile_pods (operator c m tr) req pool (Client_face tr cl) js) ?I s"
  proof (cases r)
    case (Inl e)
    with r inv' show ?thesis by (simp add: reconcile_pods_def call_defs wp_bind wp_call wp_ret)
  next
    case (Inr ps)
    have "wp (cleanupCompletedPods c m pool ps) ?I ?s"
      using frame Inr assms inv' by (intro wp_safe_cleanup) (auto simp: admissible_def)
    then have "wp (go_bind (cleanupCompletedPods c m pool ps) (\<lambda>_.
        go_bind (reconcile_scale c m pool (nn_Namespace req) (int (length (filter active ps)))
            (filter active ps) ?d (js_BusyAgentNames js))
          (\<lambda>n. reconcile_status (operator c m tr) req pool (Client_face tr cl) js ?d n))) ?I ?s"
      by (rule wp_bindI) (auto intro: keeps_wp [OF rest])
    with r Inr show ?thesis
      by (simp add: reconcile_pods_def call_defs wp_bind wp_call countActivePods_active Let_def)
  qed
qed

lemma safe_fail_condition: "safe (fail_condition c m pool reason msg)"
  unfolding fail_condition_def Let_def by (intro keeps_intros safe_calls)

lemma safe_jobs:
  assumes "admissible (nn_Namespace req) pool"
  shows "safe (reconcile_jobs (operator c m tr) req pool (Client_face tr cl))"
  unfolding reconcile_jobs_def recordReconcileError_def operator_fields
  by (intro keeps_intros safe_ensurePVCPool safe_ado safe_calls safe_fail_condition safe_pods assms)

lemma wp_inv_resolve:
  fixes s :: "'w sys"
  assumes adm: "admissible ns pool" and inv: "tracked E store pods (world s)"
  shows "wp (resolvePoolID c m pool (Client_face tr cl))
      (\<lambda>r t. tracked E store pods (world t) \<and> (\<forall>p. r = Ret (Some p) \<longrightarrow> admissible ns p)) s"
proof (rule wp_conj)
  show "wp (resolvePoolID c m pool (Client_face tr cl)) (\<lambda>r t. tracked E store pods (world t)) s"
    unfolding resolvePoolID_def
    by (intro keeps_wp keeps_intros safe_ado safe_calls safe_fail_condition inv)
  have "c_UpdateStatus c p w = (Ok p', w') \<Longrightarrow> ap_Namespace p = ns \<Longrightarrow> admissible ns p'" for p w p' w'
    using update_status_frame by metis
  then show "wp (resolvePoolID c m pool (Client_face tr cl))
      (\<lambda>r t. \<forall>p. r = Ret (Some p) \<longrightarrow> admissible ns p) s"
    unfolding resolvePoolID_def
    by (rule_tac wp_after [where P = "\<lambda>_. True"])
       (use adm in \<open>auto simp: returns_def admissible_def fail_condition_def Let_def call_defs wp_simps
          split: sum.split prod.split\<close>)
qed

lemma safe_pool:
  assumes adm: "admissible (nn_Namespace req) pool"
  shows "safe (reconcile_pool (operator c m tr) req pool)"
proof -
  have jobs: "wp (reconcile_jobs (operator c m tr) req p (Client_face tr cl)) (\<lambda>r t. tracked E store pods (world t)) s"
    if "tracked E store pods (world s)" "admissible (nn_Namespace req) p" for p cl and s :: "'w sys"
    by (rule keeps_wp [OF safe_jobs [OF that(2)] that(1)])
  have resolved: "safe (go_bind (resolvePoolID c m pool (Client_face tr cl)) (\<lambda>r.
      case r of None \<Rightarrow> go_ret (requeue, None)
      | Some p \<Rightarrow> reconcile_jobs (operator c m tr) req p (Client_face tr cl)))" for cl
    by (rule keepsI, rule wp_bindI [OF wp_inv_resolve [OF adm]]) (auto simp: wp_ret intro!: jobs split: option.split)
  show ?thesis
    unfolding reconcile_pool_def fetchPAT_def Let_def operator_fields buildADOClient_operator
    by (intro resolved keeps_intros safe_calls safe_fail_condition safe_jobs [OF adm])
qed

lemma safe_Reconcile: "safe (Reconcile (operator c m tr) req)"
proof (rule keepsI)
  fix s :: "'w sys"
  let ?I = "\<lambda>r t. tracked E store pods (world t)"
  assume inv: "tracked E store pods (world s)"
  have del: "safe (handleDeletion (operator c m tr) pool)" for pool
    unfolding handleDeletion_def unregister_on_deletion_def Let_def operator_fields buildADOClient_operator
    by (intro keeps_intros safe_calls safe_ado)
  have add: "safe (go_bind (r_UpdatePool c p) (\<lambda>r. case r of Err e \<Rightarrow> go_ret (no_requeue, Some e)
      | Ok _ \<Rightarrow> go_ret (no_requeue, None)))" for p
    by (intro keeps_intros safe_calls)
  obtain r w' where r: "c_GetPool c req (world s) = (r, w')" by fastforce
  note frame = get_pool_frame [OF r]
  let ?s = "s\<lparr>world := w', trace := trace s @ [GetPool req]\<rparr>"
  have inv': "tracked E store pods (world ?s)" using inv frame by (simp add: tracked_def)
  show "wp (Reconcile (operator c m tr) req) ?I s"
  proof (cases r)
    case (Inl e)
    with r inv' show ?thesis by (simp add: Reconcile_def call_defs wp_bind wp_call wp_ret)
  next
    case (Inr pool)
    with frame have adm: "admissible (nn_Namespace req) pool" by simp
    have "wp (if ap_DeletionTimestamp pool \<noteq> None then handleDeletion (operator c m tr) pool
        else if \<not> m_ContainsFinalizer m pool finalizerName then
          go_bind (r_UpdatePool c (m_AddFinalizer m pool finalizerName)) (\<lambda>r.
            case r of Err e \<Rightarrow> go_ret (no_requeue, Some e) | Ok _ \<Rightarrow> go_ret (no_requeue, None))
        else reconcile_pool (operator c m tr) req pool) ?I ?s"
      using keeps_wp [OF del inv'] keeps_wp [OF add inv'] keeps_wp [OF safe_pool [OF adm] inv'] by simp
    then show ?thesis
      unfolding Reconcile_def operator_fields r_GetPool_def wp_bind [of "call _ _"] wp_call
        r [unfolded Inr] prod.case outcome.case sum.case .
  qed
qed

end

section \<open>Two properties that are kept\<close>

text \<open>Every claim that a live agent pod mounts is assigned to it.\<close>

sublocale cluster_api \<subseteq> own: tracked_cluster c m store tr pods owned "\<lambda>P k. \<forall>q. P k = Some q \<longrightarrow> completed q"
proof unfold_locales
  show "owned L P \<Longrightarrow> (\<And>k. L' k = L k \<or> owner_of L k = None) \<Longrightarrow> owned L' P" for L L' P
    by (rule owned_unowned)
  show "owned L P \<Longrightarrow> owned L (P(k := None))" for L P k
    by (rule owned_remove)
  show "owned L P \<Longrightarrow> (\<And>n. n \<in> mounts p \<Longrightarrow> owner_of L (ns, n) = Some a) \<Longrightarrow> owned L (P((ns, a) \<mapsto> p))"
    for L P p ns a by (rule owned_add)
  show "owned L P \<Longrightarrow> \<forall>q. P (ap_Namespace pool, pod) = Some q \<longrightarrow> completed q \<Longrightarrow> K \<subseteq> claims_of L pool pod \<Longrightarrow>
      owned (freed K L) P" for L P pool pod K by (rule freed_owned) blast+
qed simp_all

text \<open>A claim that belongs to a pod which has not completed (it is live, or gone) keeps its owner.\<close>

definition held :: "key \<Rightarrow> string \<Rightarrow> label_view \<Rightarrow> pod_view \<Rightarrow> bool" where
  "held k a L P \<longleftrightarrow> owner_of L k = Some a \<and> (\<forall>p. P (fst k, a) = Some p \<longrightarrow> \<not> completed p)"

lemma held_freed:
  assumes "held k a L P" and "(ap_Namespace pool, pod) \<noteq> (fst k, a)" and "K \<subseteq> claims_of L pool pod"
  shows "held k a (freed K L) P"
proof -
  have "k \<notin> K"
  proof
    assume "k \<in> K"
    with assms(3) have "k \<in> claims_of L pool pod" by blast
    with assms(1,2) show False by (cases k) (auto simp: in_claims_of owner_of_def held_def)
  qed
  with assms(1) show ?thesis by (simp add: held_def owner_of_def freed_def)
qed

lemma held_unowned:
  assumes "held k a L P" and "\<And>k. L' k = L k \<or> owner_of L k = None"
  shows "held k a L' P"
proof -
  from assms(1) have "owner_of L k = Some a" by (simp add: held_def)
  with assms(2) [of k] have "owner_of L' k = Some a" by (auto simp: owner_of_def)
  with assms(1) show ?thesis by (simp add: held_def)
qed

sublocale cluster_api \<subseteq> held: tracked_cluster c m store tr pods "held k a" "\<lambda>P k'. k' \<noteq> (fst k, a)" for k a
proof unfold_locales
  show "held k a L P \<Longrightarrow> (\<And>k. L' k = L k \<or> owner_of L k = None) \<Longrightarrow> held k a L' P" for L L' P
    by (rule held_unowned)
  show "held k a L P \<Longrightarrow> held k a L (P(k' := None))" for L P k'
    by (simp add: held_def)
  show "held k a L P \<Longrightarrow> \<not> completed p \<Longrightarrow> held k a L (P((ns, b) \<mapsto> p))" for L P p ns b
    by (simp add: held_def)
  show "held k a L P \<Longrightarrow> (ap_Namespace pool, pod) \<noteq> (fst k, a) \<Longrightarrow> K \<subseteq> claims_of L pool pod \<Longrightarrow>
      held k a (freed K L) P" for L P pool pod K by (rule held_freed)
  show "held k a L P \<Longrightarrow> P k' = Some p \<Longrightarrow> completed p \<Longrightarrow> k' \<noteq> (fst k, a)" for L P k' p
    by (auto simp: held_def)
qed simp_all

context cluster_api
begin

lemma keeps_ownership: "keeps (\<lambda>s. cluster_inv store pods (world s)) (Reconcile (operator c m tr) req)"
  by (rule own.safe_Reconcile)

lemma keeps_holder: "keeps (\<lambda>s. tracked (held k a) store pods (world s)) (Reconcile (operator c m tr) req)"
  by (rule held.safe_Reconcile)

end

end
