(* ===== verification/Operator_Runs.thy ===== *)
theory Operator_Runs
  imports Cluster_Contract
begin

text \<open>
  Runs of the operator.  The first part shows that a reconciliation never panics on a cluster whose
  invariant holds, when the API server follows its contract, random numbers are in range and list
  answers of Azure DevOps carry their length: every map the code assigns to is there, every index is
  in range.  The second part is a state machine: reconciliations of arbitrary pools interleaved with
  the moves of the cluster itself (pods start, complete and disappear, foreign pods come).  The
  invariant holds in every reachable state.
\<close>

named_theorems runs_intros \<open>rules deriving that a program returns and keeps an invariant\<close>

section \<open>Programs that return and keep an invariant\<close>

definition runs :: "('s \<Rightarrow> bool) \<Rightarrow> ('s, 'a) go \<Rightarrow> bool" where
  "runs I p \<longleftrightarrow> (\<forall>s. I s \<longrightarrow> (\<exists>x t. p s = (Ret x, t) \<and> I t))"

lemma runs_ret [runs_intros]: "runs I (go_ret x)"
  by (simp add: runs_def go_defs)

lemma runs_bind [runs_intros]: "runs I p \<Longrightarrow> (\<And>x. runs I (f x)) \<Longrightarrow> runs I (go_bind p f)"
  unfolding runs_def by (metis go_bind_Ret)

lemma runs_if [runs_intros]:
  "(b \<Longrightarrow> runs I p) \<Longrightarrow> (\<not> b \<Longrightarrow> runs I q) \<Longrightarrow> runs I (if b then p else q)"
  by simp

lemma runs_case_sum [runs_intros]:
  "(\<And>e. r = Inl e \<Longrightarrow> runs I (f e)) \<Longrightarrow> (\<And>x. r = Inr x \<Longrightarrow> runs I (g x))
     \<Longrightarrow> runs I (case r of Inl e \<Rightarrow> f e | Inr x \<Rightarrow> g x)"
  by (simp split: sum.split)

lemma runs_case_option [runs_intros]:
  "(r = None \<Longrightarrow> runs I f) \<Longrightarrow> (\<And>x. r = Some x \<Longrightarrow> runs I (g x))
     \<Longrightarrow> runs I (case r of None \<Rightarrow> f | Some x \<Rightarrow> g x)"
  by (simp split: option.split)

lemma runs_case_prod [runs_intros]:
  "(\<And>a b. r = (a, b) \<Longrightarrow> runs I (f a b)) \<Longrightarrow> runs I (case r of (a, b) \<Rightarrow> f a b)"
  by (simp split: prod.split)

lemma runs_completes: "completes p \<Longrightarrow> keeps I p \<Longrightarrow> runs I p"
  unfolding runs_def completes_def keeps_def by (metis snd_conv)

lemma returned_iff: "(\<exists>x t. y = (Ret x, t) \<and> I t) \<longleftrightarrow> (case y of (r, t) \<Rightarrow> returned r \<and> I t)"
  by (cases y, cases "fst y") auto

lemma runs_iff_wp: "runs I p \<longleftrightarrow> (\<forall>s. I s \<longrightarrow> wp p (\<lambda>r t. returned r \<and> I t) s)"
  unfolding runs_def wp_def returned_iff ..

lemma runs_wpI: "(\<And>s. I s \<Longrightarrow> wp p (\<lambda>r t. returned r \<and> I t) s) \<Longrightarrow> runs I p"
  by (simp add: runs_iff_wp)

lemma runs_wp: "runs I p \<Longrightarrow> I s \<Longrightarrow> wp p (\<lambda>r t. returned r \<and> I t) s"
  by (simp add: runs_iff_wp)

lemma ends_returned: "ends G F r L \<Longrightarrow> returned r"
  by (cases r) simp_all

section \<open>No panic\<close>

locale sound_cluster = cluster_api c m store tr pods + random_source m + counted_answers tr
  for c :: "'w client" and m :: "'w machinery" and store :: "'w \<Rightarrow> claims"
    and tr :: "'w transport" and pods :: "'w \<Rightarrow> pod_view"
begin

abbreviation sound :: "('w sys, 'a) go \<Rightarrow> bool" where
  "sound p \<equiv> runs (\<lambda>s. cluster_inv store pods (world s)) p"

lemma sound_calls:
  "sound (r_GetPool c nn)" "sound (r_GetSecret c nn)" "sound (r_UpdatePool c pool)"
  "sound (r_UpdateStatus c pool)" "sound (r_ListPods c ns sel)" "sound (r_ListPVCs c ns sel)"
  "sound (tell ob)" "sound (r_DeletePod c p)"
  unfolding call_defs
  by (rule runs_completes [OF completes_call own.safe_calls(1) [unfolded call_defs]]
      runs_completes [OF completes_call own.safe_calls(2) [unfolded call_defs]]
      runs_completes [OF completes_call own.safe_calls(3) [unfolded call_defs]]
      runs_completes [OF completes_call own.safe_calls(4) [unfolded call_defs]]
      runs_completes [OF completes_call own.safe_calls(5) [unfolded call_defs]]
      runs_completes [OF completes_call own.safe_calls(8) [unfolded call_defs]]
      runs_completes [OF completes_tell own.safe_calls(9)]
      runs_completes [OF completes_call own.safe_delete [unfolded call_defs]])+

lemma sound_ado:
  "sound (ado_GetPoolID (Client_face tr cl) org name)"
  "sound (ado_GetJobStatus (Client_face tr cl) org pid)"
  "sound (ado_RegisterDummyAgent (Client_face tr cl) org pid name)"
  "sound (ado_UnregisterAgent (Client_face tr cl) org pid aid)"
  "sound (ado_GetAgentByName (Client_face tr cl) org pid name)"
  by (intro runs_completes own.safe_ado face_returns client.jobs_return client.register_returns
      client.unregister_returns)+

lemma sound_create:
  assumes "distinct (map cv_Name (sp_CacheVolumes (ap_Spec pool)))"
  shows "sound (createAgentPod c m pool)"
proof -
  have "completes (agent_pod_name m pool)"
    by (rule completesI, rule wp_mono [OF wp_agent_pod_name]) auto
  then have "sound (agent_pod_name m pool)" by (rule runs_completes [OF _ own.safe_name])
  then show ?thesis
    unfolding createAgentPod_def by (rule runs_bind) (intro runs_wpI own.wp_inv_named assms)
qed

lemma sound_create_loop:
  "distinct (map cv_Name (sp_CacheVolumes (ap_Spec pool))) \<Longrightarrow> sound (create_loop c m pool ns n k)"
  by (induction n arbitrary: k)
     (auto simp: recordReconcileError_def intro!: runs_intros sound_create sound_calls)

lemma sound_scaleDown: "sound (scaleDown c pool ps n busy)"
proof -
  have "sound (scale_down_loop c pool ps n busy d)" for d
    by (induction ps arbitrary: d) (auto intro!: runs_intros sound_calls)
  then show ?thesis unfolding scaleDown_def .
qed

lemma sound_scale:
  "distinct (map cv_Name (sp_CacheVolumes (ap_Spec pool))) \<Longrightarrow>
     sound (reconcile_scale c m pool ns n ps desired busy)"
  unfolding reconcile_scale_def Let_def by (intro runs_intros sound_create_loop sound_scaleDown)

lemma completes_release: "completes (releasePVCsForPod c pool pod)"
  by (rule completesI, rule wp_mono [OF releasePVCsForPod_spec]) (rule ends_returned)

lemma completes_cleanup: "completes (cleanupCompletedPods c m pool ps)"
proof -
  have "completes (cleanup_loop c m pool ps fe)" for fe
    by (induction ps arbitrary: fe)
       (auto simp: cleanup_release_def cleanup_delete_def call_defs
          intro!: completes_intros completes_release)
  then show ?thesis unfolding cleanupCompletedPods_def by (intro completes_intros)
qed

lemma sound_ensure: "sound (ensurePVCPool c m pool)"
proof (rule runs_completes [OF _ own.safe_ensurePVCPool])
  show "completes (ensurePVCPool c m pool)"
    by (rule completesI, rule wp_mono [OF ensurePVCPool_spec]) (rule ends_returned)
qed

lemma sound_count: "sound (countFreePVCSlots c pool)"
proof -
  have "sound (count_loop c pool cvs n)" for cvs n
    by (induction cvs arbitrary: n) (auto intro!: runs_intros sound_calls)
  then show ?thesis unfolding countFreePVCSlots_def by (intro runs_intros)
qed

lemma sound_dummy: "sound (manageDummyAgent (Client_face tr cl) pool desired)"
  unfolding manageDummyAgent_def register_dummy_def unregister_dummy_def
  by (intro runs_intros sound_ado sound_calls)

lemma sound_status:
  "sound (reconcile_status (operator c m tr) req pool (Client_face tr cl) js desired n)"
  unfolding reconcile_status_def Let_def recordMetrics_def recordReconcileError_def operator_fields
  by (intro runs_intros sound_dummy sound_calls sound_count)

lemma sound_fail_condition: "sound (fail_condition c m pool reason msg)"
  unfolding fail_condition_def Let_def by (intro runs_intros sound_calls)

lemma sound_pods:
  assumes "admissible (nn_Namespace req) pool"
  shows "sound (reconcile_pods (operator c m tr) req pool (Client_face tr cl) js)"
proof (rule runs_wpI)
  fix s :: "'w sys"
  let ?Q = "\<lambda>r t. returned r \<and> cluster_inv store pods (world t)"
  let ?d = "clamp (to_int32 (js_Pending js)) (sp_MinAgents (ap_Spec pool)) (sp_MaxAgents (ap_Spec pool))"
  assume inv: "cluster_inv store pods (world s)"
  have rest: "sound (go_bind (reconcile_scale c m pool (nn_Namespace req) n ps ?d busy)
      (\<lambda>n. reconcile_status (operator c m tr) req pool (Client_face tr cl) js ?d n))" for n ps busy
    using assms by (intro runs_intros sound_scale sound_status) (simp add: admissible_def)
  obtain r w' where r: "c_ListPods c (nn_Namespace req) [(labelPoolName, ap_Name pool)] (world s) = (r, w')"
    by fastforce
  note frame = list_pods [OF r]
  let ?s = "s\<lparr>world := w', trace := trace s @ [ListPods (nn_Namespace req) [(labelPoolName, ap_Name pool)]]\<rparr>"
  have inv': "cluster_inv store pods (world ?s)" using inv frame by (simp add: tracked_def)
  show "wp (reconcile_pods (operator c m tr) req pool (Client_face tr cl) js) ?Q s"
  proof (cases r)
    case (Inl e)
    with r inv' show ?thesis by (simp add: reconcile_pods_def call_defs wp_bind wp_call wp_ret)
  next
    case (Inr ps)
    have "wp (cleanupCompletedPods c m pool ps) (\<lambda>r t. cluster_inv store pods (world t)) ?s"
      using frame Inr assms inv' by (intro own.wp_safe_cleanup) (auto simp: admissible_def)
    then have "wp (cleanupCompletedPods c m pool ps) ?Q ?s"
      by (rule completes_returned [OF completes_cleanup])
    then have "wp (go_bind (cleanupCompletedPods c m pool ps) (\<lambda>_.
        go_bind (reconcile_scale c m pool (nn_Namespace req) (int (length (filter active ps)))
            (filter active ps) ?d (js_BusyAgentNames js))
          (\<lambda>n. reconcile_status (operator c m tr) req pool (Client_face tr cl) js ?d n))) ?Q ?s"
      by (rule wp_bindI) (auto intro: runs_wp [OF rest])
    with r Inr show ?thesis
      by (simp add: reconcile_pods_def call_defs wp_bind wp_call countActivePods_active Let_def)
  qed
qed

lemma sound_jobs:
  assumes "admissible (nn_Namespace req) pool"
  shows "sound (reconcile_jobs (operator c m tr) req pool (Client_face tr cl))"
  unfolding reconcile_jobs_def recordReconcileError_def operator_fields
  by (intro runs_intros sound_ensure sound_ado sound_calls sound_fail_condition sound_pods assms)

lemma completes_resolve: "completes (resolvePoolID c m pool (Client_face tr cl))"
  unfolding resolvePoolID_def fail_condition_def Let_def call_defs
  by (intro completes_intros face_returns)

lemma sound_pool:
  assumes adm: "admissible (nn_Namespace req) pool"
  shows "sound (reconcile_pool (operator c m tr) req pool)"
proof -
  have resolved: "sound (go_bind (resolvePoolID c m pool (Client_face tr cl)) (\<lambda>r.
      case r of None \<Rightarrow> go_ret (requeue, None)
      | Some p \<Rightarrow> reconcile_jobs (operator c m tr) req p (Client_face tr cl)))" for cl
    by (rule runs_wpI, rule wp_bindI [OF completes_returned [OF completes_resolve own.wp_inv_resolve [OF adm]]])
       (auto simp: wp_ret intro!: runs_wp [OF sound_jobs] split: option.split)
  show ?thesis
    unfolding reconcile_pool_def fetchPAT_def Let_def operator_fields buildADOClient_operator
    by (intro resolved runs_intros sound_calls sound_fail_condition sound_jobs [OF adm])
qed

lemma sound_Reconcile: "sound (Reconcile (operator c m tr) req)"
proof (rule runs_wpI)
  fix s :: "'w sys"
  let ?Q = "\<lambda>r t. returned r \<and> cluster_inv store pods (world t)"
  assume inv: "cluster_inv store pods (world s)"
  have del: "sound (handleDeletion (operator c m tr) pool)" for pool
    unfolding handleDeletion_def unregister_on_deletion_def Let_def operator_fields buildADOClient_operator
    by (intro runs_intros sound_calls sound_ado)
  have add: "sound (go_bind (r_UpdatePool c p) (\<lambda>r. case r of Err e \<Rightarrow> go_ret (no_requeue, Some e)
      | Ok _ \<Rightarrow> go_ret (no_requeue, None)))" for p
    by (intro runs_intros sound_calls)
  obtain r w' where r: "c_GetPool c req (world s) = (r, w')" by fastforce
  note frame = get_pool_frame [OF r]
  let ?s = "s\<lparr>world := w', trace := trace s @ [GetPool req]\<rparr>"
  have inv': "cluster_inv store pods (world ?s)" using inv frame by (simp add: tracked_def)
  show "wp (Reconcile (operator c m tr) req) ?Q s"
  proof (cases r)
    case (Inl e)
    with r inv' show ?thesis by (simp add: Reconcile_def call_defs wp_bind wp_call wp_ret)
  next
    case (Inr pool)
    with frame have adm: "admissible (nn_Namespace req) pool" by simp
    have "wp (if ap_DeletionTimestamp pool \<noteq> None then handleDeletion (operator c m tr) pool
        else if \<not> m_ContainsFinalizer m pool finalizerName then
          go_bind (r_UpdatePool c (m_AddFinalizer m pool finalizerName)) (\<lambda>r.
            case r of Err e \<Rightarrow> go_ret (no_requeue, Some e) | Ok _ \<Rightarrow> go_ret (no_requeue, None))
        else reconcile_pool (operator c m tr) req pool) ?Q ?s"
      using runs_wp [OF del inv'] runs_wp [OF add inv'] runs_wp [OF sound_pool [OF adm] inv'] by simp
    then show ?thesis
      unfolding Reconcile_def operator_fields r_GetPool_def wp_bind [of "call _ _"] wp_call
        r [unfolded Inr] prod.case outcome.case sum.case .
  qed
qed

end

section \<open>The operator in its cluster\<close>

text \<open>
  A move of the cluster that is not the operator's: it leaves the claims alone; a pod stays, goes
  away, or is updated with the same volumes and labels, and a completed pod does not come back to
  life; a pod that appears is not an agent pod.
\<close>

definition pod_moves :: "Pod option \<Rightarrow> Pod option \<Rightarrow> bool" where
  "pod_moves p p' \<longleftrightarrow> (case p' of None \<Rightarrow> True
     | Some q' \<Rightarrow> \<not> live_agent q'
        \<or> (\<exists>q. p = Some q \<and> live_agent q \<and> ps_Volumes (pod_Spec q') = ps_Volumes (pod_Spec q)))"

definition cluster_moves :: "('w \<Rightarrow> claims) \<Rightarrow> ('w \<Rightarrow> pod_view) \<Rightarrow> 'w \<Rightarrow> 'w \<Rightarrow> bool" where
  "cluster_moves store pods w w' \<longleftrightarrow> store w' = store w \<and> (\<forall>k. pod_moves (pods w k) (pods w' k))"

inductive operated :: "'w AgentPoolReconciler \<Rightarrow> ('w \<Rightarrow> claims) \<Rightarrow> ('w \<Rightarrow> pod_view) \<Rightarrow> 'w \<Rightarrow> 'w \<Rightarrow> bool"
  for R :: "'w AgentPoolReconciler" and store :: "'w \<Rightarrow> claims" and pods :: "'w \<Rightarrow> pod_view" and w0 :: 'w where
  begins: "operated R store pods w0 w0"
| reconciles: "operated R store pods w0 w \<Longrightarrow> Reconcile R req \<lparr>world = w, trace = []\<rparr> = (r, t) \<Longrightarrow>
    operated R store pods w0 (world t)"
| moves: "operated R store pods w0 w \<Longrightarrow> cluster_moves store pods w w' \<Longrightarrow> operated R store pods w0 w'"

lemma owned_moves:
  assumes "owned L P" and "\<And>k. pod_moves (P k) (P' k)"
  shows "owned L P'"
  unfolding owned_def
proof (intro allI impI ballI)
  fix ns a p n
  assume p: "P' (ns, a) = Some p" "live_agent p" "n \<in> mounts p"
  with assms(2) [of "(ns, a)"] obtain q where q: "P (ns, a) = Some q" "live_agent q"
    "ps_Volumes (pod_Spec p) = ps_Volumes (pod_Spec q)" by (auto simp: pod_moves_def)
  with p(3) have "n \<in> mounts q" by (simp add: mounts_def)
  with ownedD [OF assms(1) q(1,2)] show "owner_of L (ns, n) = Some a" .
qed

lemma cluster_inv_moves: "cluster_inv store pods w \<Longrightarrow> cluster_moves store pods w w' \<Longrightarrow> cluster_inv store pods w'"
  unfolding tracked_def cluster_moves_def by (auto intro: owned_moves)

context cluster_api
begin

lemma operated_inv:
  "operated (operator c m tr) store pods w0 w \<Longrightarrow> cluster_inv store pods w0 \<Longrightarrow> cluster_inv store pods w"
proof (induction rule: operated.induct)
  case (reconciles w req r t)
  then show ?case using keeps_run [OF keeps_ownership reconciles.hyps(2)] by simp
qed (auto intro: cluster_inv_moves)

end

end
