(* ===== verification/Mem_Cluster.thy ===== *)
theory Mem_Cluster
  imports Operator_Runs
begin

text \<open>
  An executable cluster in memory: objects in lists, an API server with merge patches, creation
  conflicts, status subresource and finalizers, and a script of faults that makes calls fail.  It is
  a model of every contract of the development: the interpretations below discharge the laws of
  \<open>pvc_writes\<close>, \<open>pvc_api\<close>, \<open>pvc_reliable\<close>, \<open>cluster_api\<close>, \<open>random_source\<close> and \<open>status_conditions\<close> on it, so the
  theorems under those contracts are not vacuous, and the concrete examples of the development are
  evaluated on it.  \<open>mem_client True\<close> consumes the fault script, \<open>mem_client False\<close> never fails on its
  own account.
\<close>

section \<open>State\<close>

record mem =
  mem_Pools :: "AgentPool list"
  mem_Secrets :: "(key \<times> Secret) list"
  mem_Claims :: "PersistentVolumeClaim list"
  mem_Pods :: "Pod list"
  mem_Faults :: "bool list"
  mem_Seed :: nat

abbreviation pool_key :: "AgentPool \<Rightarrow> key" where
  "pool_key p \<equiv> (ap_Namespace p, ap_Name p)"

text \<open>Objects by key: the first entry with the key.\<close>

definition lookup :: "('a \<Rightarrow> key) \<Rightarrow> 'a list \<Rightarrow> key \<Rightarrow> 'a option" where
  "lookup f xs k = find (\<lambda>x. f x = k) xs"

primrec live :: "('a \<Rightarrow> key) \<Rightarrow> 'a list \<Rightarrow> 'a list" where
  "live f [] = []"
| "live f (x # xs) = x # filter (\<lambda>y. f y \<noteq> f x) (live f xs)"

definition replace :: "('a \<Rightarrow> key) \<Rightarrow> 'a \<Rightarrow> 'a list \<Rightarrow> 'a list" where
  "replace f y xs = map (\<lambda>x. if f x = f y then y else x) xs"

definition remove :: "('a \<Rightarrow> key) \<Rightarrow> key \<Rightarrow> 'a list \<Rightarrow> 'a list" where
  "remove f k xs = filter (\<lambda>x. f x \<noteq> k) xs"

definition nn_key :: "NamespacedName \<Rightarrow> key" where
  "nn_key nn = (nn_Namespace nn, nn_Name nn)"

definition not_found :: "key \<Rightarrow> go_error" where
  "not_found k = ExtError ''NotFound'' (quoted (snd k) @ '' not found'')"

definition already_exists :: "key \<Rightarrow> go_error" where
  "already_exists k = ExtError ''AlreadyExists'' (quoted (snd k) @ '' already exists'')"

definition unavailable :: go_error where
  "unavailable = ExtError ''ServiceUnavailable'' ''the server is currently unable to handle the request''"

section \<open>The API server\<close>

text \<open>A call that the fault script may make fail before it has any effect.\<close>

definition served_by :: "bool \<Rightarrow> (mem \<Rightarrow> 'a result \<times> mem) \<Rightarrow> mem \<Rightarrow> 'a result \<times> mem" where
  "served_by flaky f w =
     (if flaky then
        (case mem_Faults w of [] \<Rightarrow> f w
         | x # xs \<Rightarrow> if x then (Err unavailable, w\<lparr>mem_Faults := xs\<rparr>) else f (w\<lparr>mem_Faults := xs\<rparr>))
      else f w)"

definition mem_GetPVC :: "NamespacedName \<Rightarrow> mem \<Rightarrow> PersistentVolumeClaim result \<times> mem" where
  "mem_GetPVC nn w = (case lookup pvc_key (mem_Claims w) (nn_key nn) of
     None \<Rightarrow> (Err (not_found (nn_key nn)), w) | Some v \<Rightarrow> (Ok v, w))"

definition mem_ListPVCs :: "string \<Rightarrow> selector \<Rightarrow> mem \<Rightarrow> PersistentVolumeClaim list result \<times> mem" where
  "mem_ListPVCs ns sel w = (Ok (filter (\<lambda>v. pvc_Namespace v = ns \<and> matches sel (map_get (pvc_Labels v)))
     (live pvc_key (mem_Claims w))), w)"

definition mem_CreatePVC :: "PersistentVolumeClaim \<Rightarrow> mem \<Rightarrow> unit result \<times> mem" where
  "mem_CreatePVC v w = (case lookup pvc_key (mem_Claims w) (pvc_key v) of
     Some _ \<Rightarrow> (Err (already_exists (pvc_key v)), w)
   | None \<Rightarrow> (Ok (), w\<lparr>mem_Claims := mem_Claims w @ [v]\<rparr>))"

definition mem_PatchPVC :: "PersistentVolumeClaim \<Rightarrow> PersistentVolumeClaim \<Rightarrow> mem
    \<Rightarrow> PersistentVolumeClaim result \<times> mem" where
  "mem_PatchPVC base v w = (case lookup pvc_key (mem_Claims w) (pvc_key v) of
     None \<Rightarrow> (Err (not_found (pvc_key v)), w)
   | Some cur \<Rightarrow>
       let v' = cur\<lparr>pvc_Labels := Some (merged (map_get (pvc_Labels base)) (map_get (pvc_Labels v))
                                            (map_get (pvc_Labels cur)))\<rparr>
       in (Ok v', w\<lparr>mem_Claims := replace pvc_key v' (mem_Claims w)\<rparr>))"

definition mem_ListPods :: "string \<Rightarrow> selector \<Rightarrow> mem \<Rightarrow> Pod list result \<times> mem" where
  "mem_ListPods ns sel w = (Ok (filter (\<lambda>p. pod_Namespace p = ns \<and> matches sel (map_get (pod_Labels p)))
     (live pod_key (mem_Pods w))), w)"

text \<open>A created pod is pending.\<close>

definition mem_CreatePod :: "Pod \<Rightarrow> mem \<Rightarrow> unit result \<times> mem" where
  "mem_CreatePod p w = (case lookup pod_key (mem_Pods w) (pod_key p) of
     Some _ \<Rightarrow> (Err (already_exists (pod_key p)), w)
   | None \<Rightarrow> (Ok (), w\<lparr>mem_Pods := mem_Pods w @ [p\<lparr>pod_Phase := PodPending\<rparr>]\<rparr>))"

definition mem_DeletePod :: "Pod \<Rightarrow> mem \<Rightarrow> unit result \<times> mem" where
  "mem_DeletePod p w = (case lookup pod_key (mem_Pods w) (pod_key p) of
     None \<Rightarrow> (Err (not_found (pod_key p)), w)
   | Some _ \<Rightarrow> (Ok (), w\<lparr>mem_Pods := remove pod_key (pod_key p) (mem_Pods w)\<rparr>))"

text \<open>Resources with repeated cache names are not admitted.\<close>

definition admitted_pools :: "mem \<Rightarrow> AgentPool list" where
  "admitted_pools w = filter (\<lambda>p. distinct (map cv_Name (sp_CacheVolumes (ap_Spec p)))) (mem_Pools w)"

definition mem_GetPool :: "NamespacedName \<Rightarrow> mem \<Rightarrow> AgentPool result \<times> mem" where
  "mem_GetPool nn w = (case lookup pool_key (admitted_pools w) (nn_key nn) of
     None \<Rightarrow> (Err (not_found (nn_key nn)), w) | Some p \<Rightarrow> (Ok p, w))"

definition mem_GetSecret :: "NamespacedName \<Rightarrow> mem \<Rightarrow> Secret result \<times> mem" where
  "mem_GetSecret nn w = (case map_of (mem_Secrets w) (nn_key nn) of
     None \<Rightarrow> (Err (not_found (nn_key nn)), w) | Some s \<Rightarrow> (Ok s, w))"

text \<open>
  The main resource ignores the status; an object that is being deleted goes away with its last
  finalizer.  The status subresource only changes the status.
\<close>

definition mem_UpdatePool :: "AgentPool \<Rightarrow> mem \<Rightarrow> AgentPool result \<times> mem" where
  "mem_UpdatePool p w = (case lookup pool_key (admitted_pools w) (pool_key p) of
     None \<Rightarrow> (Err (not_found (pool_key p)), w)
   | Some cur \<Rightarrow>
       let p' = p\<lparr>ap_Status := ap_Status cur\<rparr>
       in if ap_DeletionTimestamp p \<noteq> None \<and> ap_Finalizers p = []
          then (Ok p', w\<lparr>mem_Pools := remove pool_key (pool_key p) (mem_Pools w)\<rparr>)
          else (Ok p', w\<lparr>mem_Pools := replace pool_key p' (mem_Pools w)\<rparr>))"

definition mem_UpdateStatus :: "AgentPool \<Rightarrow> mem \<Rightarrow> AgentPool result \<times> mem" where
  "mem_UpdateStatus p w = (case lookup pool_key (admitted_pools w) (pool_key p) of
     None \<Rightarrow> (Err (not_found (pool_key p)), w)
   | Some cur \<Rightarrow>
       let p' = cur\<lparr>ap_Status := ap_Status p\<rparr>
       in (Ok p', w\<lparr>mem_Pools := replace pool_key p' (mem_Pools w)\<rparr>))"

definition mem_client :: "bool \<Rightarrow> mem client" where
  "mem_client flaky =
     \<lparr>c_GetPool = (\<lambda>nn. served_by flaky (mem_GetPool nn)),
      c_GetSecret = (\<lambda>nn. served_by flaky (mem_GetSecret nn)),
      c_GetPVC = (\<lambda>nn. served_by flaky (mem_GetPVC nn)),
      c_ListPods = (\<lambda>ns sel. served_by flaky (mem_ListPods ns sel)),
      c_ListPVCs = (\<lambda>ns sel. served_by flaky (mem_ListPVCs ns sel)),
      c_CreatePod = (\<lambda>p. served_by flaky (mem_CreatePod p)),
      c_CreatePVC = (\<lambda>v. served_by flaky (mem_CreatePVC v)),
      c_PatchPVC = (\<lambda>base v. served_by flaky (mem_PatchPVC base v)),
      c_DeletePod = (\<lambda>p. served_by flaky (mem_DeletePod p)),
      c_UpdatePool = (\<lambda>p. served_by flaky (mem_UpdatePool p)),
      c_UpdateStatus = (\<lambda>p. served_by flaky (mem_UpdateStatus p))\<rparr>"

section \<open>The machinery\<close>

fun has_reason :: "string \<Rightarrow> go_error \<Rightarrow> bool" where
  "has_reason reason (ExtError r msg) = (r = reason)"
| "has_reason reason (Errorf msg) = False"
| "has_reason reason (Wrapf prefix e) = has_reason reason e"

fun mem_SetStatusCondition :: "Condition list \<Rightarrow> Condition \<Rightarrow> Condition list" where
  "mem_SetStatusCondition [] new = [new]"
| "mem_SetStatusCondition (c # cs) new =
     (if cond_Type c = cond_Type new then new # cs else c # mem_SetStatusCondition cs new)"

definition mem_machinery :: "mem machinery" where
  "mem_machinery =
     \<lparr>m_IsNotFound = has_reason ''NotFound'',
      m_IsAlreadyExists = has_reason ''AlreadyExists'',
      m_IgnoreNotFound = (\<lambda>e. if has_reason ''NotFound'' e then None else Some e),
      m_ContainsFinalizer = (\<lambda>p f. f \<in> set (ap_Finalizers p)),
      m_AddFinalizer = (\<lambda>p f. p\<lparr>ap_Finalizers := ap_Finalizers p @ [f]\<rparr>),
      m_RemoveFinalizer = (\<lambda>p f. p\<lparr>ap_Finalizers := filter (\<lambda>g. g \<noteq> f) (ap_Finalizers p)\<rparr>),
      m_SetStatusCondition = mem_SetStatusCondition,
      m_SetPodOwner = (\<lambda>pool p. Ok (p\<lparr>pod_Owner := Some (ap_Name pool)\<rparr>)),
      m_SetPVCOwner = (\<lambda>pool v. Ok (v\<lparr>pvc_Owner := Some (ap_Name pool)\<rparr>)),
      m_Intn = (\<lambda>n w. (mem_Seed w mod n, w\<lparr>mem_Seed := Suc (mem_Seed w)\<rparr>)),
      m_RangeOrder = (\<lambda>xs w. (xs, w))\<rparr>"

section \<open>A scripted Azure DevOps service\<close>

text \<open>
  Every URL in the table answers with its JSON value, any other URL with status 404; registration
  and removal succeed.  The body is the URL itself, which the table maps to the value.
\<close>

definition table_transport :: "(string \<times> json) list \<Rightarrow> 'w transport" where
  "table_transport table =
     \<lparr>t_RequestErr = (\<lambda>_ _. None),
      t_Do = (\<lambda>req w. (Ok \<lparr>hp_StatusCode =
                 (if hq_Method req = ''DELETE'' then 204
                  else if map_of table (hq_URL req) = None then 404 else 200),
               hp_Data = hq_URL req, hp_ReadErr = None\<rparr>, w)),
      t_JsonParse = (\<lambda>txt. case map_of table txt of
          None \<Rightarrow> Err (ExtError ''SyntaxError'' ''unexpected end of JSON input'') | Some j \<Rightarrow> Ok j),
      t_JsonPrint = (\<lambda>j. Ok ''{}'')\<rparr>"

section \<open>The contracts hold\<close>

definition mem_store :: "mem \<Rightarrow> claims" where
  "mem_store w = lookup pvc_key (mem_Claims w)"

lemma lookup_key: "lookup f xs k = Some x \<Longrightarrow> f x = k"
  by (auto simp: lookup_def find_Some_iff)

lemma lookup_append: "lookup f (xs @ ys) k = (case lookup f xs k of None \<Rightarrow> lookup f ys k | Some x \<Rightarrow> Some x)"
  by (induction xs) (auto simp: lookup_def)

lemma lookup_replace_key:
  "lookup f (replace f y xs) k =
     (if k = f y then map_option (\<lambda>_. y) (lookup f xs k) else lookup f xs k)"
  by (induction xs) (auto simp: lookup_def replace_def)

lemma lookup_replace:
  "lookup f xs (f y) = Some cur \<Longrightarrow> lookup f (replace f y xs) = (lookup f xs)(f y \<mapsto> y)"
  by (rule ext) (simp add: lookup_replace_key)

lemma lookup_remove: "lookup f (remove f k xs) = (lookup f xs)(k := None)"
proof (rule ext)
  fix k'
  show "lookup f (remove f k xs) k' = ((lookup f xs)(k := None)) k'"
    by (induction xs) (auto simp: lookup_def remove_def)
qed

lemma live_set: "x \<in> set (live f xs) \<longleftrightarrow> lookup f xs (f x) = Some x"
  by (induction xs) (auto simp: lookup_def)

lemma live_distinct: "distinct (map f (live f xs))"
proof (induction xs)
  case (Cons x xs)
  then show ?case by (auto simp: distinct_map intro: inj_on_subset)
qed simp

lemma served_by_cases:
  assumes "served_by flaky f w = (r, w')"
  obtains (fault) xs where "r = Err unavailable" and "w' = w\<lparr>mem_Faults := xs\<rparr>"
    | (effect) xs where "f (w\<lparr>mem_Faults := xs\<rparr>) = (r, w')"
proof (cases "flaky \<and> mem_Faults w \<noteq> []")
  case True
  then obtain x xs where "mem_Faults w = x # xs" by (cases "mem_Faults w") auto
  with True assms fault effect [of xs] show thesis by (cases x) (auto simp: served_by_def)
next
  case False
  then have "served_by flaky f w = f (w\<lparr>mem_Faults := mem_Faults w\<rparr>)"
    by (auto simp: served_by_def split: list.split)
  then have "f (w\<lparr>mem_Faults := mem_Faults w\<rparr>) = (r, w')" using assms by simp
  then show thesis by (rule effect)
qed

lemma mem_store_faults [simp]: "mem_store (w\<lparr>mem_Faults := xs\<rparr>) = mem_store w"
  by (simp add: mem_store_def)

lemmas mem_call_defs = mem_GetPVC_def mem_ListPVCs_def mem_CreatePVC_def mem_PatchPVC_def
  mem_ListPods_def mem_CreatePod_def mem_DeletePod_def mem_GetPool_def mem_GetSecret_def
  mem_UpdatePool_def mem_UpdateStatus_def Let_def

lemma mem_machinery_sel [simp]:
  "m_RangeOrder mem_machinery xs w = (xs, w)"
  "m_Intn mem_machinery n w = (mem_Seed w mod n, w\<lparr>mem_Seed := Suc (mem_Seed w)\<rparr>)"
  "m_SetPVCOwner mem_machinery pool v = Ok (v\<lparr>pvc_Owner := Some (ap_Name pool)\<rparr>)"
  "m_SetPodOwner mem_machinery pool p = Ok (p\<lparr>pod_Owner := Some (ap_Name pool)\<rparr>)"
  "m_IsAlreadyExists mem_machinery = has_reason ''AlreadyExists''"
  "m_IsNotFound mem_machinery = has_reason ''NotFound''"
  "m_SetStatusCondition mem_machinery = mem_SetStatusCondition"
  by (simp_all add: mem_machinery_def)

lemma mem_PatchPVC_ok:
  assumes "mem_PatchPVC base v w = (Ok v', w')"
  shows "\<exists>cur. mem_store w (pvc_key v) = Some cur \<and> pvc_key v' = pvc_key v
    \<and> map_get (pvc_Labels v') = merged (map_get (pvc_Labels base)) (map_get (pvc_Labels v))
                                  (map_get (pvc_Labels cur))
    \<and> mem_store w' = (mem_store w)(pvc_key v \<mapsto> v')"
proof -
  from assms obtain cur where cur: "lookup pvc_key (mem_Claims w) (pvc_key v) = Some cur"
    and v': "v' = cur\<lparr>pvc_Labels := Some (merged (map_get (pvc_Labels base)) (map_get (pvc_Labels v))
                                            (map_get (pvc_Labels cur)))\<rparr>"
    and w': "w' = w\<lparr>mem_Claims := replace pvc_key v' (mem_Claims w)\<rparr>"
    by (auto simp: mem_PatchPVC_def Let_def split: option.splits)
  from lookup_key [OF cur] v' have key: "pvc_key v' = pvc_key v" by simp
  with lookup_replace [of pvc_key "mem_Claims w" v'] cur w' have
    "mem_store w' = (mem_store w)(pvc_key v \<mapsto> v')" by (simp add: mem_store_def)
  with key cur v' show ?thesis by (auto simp: mem_store_def)
qed

lemma mem_CreatePVC_ok:
  assumes "mem_CreatePVC v w = (Ok u, w')"
  shows "mem_store w (pvc_key v) = None \<and> mem_store w' = (mem_store w)(pvc_key v \<mapsto> v)"
  using assms
  by (auto simp: mem_CreatePVC_def mem_store_def fun_eq_iff lookup_append split: option.splits)
     (auto simp: lookup_def split: option.splits)

interpretation mem: pvc_writes "mem_client flaky" mem_machinery mem_store for flaky
proof
  fix w w' ns n v v' base e u nn r sel rs xs ys pool
  show "mem_store w (ns, n) = Some v \<Longrightarrow> pvc_key v = (ns, n)"
    unfolding mem_store_def by (rule lookup_key)
  show "\<exists>cur. mem_store w (pvc_key v) = Some cur \<and> pvc_key v' = pvc_key v
    \<and> map_get (pvc_Labels v') = merged (map_get (pvc_Labels base)) (map_get (pvc_Labels v))
                                  (map_get (pvc_Labels cur))
    \<and> mem_store w' = (mem_store w)(pvc_key v \<mapsto> v')"
    if "c_PatchPVC (mem_client flaky) base v w = (Ok v', w')"
    using that by (auto simp: mem_client_def elim!: served_by_cases dest: mem_PatchPVC_ok)
  show "mem_store w' = mem_store w" if "c_PatchPVC (mem_client flaky) base v w = (Err e, w')"
    using that by (auto simp: mem_client_def mem_PatchPVC_def Let_def elim!: served_by_cases split: option.splits)
  show "mem_store w (pvc_key v) = None \<and> (\<exists>v'. pvc_key v' = pvc_key v
    \<and> map_get (pvc_Labels v') = map_get (pvc_Labels v) \<and> mem_store w' = (mem_store w)(pvc_key v \<mapsto> v'))"
    if "c_CreatePVC (mem_client flaky) v w = (Ok u, w')"
    using that by (auto simp: mem_client_def elim!: served_by_cases dest!: mem_CreatePVC_ok)
  show "mem_store w' = mem_store w" if "c_CreatePVC (mem_client flaky) v w = (Err e, w')"
    using that by (auto simp: mem_client_def mem_CreatePVC_def elim!: served_by_cases split: option.splits)
  show "mem_store w (pvc_key v) \<noteq> None" if "c_CreatePVC (mem_client flaky) v w = (Err e, w')"
    and "m_IsAlreadyExists mem_machinery e"
    using that
    by (auto simp: mem_client_def mem_CreatePVC_def unavailable_def mem_store_def
        elim!: served_by_cases split: option.splits)
  show "mem_store w' = mem_store w" if "c_GetPVC (mem_client flaky) nn w = (r, w')"
    using that by (auto simp: mem_client_def mem_GetPVC_def elim!: served_by_cases split: option.splits)
  show "mem_store w' = mem_store w" if "c_ListPVCs (mem_client flaky) ns sel w = (rs, w')"
    using that by (auto simp: mem_client_def mem_ListPVCs_def elim!: served_by_cases)
qed auto

interpretation mem: pvc_api "mem_client flaky" mem_machinery mem_store for flaky
proof
  fix ns n v w w' sel vs
  show "mem_store w (ns, n) = Some v"
    if "c_GetPVC (mem_client flaky) \<lparr>nn_Namespace = ns, nn_Name = n\<rparr> w = (Ok v, w')"
    using that
    by (auto simp: mem_client_def mem_GetPVC_def mem_store_def nn_key_def elim!: served_by_cases
        split: option.splits)
  show "distinct (map pvc_Name vs)
      \<and> set vs = {v. \<exists>n. mem_store w (ns, n) = Some v \<and> matches sel (map_get (pvc_Labels v))}"
    if "c_ListPVCs (mem_client flaky) ns sel w = (Ok vs, w')"
  proof -
    let ?l = "live pvc_key (mem_Claims w)"
    from that have vs: "vs = filter (\<lambda>v. pvc_Namespace v = ns \<and> matches sel (map_get (pvc_Labels v))) ?l"
      by (auto simp: mem_client_def mem_ListPVCs_def elim!: served_by_cases)
    have "distinct (map pvc_Name vs)"
      using live_distinct [of pvc_key "mem_Claims w"] unfolding vs by (auto simp: distinct_map inj_on_def)
    moreover have "set vs = {v. \<exists>n. mem_store w (ns, n) = Some v \<and> matches sel (map_get (pvc_Labels v))}"
      unfolding vs by (auto simp: live_set mem_store_def dest: lookup_key)
    ultimately show ?thesis ..
  qed
qed

interpretation steady: pvc_reliable "mem_client False" mem_machinery mem_store
proof
  fix ns n v w sel cur base
  show "\<exists>w'. c_GetPVC (mem_client False) \<lparr>nn_Namespace = ns, nn_Name = n\<rparr> w = (Ok v, w')"
    if "mem_store w (ns, n) = Some v"
    using that by (simp add: mem_client_def served_by_def mem_GetPVC_def mem_store_def nn_key_def)
  show "\<exists>vs w'. c_ListPVCs (mem_client False) ns sel w = (Ok vs, w')"
    by (simp add: mem_client_def served_by_def mem_ListPVCs_def)
  show "\<exists>v' w'. c_PatchPVC (mem_client False) base v w = (Ok v', w')"
    if "mem_store w (pvc_key v) = Some cur"
    using that by (simp add: mem_client_def served_by_def mem_PatchPVC_def mem_store_def Let_def)
qed

interpretation mem: random_source mem_machinery
  by unfold_locales (auto simp: mod_less_divisor)

lemma mem_SetStatusCondition_find:
  "condition_of (mem_SetStatusCondition cs new) ty =
     (if ty = cond_Type new then Some new else condition_of cs ty)"
  by (induction cs new rule: mem_SetStatusCondition.induct) (auto simp: condition_of_def)

interpretation mem: status_conditions mem_machinery
  by unfold_locales (simp_all add: mem_SetStatusCondition_find)

definition mem_pods :: "mem \<Rightarrow> pod_view" where
  "mem_pods w = lookup pod_key (mem_Pods w)"

lemma mem_pods_simps [simp]:
  "mem_pods (w\<lparr>mem_Faults := xs\<rparr>) = mem_pods w" "mem_pods (w\<lparr>mem_Claims := vs\<rparr>) = mem_pods w"
  "mem_pods (w\<lparr>mem_Pools := ps\<rparr>) = mem_pods w" "mem_pods (w\<lparr>mem_Seed := n\<rparr>) = mem_pods w"
  by (simp_all add: mem_pods_def)

lemma mem_store_simps [simp]:
  "mem_store (w\<lparr>mem_Pods := qs\<rparr>) = mem_store w" "mem_store (w\<lparr>mem_Pools := ps\<rparr>) = mem_store w"
  "mem_store (w\<lparr>mem_Seed := n\<rparr>) = mem_store w"
  by (simp_all add: mem_store_def)

text \<open>Calls that touch neither claims nor pods, and calls that do not touch pods.\<close>

lemma mem_frames:
  "mem_GetPool nn w = (rpool, w') \<Longrightarrow> mem_store w' = mem_store w \<and> mem_pods w' = mem_pods w"
  "mem_GetSecret nn w = (rs, w') \<Longrightarrow> mem_store w' = mem_store w \<and> mem_pods w' = mem_pods w"
  "mem_UpdatePool pool w = (rpool, w') \<Longrightarrow> mem_store w' = mem_store w \<and> mem_pods w' = mem_pods w"
  "mem_UpdateStatus pool w = (rpool, w') \<Longrightarrow> mem_store w' = mem_store w \<and> mem_pods w' = mem_pods w"
  "mem_ListPods ns sel w = (rl, w') \<Longrightarrow> mem_store w' = mem_store w \<and> mem_pods w' = mem_pods w"
  "mem_PatchPVC base v w = (rv, w') \<Longrightarrow> mem_pods w' = mem_pods w"
  "mem_CreatePVC v w = (ru, w') \<Longrightarrow> mem_pods w' = mem_pods w"
  "mem_GetPVC nn w = (rv, w') \<Longrightarrow> mem_pods w' = mem_pods w"
  "mem_ListPVCs ns sel w = (rvs, w') \<Longrightarrow> mem_pods w' = mem_pods w"
  by (auto simp: mem_call_defs split: option.splits if_splits)

lemma lookup_admitted:
  "lookup pool_key (admitted_pools w) k = Some p \<Longrightarrow>
     pool_key p = k \<and> distinct (map cv_Name (sp_CacheVolumes (ap_Spec p)))"
  by (auto simp: lookup_def admitted_pools_def find_Some_iff nth_mem dest!: nth_mem)

lemma mem_GetPool_admissible: "mem_GetPool nn w = (Ok p, w') \<Longrightarrow> admissible (nn_Namespace nn) p"
  by (auto simp: mem_GetPool_def admissible_def nn_key_def dest!: lookup_admitted split: option.splits)

lemma mem_UpdateStatus_admissible: "mem_UpdateStatus p w = (Ok p', w') \<Longrightarrow> admissible (ap_Namespace p) p'"
  by (auto simp: mem_UpdateStatus_def Let_def admissible_def dest!: lookup_admitted split: option.splits)

lemma mem_CreatePod_ok:
  assumes "mem_CreatePod p w = (Ok u, w')"
  shows "mem_store w' = mem_store w \<and> mem_pods w (pod_key p) = None
     \<and> mem_pods w' = (mem_pods w)(pod_key p \<mapsto> p\<lparr>pod_Phase := PodPending\<rparr>)"
  using assms
  by (auto simp: mem_CreatePod_def mem_pods_def fun_eq_iff lookup_append split: option.splits)
     (auto simp: lookup_def split: option.splits)

lemma mem_DeletePod_frame:
  "mem_DeletePod p w = (r, w') \<Longrightarrow> mem_store w' = mem_store w
     \<and> (mem_pods w' = mem_pods w \<or> mem_pods w' = (mem_pods w)(pod_key p := None))"
  by (auto simp: mem_DeletePod_def mem_pods_def lookup_remove split: option.splits)

lemma mem_ListPods_exist:
  "mem_ListPods ns sel w = (Ok xs, w') \<Longrightarrow> p \<in> set xs \<Longrightarrow> mem_pods w (ns, pod_Name p) = Some p"
  by (auto simp: mem_ListPods_def mem_pods_def live_set)

interpretation mem: cluster_api "mem_client flaky" mem_machinery mem_store "table_transport table" mem_pods
  for flaky table
proof
  fix w w' ns a p u e r sel ps base v rp ru nn rps xs ys i j rpool rs pool q rh p'
  show "mem_pods w (ns, a) = Some p \<Longrightarrow> pod_key p = (ns, a)"
    unfolding mem_pods_def by (rule lookup_key)
  show "mem_store w' = mem_store w \<and> mem_pods w (pod_key p) = None
      \<and> (\<exists>p'. pod_key p' = pod_key p \<and> pod_Labels p' = pod_Labels p \<and> pod_Phase p' = PodPending
            \<and> ps_Volumes (pod_Spec p') = ps_Volumes (pod_Spec p)
            \<and> mem_pods w' = (mem_pods w)(pod_key p \<mapsto> p'))"
    if "c_CreatePod (mem_client flaky) p w = (Ok u, w')"
    using that
    by (auto simp: mem_client_def elim!: served_by_cases dest!: mem_CreatePod_ok
        intro!: exI [of _ "p\<lparr>pod_Phase := PodPending\<rparr>"])
  show "mem_store w' = mem_store w \<and> mem_pods w' = mem_pods w"
    if "c_CreatePod (mem_client flaky) p w = (Err e, w')"
    using that by (auto simp: mem_client_def mem_CreatePod_def elim!: served_by_cases split: option.splits)
  show "mem_store w' = mem_store w
      \<and> (mem_pods w' = mem_pods w \<or> mem_pods w' = (mem_pods w)(pod_key p := None))"
    if "c_DeletePod (mem_client flaky) p w = (r, w')"
    using that by (auto simp: mem_client_def elim!: served_by_cases dest!: mem_DeletePod_frame)
  show "mem_store w' = mem_store w \<and> mem_pods w' = mem_pods w
      \<and> (\<forall>xs. ps = Ok xs \<longrightarrow> (\<forall>p \<in> set xs. mem_pods w (ns, pod_Name p) = Some p))"
    if "c_ListPods (mem_client flaky) ns sel w = (ps, w')"
    using that
    by (auto simp: mem_client_def elim!: served_by_cases dest: mem_frames(5) mem_ListPods_exist)
  show "mem_pods w' = mem_pods w" if "c_PatchPVC (mem_client flaky) base v w = (rp, w')"
    using that by (auto simp: mem_client_def elim!: served_by_cases dest!: mem_frames)
  show "mem_pods w' = mem_pods w" if "c_CreatePVC (mem_client flaky) v w = (ru, w')"
    using that by (auto simp: mem_client_def elim!: served_by_cases dest!: mem_frames)
  show "mem_pods w' = mem_pods w" if "c_GetPVC (mem_client flaky) nn w = (rp, w')"
    using that by (auto simp: mem_client_def elim!: served_by_cases dest!: mem_frames)
  show "mem_pods w' = mem_pods w" if "c_ListPVCs (mem_client flaky) ns sel w = (rps, w')"
    using that by (auto simp: mem_client_def elim!: served_by_cases dest!: mem_frames)
  show "mem_store w' = mem_store w \<and> mem_pods w' = mem_pods w
      \<and> (\<forall>pool. rpool = Ok pool \<longrightarrow> admissible (nn_Namespace nn) pool)"
    if "c_GetPool (mem_client flaky) nn w = (rpool, w')"
    using that
    by (auto simp: mem_client_def elim!: served_by_cases dest: mem_frames mem_GetPool_admissible)
  show "mem_store w' = mem_store w \<and> mem_pods w' = mem_pods w"
    if "c_GetSecret (mem_client flaky) nn w = (rs, w')"
    using that by (auto simp: mem_client_def elim!: served_by_cases dest!: mem_frames)
  show "mem_store w' = mem_store w \<and> mem_pods w' = mem_pods w"
    if "c_UpdatePool (mem_client flaky) pool w = (rpool, w')"
    using that by (auto simp: mem_client_def elim!: served_by_cases dest!: mem_frames)
  show "mem_store w' = mem_store w \<and> mem_pods w' = mem_pods w
      \<and> (\<forall>pool'. rpool = Ok pool' \<longrightarrow> admissible (ap_Namespace pool) pool')"
    if "c_UpdateStatus (mem_client flaky) pool w = (rpool, w')"
    using that
    by (auto simp: mem_client_def elim!: served_by_cases dest: mem_frames mem_UpdateStatus_admissible)
qed (auto simp: table_transport_def)

text \<open>A table of list answers that carry their length.\<close>

definition counted_json :: "json \<Rightarrow> bool" where
  "counted_json j \<longleftrightarrow>
     (case dec_PoolList j \<lparr>pl_Count = 0, pl_Value = []\<rparr> of Err e \<Rightarrow> True
      | Ok pl \<Rightarrow> pl_Count pl = int (length (pl_Value pl)))
     \<and> (case dec_AgentList j \<lparr>al_Count = 0, al_Value = []\<rparr> of Err e \<Rightarrow> True
        | Ok al \<Rightarrow> al_Count al = int (length (al_Value al)))"

lemma counted_table:
  assumes "list_all (\<lambda>(url, j). counted_json j) table"
  shows "counted_answers (table_transport table)"
proof
  have answer: "counted_json j" if "map_of table url = Some j" for url j
    using assms map_of_SomeD [OF that] by (auto simp: list_all_iff)
  show "pl_Count pl = int (length (pl_Value pl))"
    if "answered (table_transport table) cl (pools_url org name) dec_PoolList \<lparr>pl_Count = 0, pl_Value = []\<rparr> w pl"
    for cl org name w pl
    using that answer
    by (force simp: answered_def table_transport_def get_request_def counted_json_def split: option.splits)
  show "al_Count al = int (length (al_Value al))"
    if "answered (table_transport table) cl (agents_url org pid name) dec_AgentList \<lparr>al_Count = 0, al_Value = []\<rparr> w al"
    for cl org pid name w al
    using that answer
    by (force simp: answered_def table_transport_def get_request_def counted_json_def split: option.splits)
qed

end
