(* ===== verification/Demo_Cluster.thy ===== *)
theory Demo_Cluster
  imports Mem_Cluster
begin

text \<open>
  A small cluster in memory, on which the theorems with hypotheses are applied: a pool \<^verbatim>\<open>ci\<close> with
  one cache volume and at most two agents, its token, two claims of which one is assigned to the
  running agent pod, and a completed pod that holds none.  The scripted service reports one job that
  the running agent executes and one that waits.
\<close>

definition demo_cache :: CacheVolumeTemplate where
  "demo_cache = \<lparr>cv_Name = ''nuget'', cv_MountPath = ''/cache'', cv_StorageClassName = None, cv_Size = ''10Gi''\<rparr>"

definition demo_spec :: AgentPoolSpec where
  "demo_spec =
     \<lparr>sp_OrganizationURL = ''https://ado'', sp_TokenSecretRef = \<lparr>sks_Name = ''tok'', sks_Key = ''pat''\<rparr>,
      sp_PoolName = ''p'', sp_AgentImage = [], sp_MinAgents = 0, sp_MaxAgents = 2,
      sp_AgentResources = [], sp_ExtraEnv = [], sp_CacheVolumes = [demo_cache],
      sp_NodeSelector = None, sp_Tolerations = [], sp_Affinity = None, sp_ImagePullSecrets = [],
      sp_ServiceAccountName = [], sp_PodAnnotations = None, sp_PodLabels = None,
      sp_PodSecurityContext = None, sp_InitContainers = []\<rparr>"

definition demo_pool :: AgentPool where
  "demo_pool =
     \<lparr>ap_Name = ''ci'', ap_Namespace = ''ns'', ap_Generation = 1, ap_ResourceVersion = ''1'',
      ap_DeletionTimestamp = None, ap_Finalizers = [finalizerName], ap_Spec = demo_spec,
      ap_Status = \<lparr>st_Conditions = [], st_ActiveAgents = None, st_PendingJobs = None,
                   st_PoolID = 7, st_DummyAgentID = 0\<rparr>\<rparr>"

definition demo_claim :: "nat \<Rightarrow> PersistentVolumeClaim" where
  "demo_claim i = buildPVC demo_pool demo_cache (pvcSlotName ''ci'' ''nuget'' i) i"

definition demo_taken :: PersistentVolumeClaim where
  "demo_taken = (demo_claim 0)\<lparr>pvc_Labels := map_option (set_assigned ''ci-a'') (pvc_Labels (demo_claim 0))\<rparr>"

definition demo_running :: Pod where
  "demo_running = (buildAgentPod demo_pool ''ci-a'' [(''nuget'', pvcSlotName ''ci'' ''nuget'' 0)])
     \<lparr>pod_Phase := PodRunning\<rparr>"

definition demo_completed :: Pod where
  "demo_completed = (buildAgentPod demo_pool ''ci-b'' [])\<lparr>pod_Phase := PodSucceeded\<rparr>"

definition demo_world :: mem where
  "demo_world =
     \<lparr>mem_Pools = [demo_pool], mem_Secrets = [((''ns'', ''tok''), \<lparr>sec_Data = Some [''pat'' \<mapsto> ''x'']\<rparr>)],
      mem_Claims = [demo_taken, demo_claim 1], mem_Pods = [demo_running, demo_completed],
      mem_Faults = [], mem_Seed = 0\<rparr>"

definition demo_state :: "mem sys" where
  "demo_state = \<lparr>world = demo_world, trace = []\<rparr>"

definition demo_req :: NamespacedName where
  "demo_req = \<lparr>nn_Namespace = ''ns'', nn_Name = ''ci''\<rparr>"

definition demo_jobs :: json where
  "demo_jobs = JObject [(''count'', JInt 2), (''value'', JArray
     [JObject [(''requestId'', JInt 1), (''reservedAgent'', JObject [(''id'', JInt 5), (''name'', JString ''ci-a'')])],
      JObject [(''requestId'', JInt 2)]])]"

definition demo_table :: "(string \<times> json) list" where
  "demo_table =
     [(''https://ado/_apis/distributedtask/pools/7/jobrequests?completedRequestCount=0&api-version=7.1'', demo_jobs)]"

definition demo_job_list :: JobRequestList where
  "demo_job_list = \<lparr>jl_Count = 2, jl_Value =
     [zero_JobRequest\<lparr>jr_RequestID := 1, jr_ReservedAgent := Some \<lparr>ar_ID = 5, ar_Name = ''ci-a''\<rparr>\<rparr>,
      zero_JobRequest\<lparr>jr_RequestID := 2\<rparr>]\<rparr>"

text \<open>A service without jobs; one without agents that registers a new one; one job in the queue.\<close>

definition demo_idle :: "(string \<times> json) list" where
  "demo_idle =
     [(''https://ado/_apis/distributedtask/pools/7/jobrequests?completedRequestCount=0&api-version=7.1'',
       JObject [(''count'', JInt 0), (''value'', JArray [])])]"

definition demo_agents :: "(string \<times> json) list" where
  "demo_agents =
     [(''https://ado/_apis/distributedtask/pools/7/agents?agentName=ci-dummy&api-version=7.1'',
       JObject [(''count'', JInt 0), (''value'', JArray [])]),
      (''https://ado/_apis/distributedtask/pools/7/agents?api-version=7.1'',
       JObject [(''id'', JInt 5), (''name'', JString ''ci-dummy'')])]"

definition demo_client :: Client where
  "demo_client = \<lparr>cl_TimeoutSeconds = 30, cl_authorizationHdr = ''Basic Ong=''\<rparr>"

definition demo_status :: JobStatus where
  "demo_status = \<lparr>js_Pending = 1, js_BusyAgentNames = [''ci-a'' \<mapsto> True]\<rparr>"

definition demo_operator :: "bool \<Rightarrow> mem AgentPoolReconciler" where
  "demo_operator flaky = operator (mem_client flaky) mem_machinery (table_transport demo_table)"

lemma demo_counted: "list_all (\<lambda>(url, j). counted_json j) demo_table"
  by code_simp

interpretation demo: sound_cluster "mem_client flaky" mem_machinery mem_store "table_transport demo_table" mem_pods
  for flaky
  by (intro sound_cluster.intro mem.cluster_api_axioms mem.random_source_axioms counted_table demo_counted)

section \<open>The invariant, checked by evaluation\<close>

definition claims_ok :: "mem \<Rightarrow> bool" where
  "claims_ok w \<longleftrightarrow> list_all (\<lambda>v. claim_wf (map_get (pvc_Labels v))) (mem_Claims w)"

definition mounts_ok :: "mem \<Rightarrow> bool" where
  "mounts_ok w \<longleftrightarrow> list_all (\<lambda>p. live_agent p \<longrightarrow>
     list_all (\<lambda>v. owner_of (lab (mem_store w)) (pod_Namespace p, vol_ClaimName v) = Some (pod_Name p))
       (ps_Volumes (pod_Spec p))) (mem_Pods w)"

lemma lookup_in: "lookup f xs k = Some x \<Longrightarrow> x \<in> set xs"
  by (auto simp: lookup_def find_Some_iff)

lemma mem_inv:
  assumes "claims_ok w" and "mounts_ok w"
  shows "cluster_inv mem_store mem_pods w"
proof -
  have "claim_wf ls" if "lab (mem_store w) k = Some ls" for k ls
  proof -
    from that obtain v where "mem_store w k = Some v" "ls = map_get (pvc_Labels v)"
      by (auto simp: lab_def)
    with lookup_in assms(1) show ?thesis by (fastforce simp: mem_store_def claims_ok_def list_all_iff)
  qed
  then have "claims_wf (lab (mem_store w))" by (simp add: claims_wf_def)
  moreover have "owner_of (lab (mem_store w)) (ns, n) = Some a"
    if "mem_pods w (ns, a) = Some p" "live_agent p" "n \<in> mounts p" for ns a p n
  proof -
    from that(1) have "p \<in> set (mem_Pods w)" "pod_key p = (ns, a)"
      unfolding mem_pods_def by (auto dest: lookup_in lookup_key)
    with assms(2) that(2,3) show ?thesis by (auto simp: mounts_ok_def list_all_iff mounts_def)
  qed
  then have "owned (lab (mem_store w)) (mem_pods w)" unfolding owned_def by blast
  ultimately show ?thesis by (simp add: tracked_def)
qed

lemma demo_claims_ok: "claims_ok demo_world"
  by code_simp

lemma demo_mounts_ok: "mounts_ok demo_world"
  by code_simp

lemma demo_inv: "cluster_inv mem_store mem_pods (world demo_state)"
  using mem_inv [OF demo_claims_ok demo_mounts_ok] by (simp add: demo_state_def)

lemma demo_wf: "claims_wf (lab (mem_store (world demo_state)))"
  using demo_inv by (simp add: tracked_def)

lemma demo_distinct: "distinct (map cv_Name (sp_CacheVolumes (ap_Spec demo_pool)))"
  by (simp add: demo_pool_def demo_spec_def)

section \<open>Evaluated runs\<close>

text \<open>The pool with a second cache that has no claims yet.\<close>

definition demo_pool2 :: AgentPool where
  "demo_pool2 = demo_pool\<lparr>ap_Spec := demo_spec\<lparr>sp_CacheVolumes := [demo_cache, demo_cache\<lparr>cv_Name := ''npm''\<rparr>]\<rparr>\<rparr>"

lemma demo_distinct2: "distinct (map cv_Name (sp_CacheVolumes (ap_Spec demo_pool2)))"
  by (simp add: demo_pool2_def demo_spec_def demo_cache_def)

lemma demo_assign:
  "fst (findAndAssignPVCs (mem_client False) mem_machinery demo_pool ''ci-c'' demo_state)
     = Ret (Ok [(''nuget'', ''ci-cache-nuget-01'')])"
  by code_simp

lemma demo_assign_fails:
  "fst (findAndAssignPVCs (mem_client False) mem_machinery demo_pool2 ''ci-c'' demo_state)
     = Ret (Err (Errorf (''no free PVC for cache '' @ quoted ''npm'' @ '': pool at capacity'')))"
  by code_simp

lemma demo_count: "fst (countFreePVCSlots (mem_client False) demo_pool demo_state) = Ret (Ok 1)"
  by code_simp

lemma demo_ensure: "fst (ensurePVCPool (mem_client False) mem_machinery demo_pool demo_state) = Ret (Ok ())"
  by code_simp

lemma demo_release: "fst (releasePVCsForPod (mem_client False) demo_pool ''ci-a'' demo_state) = Ret (Ok ())"
  by code_simp

lemma demo_slots:
  "lab (mem_store (world demo_state)) (slot_key demo_pool demo_cache 0) \<noteq> None
   \<and> lab (mem_store (world demo_state)) (slot_key demo_pool demo_cache 1) \<noteq> None"
  by code_simp

lemma demo_slot_numbers: "slot_numbers demo_pool = [0, 1]"
  by code_simp

text \<open>The running pod in the cluster and the claim it mounts.\<close>

lemma demo_running_key: "pod_key demo_running = (''ns'', ''ci-a'')"
  by code_simp

lemma demo_running_found: "mem_pods demo_world (''ns'', ''ci-a'') = Some demo_running"
  using demo_running_key by (simp add: mem_pods_def demo_world_def lookup_def)

lemma demo_running_live: "live_agent demo_running"
  by (simp add: live_agent_def demo_running_def completed_def agent_labels_pool demo_pool_def demo_spec_def)

lemma demo_running_volumes: "list_ex (\<lambda>v. vol_ClaimName v = ''ci-cache-nuget-00'') (ps_Volumes (pod_Spec demo_running))"
  by code_simp

lemma demo_running_mounts: "''ci-cache-nuget-00'' \<in> mounts demo_running"
  using demo_running_volumes by (force simp: mounts_def list_ex_iff)

text \<open>A whole reconciliation, and one against a service that answers nothing.\<close>

lemma demo_reconcile: "fst (Reconcile (demo_operator False) demo_req demo_state) = Ret (requeue, None)"
  by code_simp

lemma demo_query_fails:
  "list_ex (\<lambda>ob. case ob of GotJobStatus (Err e) \<Rightarrow> True | _ \<Rightarrow> False)
     (trace (snd (Reconcile (operator (mem_client False) mem_machinery (table_transport [])) demo_req demo_state)))"
  by code_simp

lemma demo_still_mounted:
  "case mem_pods (world (snd (Reconcile (demo_operator False) demo_req demo_state))) (''ns'', ''ci-a'') of
     Some p \<Rightarrow> live_agent p \<and> list_ex (\<lambda>v. vol_ClaimName v = ''ci-cache-nuget-00'') (ps_Volumes (pod_Spec p))
   | None \<Rightarrow> False"
  by code_simp

text \<open>
  Two cache templates with the same name, which the validation markers allow: after a successful
  assignment and its complete rollback one of the two claims that were free is still assigned.
\<close>

definition twice_pool :: AgentPool where
  "twice_pool = demo_pool\<lparr>ap_Spec := demo_spec\<lparr>sp_CacheVolumes := [demo_cache, demo_cache]\<rparr>\<rparr>"

definition claim_holders :: "mem \<Rightarrow> (string \<times> string option) list" where
  "claim_holders w = map (\<lambda>v. (pvc_Name v, map_get (pvc_Labels v) labelAssignedPod)) (mem_Claims w)"

definition assign_and_undo :: "'w client \<Rightarrow> 'w machinery \<Rightarrow> AgentPool \<Rightarrow> string \<Rightarrow> ('w sys, unit) go" where
  "assign_and_undo c m pool podName =
     go_bind (findAndAssignPVCs c m pool podName) (\<lambda>r.
     case r of Err e \<Rightarrow> go_ret ()
     | Ok assignedPVCs \<Rightarrow> rollbackAssignedPVCs c m (ap_Namespace pool) assignedPVCs)"

definition freed_state :: "mem sys" where
  "freed_state = snd (releasePVCsForPod (mem_client False) demo_pool ''ci-a'' demo_state)"

lemma duplicate_templates_leak:
  "AgentPoolSpec_admitted (ap_Spec twice_pool)
   \<and> claim_holders (world freed_state) = [(''ci-cache-nuget-00'', None), (''ci-cache-nuget-01'', None)]
   \<and> claim_holders (world (snd (assign_and_undo (mem_client False) mem_machinery twice_pool ''ci-c'' freed_state)))
       = [(''ci-cache-nuget-00'', Some ''ci-c''), (''ci-cache-nuget-01'', None)]"
  by code_simp

lemma fst_run: "fst x = r \<Longrightarrow> x = (r, snd x)"
  by auto

end
