(* ===== verification/Pod_Shape.thy ===== *)
theory Pod_Shape
  imports Agent_Pods
begin

text \<open>
  Well-formedness of the pods that \<^verbatim>\<open>createAgentPod\<close> of
  \<^verbatim>\<open>src/internal/controller/agentpool_controller.go\<close> sends to the API server, for pools whose
  specification satisfies the validation markers of \<^verbatim>\<open>src/api/v1alpha1/agentpool_types.go\<close>: a
  successful assignment serves every template, and the pod built from it satisfies the rules of the
  API server for volumes and containers exactly when the names of the templates are distinct, which
  no marker demands.
\<close>

section \<open>The rules\<close>

text \<open>
  The rules of the API server that concern what the operator puts into the object: a container,
  named and with an image; volumes with distinct, non-empty names; mounts of declared volumes only.
  Containers and variables that the user adds are not inspected.
\<close>

definition volumes_wf :: "Volume list \<Rightarrow> bool" where
  "volumes_wf vs \<longleftrightarrow> distinct (map vol_Name vs) \<and> list_all (\<lambda>v. vol_Name v \<noteq> []) vs"

definition container_wf :: "Volume list \<Rightarrow> Container \<Rightarrow> bool" where
  "container_wf vs ct \<longleftrightarrow> ct_Name ct \<noteq> [] \<and> ct_Image ct \<noteq> []
     \<and> list_all (\<lambda>vm. vm_Name vm \<in> set (map vol_Name vs)) (ct_VolumeMounts ct)"

definition agent_pod_wf :: "Pod \<Rightarrow> bool" where
  "agent_pod_wf p \<longleftrightarrow> volumes_wf (ps_Volumes (pod_Spec p)) \<and> ps_Containers (pod_Spec p) \<noteq> []
     \<and> distinct (map ct_Name (ps_Containers (pod_Spec p)))
     \<and> list_all (container_wf (ps_Volumes (pod_Spec p))) (ps_Containers (pod_Spec p))
     \<and> ps_RestartPolicy (pod_Spec p) \<in> {''Always'', ''OnFailure'', ''Never''}"

section \<open>Complete assignments\<close>

definition covers :: "(string \<times> string) list \<Rightarrow> CacheVolumeTemplate list \<Rightarrow> bool" where
  "covers asg cvs \<longleftrightarrow> list_all (\<lambda>cv. map_of asg (cv_Name cv) \<noteq> None) cvs"

lemma covers_Nil [simp]: "covers asg []"
  by (simp add: covers_def)

lemma covers_update: "covers asg cvs \<Longrightarrow> covers (AList.update k v asg) cvs"
  by (auto simp: covers_def list_all_iff update_conv')

lemma wp_assign_loop_covers:
  "covers asg pre \<Longrightarrow> wp (assign_loop c m pool podName cvs asg)
    (\<lambda>r t. \<forall>asg'. r = Ret (Ok asg') \<longrightarrow> covers asg' (pre @ cvs)) s"
proof (induction cvs arbitrary: asg pre s)
  case Nil
  then show ?case by (simp add: wp_ret)
next
  case (Cons cv cvs)
  have step: "covers (AList.update (cv_Name cv) n asg) (pre @ [cv])" for n
    using covers_update [OF Cons.prems] by (simp add: covers_def update_conv')
  show ?case
    unfolding assign_loop.simps
    by (rule wp_bindI [where P = "\<lambda>_ _. True"])
       (use Cons.IH [OF step] in \<open>auto simp: wp_ret wp_runI split: sum.split\<close>)
qed

lemma wp_findAndAssign_covers:
  "wp (findAndAssignPVCs c m pool podName)
    (\<lambda>r t. \<forall>asg. r = Ret (Ok asg) \<longrightarrow> covers asg (sp_CacheVolumes (ap_Spec pool))) s"
  using wp_assign_loop_covers [of "[]" "[]" c m pool podName "sp_CacheVolumes (ap_Spec pool)" s]
  by (simp add: findAndAssignPVCs_def wp_ret)

section \<open>The pod object\<close>

lemma served_names: "covers asg cvs \<Longrightarrow> map fst (served asg cvs) = cvs"
  by (induction cvs) (auto simp: covers_def served_def)

lemma built_shape:
  assumes "AgentPoolSpec_admitted (ap_Spec pool)" and "covers asg (sp_CacheVolumes (ap_Spec pool))"
  shows "agent_pod_wf (buildAgentPod pool podName asg) \<longleftrightarrow> distinct (map cv_Name (sp_CacheVolumes (ap_Spec pool)))"
proof -
  let ?cvs = "sp_CacheVolumes (ap_Spec pool)"
  have names: "map (\<lambda>x. f (fst x)) (served asg ?cvs) = map f ?cvs" for f :: "CacheVolumeTemplate \<Rightarrow> string"
    using arg_cong [OF served_names [OF assms(2)], of "map f"] by (simp add: comp_def)
  have listed: "fst x \<in> set ?cvs" if "x \<in> set (served asg ?cvs)" for x
    using arg_cong [OF served_names [OF assms(2)], of set] that by force
  then have named: "cv_Name (fst x) \<noteq> []" if "x \<in> set (served asg ?cvs)" for x
    using assms(1) that by (auto simp: AgentPoolSpec_admitted_def CacheVolumeTemplate_admitted_def list_all_iff)
  have "defaultAgentImage \<noteq> []" by (simp add: defaultAgentImage_def)
  with named listed show ?thesis
    by (auto simp add: agent_pod_wf_def volumes_wf_def container_wf_def buildAgentPod_def Let_def cache_mounts_served
        comp_def case_prod_beta names list_all_iff)
qed

section \<open>Creation\<close>

text \<open>\<^verbatim>\<open>SetControllerReference\<close> changes the metadata only.\<close>

definition sets_owner_only :: "'w machinery \<Rightarrow> bool" where
  "sets_owner_only m \<longleftrightarrow> (\<forall>pool p p'. m_SetPodOwner m pool p = Ok p' \<longrightarrow> pod_Spec p' = pod_Spec p)"

text \<open>The pod of a creation request is well-formed exactly if \<open>b\<close> holds.\<close>

fun sends :: "bool \<Rightarrow> obs \<Rightarrow> bool" where
  "sends b (CreatePod p ok) \<longleftrightarrow> (agent_pod_wf p \<longleftrightarrow> b)"
| "sends b _ = True"

lemma sendsD: "list_all (sends b) os \<Longrightarrow> CreatePod p ok \<in> set os \<Longrightarrow> agent_pod_wf p \<longleftrightarrow> b"
  by (metis list_all_iff sends.simps(1))

lemma sends_pvc: "is_pvc_call ob \<Longrightarrow> sends b ob"
  by (cases ob) simp_all

lemma emits_rollback_sends: "emits (sends b) (rollbackAssignedPVCs c m ns asg)"
  by (rule emits_mono [OF emits_rollback sends_pvc])

lemma emits_assign_sends: "emits (sends b) (findAndAssignPVCs c m pool podName)"
  by (rule emits_mono [OF emits_findAndAssign sends_pvc])

lemma emits_launch_sends:
  assumes "sets_owner_only m" and "agent_pod_wf (buildAgentPod pool podName asg) \<longleftrightarrow> b"
  shows "emits (sends b) (launch_pod c m pool podName asg)"
proof -
  have "agent_pod_wf p \<longleftrightarrow> b" if "m_SetPodOwner m pool (buildAgentPod pool podName asg) = Ok p" for p
    using assms that by (metis agent_pod_wf_def sets_owner_only_def)
  then show ?thesis
    unfolding launch_pod_def call_defs
    by (auto intro!: emits_intros emits_rollback_sends split: sum.split)
qed

lemma wp_create_sends:
  assumes "sets_owner_only m" and "AgentPoolSpec_admitted (ap_Spec pool)"
  shows "wp (createAgentPod c m pool)
    (\<lambda>r t. \<exists>os. trace t = trace s @ os
       \<and> list_all (sends (distinct (map cv_Name (sp_CacheVolumes (ap_Spec pool))))) os) s"
proof -
  let ?cvs = "sp_CacheVolumes (ap_Spec pool)"
  let ?b = "distinct (map cv_Name ?cvs)"
  let ?Q = "\<lambda>s t. \<exists>os. trace t = trace s @ os \<and> list_all (sends ?b) os"
  have trans: "?Q s t \<Longrightarrow> ?Q t u \<Longrightarrow> ?Q s u" for t u by auto
  have launch: "wp (launch_pod c m pool podName asg) (\<lambda>r u. ?Q s u) t"
    if "?Q s t" "covers asg ?cvs" for podName asg t
    by (rule wp_mono [OF emits_wp [OF emits_launch_sends [OF assms(1) built_shape [OF assms(2) that(2)]]]])
       (rule trans [OF that(1)])
  have assign: "wp (findAndAssignPVCs c m pool podName)
      (\<lambda>r u. ?Q s u \<and> (\<forall>asg. r = Ret (Ok asg) \<longrightarrow> covers asg ?cvs)) t" if "?Q s t" for podName t
    using wp_conj [OF emits_wp [OF emits_assign_sends [of ?b]] wp_findAndAssign_covers]
    by (rule wp_mono) (use trans [OF that] in blast)
  have name: "wp (agent_pod_name m pool) (\<lambda>r t. ?Q s t) s"
    by (rule emits_wp [OF emits_agent_pod_name])
  show ?thesis
    unfolding createAgentPod_def
  proof (rule wp_bindI [OF name])
    fix podName and t :: "'a sys"
    assume t: "?Q s t"
    have "wp (go_bind (findAndAssignPVCs c m pool podName) (\<lambda>r. case r of
        Err e \<Rightarrow> go_ret (Err (Wrapf ''assign PVCs'' e))
      | Ok asg \<Rightarrow> launch_pod c m pool podName asg)) (\<lambda>r u. ?Q s u) t"
      by (rule wp_bindI [OF assign [OF t]]) (auto simp: wp_ret intro: launch split: sum.split)
    then show "wp (if ?cvs \<noteq> [] then go_bind (findAndAssignPVCs c m pool podName) (\<lambda>r. case r of
        Err e \<Rightarrow> go_ret (Err (Wrapf ''assign PVCs'' e))
      | Ok asg \<Rightarrow> launch_pod c m pool podName asg) else launch_pod c m pool podName []) (\<lambda>r u. ?Q s u) t"
      using launch [OF t, of "[]"] by (auto simp: covers_def)
  qed
qed

end
