(* ===== verification/Manager.thy ===== *)
theory Manager
  imports Reconciler
begin

text \<open>
  The manager process, \<^verbatim>\<open>src/cmd/main.go\<close>: registration of the API types
  (\<^verbatim>\<open>src/api/v1alpha1/groupversion_info.go\<close>), the command line (\<^verbatim>\<open>flag\<close> of the Go library), the
  options of the webhook and metrics servers, and the start-up sequence with its exits.  The
  functions of controller-runtime that \<open>main\<close> calls are a parameter (\<open>runtime\<close>, \<open>manager\<close>); the state
  has the world and the list of start-up steps taken, with their success.
\<close>

section \<open>The command line\<close>

record Flags =
  fl_metricsAddr :: string
  fl_probeAddr :: string
  fl_enableLeaderElection :: bool
  fl_secureMetrics :: bool
  fl_webhookCertPath :: string
  fl_webhookCertName :: string
  fl_webhookCertKey :: string
  fl_metricsCertPath :: string
  fl_metricsCertName :: string
  fl_metricsCertKey :: string
  fl_enableHTTP2 :: bool

definition default_flags :: Flags where
  "default_flags = \<lparr>fl_metricsAddr = ''0'', fl_probeAddr = '':8081'', fl_enableLeaderElection = False,
     fl_secureMetrics = True, fl_webhookCertPath = [], fl_webhookCertName = ''tls.crt'',
     fl_webhookCertKey = ''tls.key'', fl_metricsCertPath = [], fl_metricsCertName = ''tls.crt'',
     fl_metricsCertKey = ''tls.key'', fl_enableHTTP2 = False\<rparr>"

text \<open>
  A flag is a boolean or a string variable with its setter.  Flags that other packages define on the
  same flag set (\<^verbatim>\<open>zap\<close>, \<^verbatim>\<open>kubeconfig\<close>) only decide whether they accept a value.
\<close>

datatype flag = BoolVar "bool \<Rightarrow> Flags \<Rightarrow> Flags" | StringVar "string \<Rightarrow> Flags \<Rightarrow> Flags"
  | ExtBool "string \<Rightarrow> bool" | ExtVar "string \<Rightarrow> bool"

definition operator_flags :: "(string \<times> flag) list" where
  "operator_flags =
     [(''metrics-bind-address'', StringVar (\<lambda>v. fl_metricsAddr_update (\<lambda>_. v))),
      (''health-probe-bind-address'', StringVar (\<lambda>v. fl_probeAddr_update (\<lambda>_. v))),
      (''leader-elect'', BoolVar (\<lambda>v. fl_enableLeaderElection_update (\<lambda>_. v))),
      (''metrics-secure'', BoolVar (\<lambda>v. fl_secureMetrics_update (\<lambda>_. v))),
      (''webhook-cert-path'', StringVar (\<lambda>v. fl_webhookCertPath_update (\<lambda>_. v))),
      (''webhook-cert-name'', StringVar (\<lambda>v. fl_webhookCertName_update (\<lambda>_. v))),
      (''webhook-cert-key'', StringVar (\<lambda>v. fl_webhookCertKey_update (\<lambda>_. v))),
      (''metrics-cert-path'', StringVar (\<lambda>v. fl_metricsCertPath_update (\<lambda>_. v))),
      (''metrics-cert-name'', StringVar (\<lambda>v. fl_metricsCertName_update (\<lambda>_. v))),
      (''metrics-cert-key'', StringVar (\<lambda>v. fl_metricsCertKey_update (\<lambda>_. v))),
      (''enable-http2'', BoolVar (\<lambda>v. fl_enableHTTP2_update (\<lambda>_. v)))]"

text \<open>\<^verbatim>\<open>strconv.ParseBool\<close>.\<close>

definition ParseBool :: "string \<Rightarrow> bool option" where
  "ParseBool s = (if s \<in> set [''1'', ''t'', ''T'', ''TRUE'', ''true'', ''True''] then Some True
     else if s \<in> set [''0'', ''f'', ''F'', ''FALSE'', ''false'', ''False''] then Some False
     else None)"

text \<open>\<^verbatim>\<open>flag.Parse\<close> with \<^verbatim>\<open>ExitOnError\<close>: the variables, or the exit status (0 after a help request).\<close>

datatype parsed = Parsed Flags | FlagExit nat

definition is_bool_flag :: "flag \<Rightarrow> bool" where
  "is_bool_flag f = (case f of BoolVar _ \<Rightarrow> True | ExtBool _ \<Rightarrow> True | _ \<Rightarrow> False)"

definition set_flag :: "flag \<Rightarrow> string \<Rightarrow> Flags \<Rightarrow> Flags option" where
  "set_flag f v fl = (case f of
       BoolVar put \<Rightarrow> map_option (\<lambda>b. put b fl) (ParseBool v)
     | StringVar put \<Rightarrow> Some (put v fl)
     | ExtBool accepts \<Rightarrow> if accepts v then Some fl else None
     | ExtVar accepts \<Rightarrow> if accepts v then Some fl else None)"

text \<open>The name and value of an argument, split at the first \<^verbatim>\<open>=\<close> that is not its first character.\<close>

definition split_flag :: "string \<Rightarrow> string \<times> string option" where
  "split_flag s = (case s of [] \<Rightarrow> ([], None)
     | ch # rest \<Rightarrow> (let n = takeWhile (\<lambda>x. x \<noteq> CHR ''='') rest
        in (ch # n, if length n < length rest then Some (drop (Suc (length n)) rest) else None)))"

definition dashes :: "string \<Rightarrow> nat" where
  "dashes s = (if length s < 2 \<or> hd s \<noteq> CHR ''-'' then 0 else if s ! 1 = CHR ''-'' then 2 else 1)"

fun parse_flags :: "(string \<times> flag) list \<Rightarrow> string list \<Rightarrow> Flags \<Rightarrow> parsed" where
  "parse_flags defs [] fl = Parsed fl"
| "parse_flags defs (s # args) fl =
     (if dashes s = 0 \<or> s = ''--'' then Parsed fl
      else
        let body = drop (dashes s) s
        in if body = [] \<or> hd body = CHR ''-'' \<or> hd body = CHR ''='' then FlagExit 2
           else
             let (name, value) = split_flag body
             in case map_of defs name of
                  None \<Rightarrow> FlagExit (if name = ''help'' \<or> name = ''h'' then 0 else 2)
                | Some f \<Rightarrow>
                    if is_bool_flag f then
                      (case set_flag f (case value of Some v \<Rightarrow> v | None \<Rightarrow> ''true'') fl of
                         None \<Rightarrow> FlagExit 2
                       | Some fl' \<Rightarrow> parse_flags defs args fl')
                    else
                      (case value of
                         Some v \<Rightarrow> (case set_flag f v fl of None \<Rightarrow> FlagExit 2
                            | Some fl' \<Rightarrow> parse_flags defs args fl')
                       | None \<Rightarrow>
                           (case args of [] \<Rightarrow> FlagExit 2
                            | v # args' \<Rightarrow> (case set_flag f v fl of None \<Rightarrow> FlagExit 2
                                | Some fl' \<Rightarrow> parse_flags defs args' fl'))))"

section \<open>Server options\<close>

record tls_Config =
  tls_NextProtos :: "string list"

type_synonym tls_opt = "tls_Config \<Rightarrow> tls_Config"

definition disableHTTP2 :: tls_opt where
  "disableHTTP2 c = c\<lparr>tls_NextProtos := [''http/1.1'']\<rparr>"

definition tlsOpts :: "Flags \<Rightarrow> tls_opt list" where
  "tlsOpts fl = (if \<not> fl_enableHTTP2 fl then [] @ [disableHTTP2] else [])"

record webhook_Options =
  wo_TLSOpts :: "tls_opt list"
  wo_CertDir :: string
  wo_CertName :: string
  wo_KeyName :: string

definition webhookServerOptions :: "Flags \<Rightarrow> webhook_Options" where
  "webhookServerOptions fl =
     (let webhookTLSOpts = tlsOpts fl;
          opts = \<lparr>wo_TLSOpts = webhookTLSOpts, wo_CertDir = [], wo_CertName = [], wo_KeyName = []\<rparr>
      in if length (fl_webhookCertPath fl) > 0 then
           opts\<lparr>wo_CertDir := fl_webhookCertPath fl, wo_CertName := fl_webhookCertName fl,
                wo_KeyName := fl_webhookCertKey fl\<rparr>
         else opts)"

datatype filter_provider = WithAuthenticationAndAuthorization

record metrics_Options =
  mo_BindAddress :: string
  mo_SecureServing :: bool
  mo_TLSOpts :: "tls_opt list"
  mo_FilterProvider :: "filter_provider option"
  mo_CertDir :: string
  mo_CertName :: string
  mo_KeyName :: string

definition metricsServerOptions :: "Flags \<Rightarrow> metrics_Options" where
  "metricsServerOptions fl =
     (let opts = \<lparr>mo_BindAddress = fl_metricsAddr fl, mo_SecureServing = fl_secureMetrics fl,
                  mo_TLSOpts = tlsOpts fl, mo_FilterProvider = None,
                  mo_CertDir = [], mo_CertName = [], mo_KeyName = []\<rparr>;
          opts = (if fl_secureMetrics fl
                  then opts\<lparr>mo_FilterProvider := Some WithAuthenticationAndAuthorization\<rparr> else opts)
      in if length (fl_metricsCertPath fl) > 0 then
           opts\<lparr>mo_CertDir := fl_metricsCertPath fl, mo_CertName := fl_metricsCertName fl,
                mo_KeyName := fl_metricsCertKey fl\<rparr>
         else opts)"

record ctrl_Options =
  co_Metrics :: metrics_Options
  co_WebhookServer :: webhook_Options
  co_HealthProbeBindAddress :: string
  co_LeaderElection :: bool
  co_LeaderElectionID :: string

definition manager_options :: "Flags \<Rightarrow> ctrl_Options" where
  "manager_options fl =
     \<lparr>co_Metrics = metricsServerOptions fl, co_WebhookServer = webhookServerOptions fl,
      co_HealthProbeBindAddress = fl_probeAddr fl, co_LeaderElection = fl_enableLeaderElection fl,
      co_LeaderElectionID = ''3df2ccbb.amaanx86.github.io''\<rparr>"

section \<open>Registration of the API types\<close>

record GroupVersion =
  gv_Group :: string
  gv_Version :: string

definition SchemeGroupVersion :: GroupVersion where
  "SchemeGroupVersion = \<lparr>gv_Group = ''agents.amaanx86.github.io'', gv_Version = ''v1alpha1''\<rparr>"

definition registered_objects :: "string list" where
  "registered_objects = [''AgentPool'', ''AgentPoolList'']"

section \<open>controller-runtime\<close>

record controller_spec =
  cs_For :: string
  cs_Owns :: "string list"
  cs_Named :: string

record 'w manager =
  mg_Client :: "'w client"
  mg_Complete :: "controller_spec \<Rightarrow> 'w AgentPoolReconciler \<Rightarrow> 'w \<Rightarrow> unit result \<times> 'w"
  mg_AddHealthzCheck :: "string \<Rightarrow> 'w \<Rightarrow> unit result \<times> 'w"
  mg_AddReadyzCheck :: "string \<Rightarrow> 'w \<Rightarrow> unit result \<times> 'w"
  mg_Start :: "'w \<Rightarrow> unit result \<times> 'w"

text \<open>\<^verbatim>\<open>GetConfigOrDie\<close> answers \<open>None\<close> when it ends the process (with status 1).\<close>

record 'w runtime =
  rt_AddClientGo :: "'w \<Rightarrow> unit result \<times> 'w"
  rt_AddToScheme :: "GroupVersion \<Rightarrow> string list \<Rightarrow> 'w \<Rightarrow> unit result \<times> 'w"
  rt_GetConfigOrDie :: "'w \<Rightarrow> string option \<times> 'w"
  rt_NewManager :: "string \<Rightarrow> ctrl_Options \<Rightarrow> 'w \<Rightarrow> 'w manager result \<times> 'w"

datatype setup_step = CoreTypesAdded | TypesAdded | ManagerCreated | ControllerRegistered | HealthzAdded
  | ReadyzAdded | ManagerStarted

record 'w boot =
  b_world :: 'w
  b_steps :: "(setup_step \<times> bool) list"

definition attempt :: "setup_step \<Rightarrow> ('w \<Rightarrow> 'a result \<times> 'w) \<Rightarrow> ('w boot, 'a result) go" where
  "attempt st f = (\<lambda>b. case f (b_world b) of (r, w) \<Rightarrow>
     (Ret r, b\<lparr>b_world := w, b_steps := b_steps b @ [(st, is_ok r)]\<rparr>))"

definition SetupWithManager :: "'w AgentPoolReconciler \<Rightarrow> 'w manager \<Rightarrow> ('w boot, unit result) go" where
  "SetupWithManager R mgr =
     attempt ControllerRegistered (mg_Complete mgr
       \<lparr>cs_For = ''AgentPool'', cs_Owns = [''Pod'', ''PersistentVolumeClaim''], cs_Named = ''agentpool''\<rparr> R)"

section \<open>main\<close>

text \<open>\<^verbatim>\<open>utilruntime.Must\<close> panics on an error.\<close>

definition Must :: "unit result \<Rightarrow> ('s, unit) go" where
  "Must r = (case r of Err e \<Rightarrow> go_panic (error_text e) | Ok _ \<Rightarrow> go_ret ())"

definition init_scheme :: "'w runtime \<Rightarrow> ('w boot, unit) go" where
  "init_scheme rt =
     go_bind (attempt CoreTypesAdded (rt_AddClientGo rt)) (\<lambda>r.
     go_bind (Must r) (\<lambda>_.
     go_bind (attempt TypesAdded (rt_AddToScheme rt SchemeGroupVersion registered_objects)) (\<lambda>r.
     Must r)))"

text \<open>From the manager on; the result is the exit status.\<close>

definition run_manager :: "'w machinery \<Rightarrow> 'w transport \<Rightarrow> 'w manager \<Rightarrow> ('w boot, nat) go" where
  "run_manager m tr mgr =
     go_bind (SetupWithManager (operator (mg_Client mgr) m tr) mgr) (\<lambda>r.
     case r of Err e \<Rightarrow> go_ret 1 | Ok _ \<Rightarrow>
     go_bind (attempt HealthzAdded (mg_AddHealthzCheck mgr ''healthz'')) (\<lambda>r.
     case r of Err e \<Rightarrow> go_ret 1 | Ok _ \<Rightarrow>
     go_bind (attempt ReadyzAdded (mg_AddReadyzCheck mgr ''readyz'')) (\<lambda>r.
     case r of Err e \<Rightarrow> go_ret 1 | Ok _ \<Rightarrow>
     go_bind (attempt ManagerStarted (mg_Start mgr)) (\<lambda>r.
     case r of Err e \<Rightarrow> go_ret 1 | Ok _ \<Rightarrow> go_ret 0))))"

definition load_config :: "'w runtime \<Rightarrow> ('w boot, string option) go" where
  "load_config rt = (\<lambda>b. case rt_GetConfigOrDie rt (b_world b) of (cfg, w) \<Rightarrow> (Ret cfg, b\<lparr>b_world := w\<rparr>))"

definition main :: "'w runtime \<Rightarrow> 'w machinery \<Rightarrow> 'w transport \<Rightarrow> (string \<times> flag) list \<Rightarrow> string list
    \<Rightarrow> ('w boot, nat) go" where
  "main rt m tr ext args =
     (case parse_flags (operator_flags @ ext) args default_flags of
        FlagExit code \<Rightarrow> go_ret code
      | Parsed fl \<Rightarrow>
          go_bind (load_config rt) (\<lambda>cfg.
          case cfg of None \<Rightarrow> go_ret 1 | Some cfg \<Rightarrow>
          go_bind (attempt ManagerCreated (rt_NewManager rt cfg (manager_options fl))) (\<lambda>r.
          case r of Err e \<Rightarrow> go_ret 1 | Ok mgr \<Rightarrow> run_manager m tr mgr)))"

section \<open>Flags round trip\<close>

definition bool_text :: "bool \<Rightarrow> string" where
  "bool_text b = (if b then ''true'' else ''false'')"

definition assign_flag :: "string \<Rightarrow> string \<Rightarrow> string" where
  "assign_flag name v = ''--'' @ name @ ''='' @ v"

text \<open>A command line that sets every flag of the operator.\<close>

definition render_flags :: "Flags \<Rightarrow> string list" where
  "render_flags fl =
     [assign_flag ''metrics-bind-address'' (fl_metricsAddr fl),
      assign_flag ''health-probe-bind-address'' (fl_probeAddr fl),
      assign_flag ''leader-elect'' (bool_text (fl_enableLeaderElection fl)),
      assign_flag ''metrics-secure'' (bool_text (fl_secureMetrics fl)),
      assign_flag ''webhook-cert-path'' (fl_webhookCertPath fl),
      assign_flag ''webhook-cert-name'' (fl_webhookCertName fl),
      assign_flag ''webhook-cert-key'' (fl_webhookCertKey fl),
      assign_flag ''metrics-cert-path'' (fl_metricsCertPath fl),
      assign_flag ''metrics-cert-name'' (fl_metricsCertName fl),
      assign_flag ''metrics-cert-key'' (fl_metricsCertKey fl),
      assign_flag ''enable-http2'' (bool_text (fl_enableHTTP2 fl))]"

lemma ParseBool_text [simp]: "ParseBool (bool_text b) = Some b"
  by (simp add: ParseBool_def bool_text_def)

lemma split_flag_assign:
  "ch \<noteq> CHR ''='' \<Longrightarrow> CHR ''='' \<notin> set n \<Longrightarrow> split_flag (ch # n @ CHR ''='' # v) = (ch # n, Some v)"
proof -
  assume "CHR ''='' \<notin> set n"
  then have "takeWhile (\<lambda>x. x \<noteq> CHR ''='') (n @ CHR ''='' # v) = n"
    by (induction n) auto
  then show ?thesis by (simp add: split_flag_def Let_def)
qed

lemma parse_assign:
  assumes "map_of defs (ch # n) = Some f" and "ch \<noteq> CHR ''-''" and "ch \<noteq> CHR ''=''" and "CHR ''='' \<notin> set n"
  shows "parse_flags defs (assign_flag (ch # n) v # args) fl =
    (case set_flag f v fl of None \<Rightarrow> FlagExit 2 | Some fl' \<Rightarrow> parse_flags defs args fl')"
  using assms split_flag_assign [OF assms(3,4)]
  by (simp add: assign_flag_def dashes_def Let_def)

declare parse_flags.simps(2) [simp del]

lemma flag_found:
  "map_of operator_flags name = Some f \<Longrightarrow> map_of (operator_flags @ ext) name = Some f"
  by simp

lemma parse_render:
  "parse_flags (operator_flags @ ext) (render_flags fl) fl0 = Parsed fl"
  unfolding render_flags_def
  by (simp add: parse_assign [where f = "StringVar _"] parse_assign [where f = "BoolVar _"] operator_flags_def set_flag_def)

section \<open>Servers\<close>

definition apply_opts :: "tls_opt list \<Rightarrow> tls_Config \<Rightarrow> tls_Config" where
  "apply_opts opts c = fold (\<lambda>f c. f c) opts c"

lemma apply_tlsOpts:
  "apply_opts (tlsOpts fl) c = (if fl_enableHTTP2 fl then c else c\<lparr>tls_NextProtos := [''http/1.1'']\<rparr>)"
  by (simp add: apply_opts_def tlsOpts_def disableHTTP2_def)

lemma metrics_fields:
  "mo_TLSOpts (metricsServerOptions fl) = tlsOpts fl"
  "mo_SecureServing (metricsServerOptions fl) = fl_secureMetrics fl"
  "mo_FilterProvider (metricsServerOptions fl) =
     (if fl_secureMetrics fl then Some WithAuthenticationAndAuthorization else None)"
  "mo_CertDir (metricsServerOptions fl) = fl_metricsCertPath fl"
  "wo_TLSOpts (webhookServerOptions fl) = tlsOpts fl"
  "wo_CertDir (webhookServerOptions fl) = fl_webhookCertPath fl"
  by (simp_all add: metricsServerOptions_def webhookServerOptions_def Let_def)

section \<open>Start-up\<close>

lemma wp_attempt [wp_simps]:
  "wp (attempt st f) Q b \<longleftrightarrow> (case f (b_world b) of (r, w) \<Rightarrow>
     Q (Ret r) (b\<lparr>b_world := w, b_steps := b_steps b @ [(st, is_ok r)]\<rparr>))"
  by (simp add: wp_def attempt_def split: prod.split)

lemma wp_load_config:
  "wp (load_config rt) Q b \<longleftrightarrow> (case rt_GetConfigOrDie rt (b_world b) of (cfg, w) \<Rightarrow> Q (Ret cfg) (b\<lparr>b_world := w\<rparr>))"
  by (simp add: wp_def load_config_def split: prod.split)

definition start_plan :: "setup_step list" where
  "start_plan = [ManagerCreated, ControllerRegistered, HealthzAdded, ReadyzAdded, ManagerStarted]"

text \<open>The first \<open>n\<close> steps of the plan succeeded, and step \<open>n\<close>, if any, failed.\<close>

definition stopped_at :: "nat \<Rightarrow> (setup_step \<times> bool) list \<Rightarrow> bool" where
  "stopped_at n steps \<longleftrightarrow> steps = map (\<lambda>st. (st, True)) (take n start_plan) @ map (\<lambda>st. (st, False)) (take 1 (drop n start_plan))"

definition plan_status :: "nat \<Rightarrow> nat" where
  "plan_status n = (if n = length start_plan then 0 else 1)"

lemma wp_run_manager:
  "wp (run_manager m tr mgr)
     (\<lambda>r t. \<exists>n \<in> {1, 2, 3, 4, 5}. \<exists>steps. b_steps t = b_steps b @ steps \<and> stopped_at n ((ManagerCreated, True) # steps)
        \<and> r = Ret (plan_status n)) b"
  unfolding run_manager_def SetupWithManager_def
  by (auto simp: wp_simps stopped_at_def plan_status_def start_plan_def split: sum.split prod.split)

lemma wp_main:
  "wp (main rt m tr ext args)
     (\<lambda>r t. case parse_flags (operator_flags @ ext) args default_flags of
        FlagExit code \<Rightarrow> r = Ret code \<and> b_steps t = b_steps b
      | Parsed fl \<Rightarrow> (case fst (rt_GetConfigOrDie rt (b_world b)) of
            None \<Rightarrow> r = Ret 1 \<and> b_steps t = b_steps b
          | Some cfg \<Rightarrow> \<exists>n \<le> 5. \<exists>steps. b_steps t = b_steps b @ steps \<and> stopped_at n steps
               \<and> r = Ret (plan_status n))) b"
proof (cases "parse_flags (operator_flags @ ext) args default_flags")
  case (FlagExit code)
  then show ?thesis by (simp add: main_def wp_ret)
next
  case (Parsed fl)
  let ?Q = "\<lambda>r t. \<exists>n \<le> 5. \<exists>steps. b_steps t = b_steps b @ steps \<and> stopped_at n steps \<and> r = Ret (plan_status n)"
  have failed: "stopped_at 0 [(ManagerCreated, False)]" by (simp add: stopped_at_def start_plan_def)
  have one: "plan_status 0 = 1" by (simp add: plan_status_def start_plan_def)
  have run: "wp (run_manager m tr mgr) ?Q (b\<lparr>b_world := w, b_steps := b_steps b @ [(ManagerCreated, True)]\<rparr>)" for mgr w
  proof (rule wp_mono [OF wp_run_manager])
    fix r t
    assume "\<exists>n \<in> {1, 2, 3, 4, 5}. \<exists>steps.
        b_steps t = b_steps (b\<lparr>b_world := w, b_steps := b_steps b @ [(ManagerCreated, True)]\<rparr>) @ steps
      \<and> stopped_at n ((ManagerCreated, True) # steps) \<and> r = Ret (plan_status n)"
    then obtain n steps where "n \<in> {1, 2, 3, 4, 5}" and "b_steps t = b_steps b @ (ManagerCreated, True) # steps"
      and "stopped_at n ((ManagerCreated, True) # steps)" and "r = Ret (plan_status n)" by auto
    moreover from this(1) have "n \<le> 5" by auto
    ultimately show "?Q r t" by blast
  qed
  have "wp (go_bind (attempt ManagerCreated (rt_NewManager rt cfg (manager_options fl))) (\<lambda>r.
        case r of Err e \<Rightarrow> go_ret 1 | Ok mgr \<Rightarrow> run_manager m tr mgr)) ?Q (b\<lparr>b_world := w\<rparr>)" for cfg w
    using run failed one by (auto simp: wp_simps split: prod.split sum.split)
  with Parsed show ?thesis
    unfolding main_def Parsed parsed.case wp_bind [of "load_config rt"] wp_load_config
    by (auto simp: wp_ret split: prod.split option.split)
qed

lemma wp_init_scheme:
  "wp (init_scheme rt) (\<lambda>r t. \<exists>steps. b_steps t = b_steps b @ steps
     \<and> (r = Ret () \<longleftrightarrow> steps = [(CoreTypesAdded, True), (TypesAdded, True)])) b"
  unfolding init_scheme_def Must_def by (auto simp: wp_simps split: sum.split prod.split)

end
