(* ===== verification/Go_Heap.thy ===== *)
theory Go_Heap
  imports Main "HOL-Library.AList"
begin

text \<open>
  Pointers, slices and maps of Go as addresses into an explicit heap, the operations that generated
  deep-copy code is made of, and what makes such a copy correct.  \<open>deep_copier\<close> is the contract of a
  copying function: the copy has the same contents, nothing that was allocated before changes, and
  everything the copy refers to is new.  The contract is closed under the building blocks (plain
  values, pointers, slices, maps, structs), so that the generated functions satisfy it by
  composition.

  The heap holds cells of a type \<open>'c\<close>; a pair of functions (\<open>get\<close>, \<open>put\<close>) says how a value is kept in
  a cell.
\<close>

section \<open>The heap\<close>

record 'c heap =
  h_lim :: nat
  h_cells :: "nat \<Rightarrow> 'c option"

definition new_cell :: "'c \<Rightarrow> 'c heap \<Rightarrow> nat \<times> 'c heap" where
  "new_cell c h = (h_lim h, h\<lparr>h_lim := Suc (h_lim h), h_cells := (h_cells h)(h_lim h \<mapsto> c)\<rparr>)"

definition put_cell :: "nat \<Rightarrow> 'c \<Rightarrow> 'c heap \<Rightarrow> 'c heap" where
  "put_cell a c h = h\<lparr>h_cells := (h_cells h)(a \<mapsto> c)\<rparr>"

definition wf_heap :: "'c heap \<Rightarrow> bool" where
  "wf_heap h \<longleftrightarrow> (\<forall>a \<ge> h_lim h. h_cells h a = None)"

definition heap_extends :: "'c heap \<Rightarrow> 'c heap \<Rightarrow> bool" where
  "heap_extends h h' \<longleftrightarrow> h_lim h \<le> h_lim h' \<and> (\<forall>a < h_lim h. h_cells h' a = h_cells h a)"

lemma extends_refl [simp]: "heap_extends h h"
  by (simp add: heap_extends_def)

lemma extends_trans: "heap_extends h h' \<Longrightarrow> heap_extends h' h'' \<Longrightarrow> heap_extends h h''"
  by (auto simp: heap_extends_def)

lemma extends_lim: "heap_extends h h' \<Longrightarrow> h_lim h \<le> h_lim h'"
  by (simp add: heap_extends_def)

lemma extends_cells: "heap_extends h h' \<Longrightarrow> A \<subseteq> {..<h_lim h} \<Longrightarrow> \<forall>a \<in> A. h_cells h' a = h_cells h a"
  by (auto simp: heap_extends_def)

lemma alloc_simps: "new_cell c h = (a, h') \<longleftrightarrow> a = h_lim h \<and> h' = h\<lparr>h_lim := Suc (h_lim h), h_cells := (h_cells h)(h_lim h \<mapsto> c)\<rparr>"
  by (auto simp: new_cell_def)

lemma store_simps [simp]: "h_lim (put_cell a c h) = h_lim h" "h_cells (put_cell a c h) = (h_cells h)(a \<mapsto> c)"
  by (simp_all add: put_cell_def)

lemma wf_below: "wf_heap h \<Longrightarrow> h_cells h a = Some c \<Longrightarrow> a < h_lim h"
  unfolding wf_heap_def by (metis not_le option.distinct(1))

lemma range_mono: "A \<subseteq> {i..<j} \<Longrightarrow> i' \<le> i \<Longrightarrow> j \<le> j' \<Longrightarrow> A \<subseteq> {i'..<j'}" for i :: nat
  by (erule subset_trans) auto

section \<open>The contract of a copying function\<close>

text \<open>
  \<open>view\<close> reads the contents of a value through all its references (\<open>None\<close> when one dangles), \<open>reach\<close> is
  the set of cells it refers to.
\<close>

locale deep_copier =
  fixes view :: "'c heap \<Rightarrow> 'a \<Rightarrow> 'v option" and reach :: "'c heap \<Rightarrow> 'a \<Rightarrow> nat set"
    and copy :: "'a \<Rightarrow> 'c heap \<Rightarrow> 'a \<times> 'c heap"
  assumes frame: "view h x = Some v \<Longrightarrow> \<forall>a \<in> reach h x. h_cells h' a = h_cells h a \<Longrightarrow>
      view h' x = Some v \<and> reach h' x = reach h x"
    and allocated: "wf_heap h \<Longrightarrow> view h x = Some v \<Longrightarrow> reach h x \<subseteq> {..<h_lim h}"
    and copied: "wf_heap h \<Longrightarrow> view h x = Some v \<Longrightarrow> copy x h = (y, h') \<Longrightarrow>
      wf_heap h' \<and> heap_extends h h' \<and> view h' y = Some v \<and> reach h' y \<subseteq> {h_lim h..<h_lim h'}"
begin

lemma extends_view:
  assumes "wf_heap h" and "view h x = Some v" and "heap_extends h h'"
  shows "view h' x = Some v" and "reach h' x = reach h x"
  using frame [OF assms(2) extends_cells [OF assms(3) allocated [OF assms(1,2)]]] by simp_all

text \<open>
  Original and copy have the same contents and share no cell; so changing cells of one leaves the
  contents of the other as they are.
\<close>

lemma independent:
  assumes "wf_heap h" and "view h x = Some v" and "copy x h = (y, h')"
  shows "view h' y = Some v \<and> view h' x = Some v \<and> reach h' x \<inter> reach h' y = {}
    \<and> (\<forall>h''. (\<forall>a. a \<notin> reach h' y \<longrightarrow> h_cells h'' a = h_cells h' a) \<longrightarrow> view h'' x = Some v)
    \<and> (\<forall>h''. (\<forall>a. a \<notin> reach h' x \<longrightarrow> h_cells h'' a = h_cells h' a) \<longrightarrow> view h'' y = Some v)"
proof -
  from copied [OF assms] have ext: "heap_extends h h'" and y: "view h' y = Some v"
    and new: "reach h' y \<subseteq> {h_lim h..<h_lim h'}" by simp_all
  note x = extends_view [OF assms(1,2) ext]
  have disj: "reach h' x \<inter> reach h' y = {}"
    using allocated [OF assms(1,2)] new unfolding x(2) by fastforce
  moreover have "view h'' x = Some v" if "\<forall>a. a \<notin> reach h' y \<longrightarrow> h_cells h'' a = h_cells h' a" for h''
    using frame [OF x(1)] that disj by blast
  moreover have "view h'' y = Some v" if "\<forall>a. a \<notin> reach h' x \<longrightarrow> h_cells h'' a = h_cells h' a" for h''
    using frame [OF y] that disj by blast
  ultimately show ?thesis using x y by blast
qed

end

section \<open>Plain values, pairs and structs\<close>

lemma plain_copier: "deep_copier (\<lambda>h. Some) (\<lambda>h x. {}) Pair"
  by unfold_locales auto

definition pair_view :: "('c heap \<Rightarrow> 'a \<Rightarrow> 'v option) \<Rightarrow> ('c heap \<Rightarrow> 'b \<Rightarrow> 'w option) \<Rightarrow> 'c heap \<Rightarrow> 'a \<times> 'b
    \<Rightarrow> ('v \<times> 'w) option" where
  "pair_view v1 v2 h x = (case v1 h (fst x) of None \<Rightarrow> None
     | Some v \<Rightarrow> (case v2 h (snd x) of None \<Rightarrow> None | Some w \<Rightarrow> Some (v, w)))"

definition pair_reach :: "('c heap \<Rightarrow> 'a \<Rightarrow> nat set) \<Rightarrow> ('c heap \<Rightarrow> 'b \<Rightarrow> nat set) \<Rightarrow> 'c heap \<Rightarrow> 'a \<times> 'b
    \<Rightarrow> nat set" where
  "pair_reach r1 r2 h x = r1 h (fst x) \<union> r2 h (snd x)"

definition pair_copy :: "('a \<Rightarrow> 'c heap \<Rightarrow> 'a \<times> 'c heap) \<Rightarrow> ('b \<Rightarrow> 'c heap \<Rightarrow> 'b \<times> 'c heap) \<Rightarrow> 'a \<times> 'b
    \<Rightarrow> 'c heap \<Rightarrow> ('a \<times> 'b) \<times> 'c heap" where
  "pair_copy c1 c2 x h = (case c1 (fst x) h of (y, h1) \<Rightarrow> (case c2 (snd x) h1 of (z, h2) \<Rightarrow> ((y, z), h2)))"

lemma pair_view_Some: "pair_view v1 v2 h x = Some u \<longleftrightarrow> v1 h (fst x) = Some (fst u) \<and> v2 h (snd x) = Some (snd u)"
  by (cases u) (auto simp: pair_view_def split: option.splits)

lemma pair_copier:
  assumes "deep_copier v1 r1 c1" and "deep_copier v2 r2 c2"
  shows "deep_copier (pair_view v1 v2) (pair_reach r1 r2) (pair_copy c1 c2)"
proof
  fix h h' x u y
  show "pair_view v1 v2 h' x = Some u \<and> pair_reach r1 r2 h' x = pair_reach r1 r2 h x"
    if "pair_view v1 v2 h x = Some u" and "\<forall>a \<in> pair_reach r1 r2 h x. h_cells h' a = h_cells h a"
  proof -
    from that have u: "v1 h (fst x) = Some (fst u)" "v2 h (snd x) = Some (snd u)"
      and same: "\<forall>a \<in> r1 h (fst x). h_cells h' a = h_cells h a" "\<forall>a \<in> r2 h (snd x). h_cells h' a = h_cells h a"
      by (auto simp: pair_view_Some pair_reach_def)
    from deep_copier.frame [OF assms(1) u(1) same(1)] deep_copier.frame [OF assms(2) u(2) same(2)]
    show ?thesis by (simp add: pair_view_Some pair_reach_def)
  qed
  show "pair_reach r1 r2 h x \<subseteq> {..<h_lim h}" if "wf_heap h" and "pair_view v1 v2 h x = Some u"
    using that deep_copier.allocated [OF assms(1) that(1), of "fst x" "fst u"]
      deep_copier.allocated [OF assms(2) that(1), of "snd x" "snd u"]
    by (simp add: pair_view_Some pair_reach_def)
  assume wf: "wf_heap h" and u: "pair_view v1 v2 h x = Some u" and run: "pair_copy c1 c2 x h = (y, h')"
  obtain y1 h1 where c1: "c1 (fst x) h = (y1, h1)" by fastforce
  obtain y2 h2 where c2: "c2 (snd x) h1 = (y2, h2)" by fastforce
  from run c1 c2 have y: "y = (y1, y2)" and h': "h' = h2" by (simp_all add: pair_copy_def)
  from u have u1: "v1 h (fst x) = Some (fst u)" and u2: "v2 h (snd x) = Some (snd u)"
    by (simp_all add: pair_view_Some)
  from deep_copier.copied [OF assms(1) wf u1 c1] have s1: "wf_heap h1" "heap_extends h h1"
    "v1 h1 y1 = Some (fst u)" "r1 h1 y1 \<subseteq> {h_lim h..<h_lim h1}" by simp_all
  from deep_copier.copied [OF assms(2) s1(1) deep_copier.extends_view(1) [OF assms(2) wf u2 s1(2)] c2]
  have s2: "wf_heap h2" "heap_extends h1 h2" "v2 h2 y2 = Some (snd u)" "r2 h2 y2 \<subseteq> {h_lim h1..<h_lim h2}" by simp_all
  note keep = deep_copier.extends_view [OF assms(1) s1(1,3) s2(2)]
  have "r1 h2 y1 \<union> r2 h2 y2 \<subseteq> {h_lim h..<h_lim h2}"
    using range_mono [OF s1(4) order_refl extends_lim [OF s2(2)]]
      range_mono [OF s2(4) extends_lim [OF s1(2)] order_refl] unfolding keep(2) by (rule Un_least)
  then show "wf_heap h' \<and> heap_extends h h' \<and> pair_view v1 v2 h' y = Some u \<and> pair_reach r1 r2 h' y \<subseteq> {h_lim h..<h_lim h'}"
    using s2 extends_trans [OF s1(2) s2(2)] keep(1) unfolding y h'
    by (simp add: pair_view_Some pair_reach_def)
qed

text \<open>A struct is copied like the tuple of its fields.\<close>

lemma struct_copier:
  assumes "deep_copier view reach copy" and "\<And>y. flat (mk y) = y"
    and "\<And>x h. copy' x h = (case copy (flat x) h of (y, h') \<Rightarrow> (mk y, h'))"
  shows "deep_copier (\<lambda>h x. view h (flat x)) (\<lambda>h x. reach h (flat x)) copy'"
proof
  fix h h' x v y
  show "view h' (flat x) = Some v \<and> reach h' (flat x) = reach h (flat x)"
    if "view h (flat x) = Some v" and "\<forall>a \<in> reach h (flat x). h_cells h' a = h_cells h a"
    using deep_copier.frame [OF assms(1) that] .
  show "reach h (flat x) \<subseteq> {..<h_lim h}" if "wf_heap h" and "view h (flat x) = Some v"
    using deep_copier.allocated [OF assms(1) that] .
  assume wf: "wf_heap h" and v: "view h (flat x) = Some v" and run: "copy' x h = (y, h')"
  obtain z h1 where c: "copy (flat x) h = (z, h1)" by fastforce
  with run assms(2,3) have "flat y = z" "h' = h1" by auto
  with deep_copier.copied [OF assms(1) wf v c]
  show "wf_heap h' \<and> heap_extends h h' \<and> view h' (flat y) = Some v \<and> reach h' (flat y) \<subseteq> {h_lim h..<h_lim h'}" by simp
qed

section \<open>Pointers\<close>

definition ptr_view :: "('c \<Rightarrow> 'e option) \<Rightarrow> ('c heap \<Rightarrow> 'e \<Rightarrow> 'v option) \<Rightarrow> 'c heap \<Rightarrow> nat option \<Rightarrow> 'v option option" where
  "ptr_view get v h p = (case p of None \<Rightarrow> Some None
     | Some a \<Rightarrow> map_option Some (Option.bind (Option.bind (h_cells h a) get) (v h)))"

definition ptr_reach :: "('c \<Rightarrow> 'e option) \<Rightarrow> ('c heap \<Rightarrow> 'e \<Rightarrow> nat set) \<Rightarrow> 'c heap \<Rightarrow> nat option \<Rightarrow> nat set" where
  "ptr_reach get r h p = (case p of None \<Rightarrow> {}
     | Some a \<Rightarrow> insert a (case Option.bind (h_cells h a) get of None \<Rightarrow> {} | Some e \<Rightarrow> r h e))"

text \<open>\<^verbatim>\<open>if *in != nil { *out = new(T); (*in).DeepCopyInto(*out) }\<close>\<close>

definition copy_ptr :: "('c \<Rightarrow> 'e option) \<Rightarrow> ('e \<Rightarrow> 'c) \<Rightarrow> 'e \<Rightarrow> ('e \<Rightarrow> 'c heap \<Rightarrow> 'e \<times> 'c heap)
    \<Rightarrow> nat option \<Rightarrow> 'c heap \<Rightarrow> nat option \<times> 'c heap" where
  "copy_ptr get put zero cp p h = (case p of None \<Rightarrow> (None, h)
     | Some a \<Rightarrow> (case Option.bind (h_cells h a) get of None \<Rightarrow> (None, h)
        | Some e \<Rightarrow>
            let (b, h1) = new_cell (put zero) h;
                (e', h2) = cp e h1
            in (Some b, put_cell b (put e') h2)))"

lemma ptr_view_Some: "ptr_view get v h p = Some u \<longleftrightarrow> (case p of None \<Rightarrow> u = None
    | Some a \<Rightarrow> \<exists>c e w. h_cells h a = Some c \<and> get c = Some e \<and> v h e = Some w \<and> u = Some w)"
  by (auto simp: ptr_view_def bind_eq_Some_conv split: option.split)

lemma wf_alloc: "wf_heap h \<Longrightarrow> new_cell c h = (a, h') \<Longrightarrow> wf_heap h' \<and> heap_extends h h'"
  by (auto simp: alloc_simps wf_heap_def heap_extends_def)

lemma ptr_copier:
  assumes elem: "deep_copier v r cp" and prism: "\<And>e. get (put e) = Some e"
  shows "deep_copier (ptr_view get v) (ptr_reach get r) (copy_ptr get put zero cp)"
proof
  fix h h' p u q
  show "ptr_view get v h' p = Some u \<and> ptr_reach get r h' p = ptr_reach get r h p"
    if "ptr_view get v h p = Some u" and "\<forall>a \<in> ptr_reach get r h p. h_cells h' a = h_cells h a"
  proof (cases p)
    case (Some a)
    with that obtain c e w where e: "h_cells h a = Some c" "get c = Some e" "v h e = Some w" "u = Some w"
      by (auto simp: ptr_view_Some)
    with that Some have "h_cells h' a = Some c" "\<forall>k \<in> r h e. h_cells h' k = h_cells h k"
      by (auto simp: ptr_reach_def)
    with deep_copier.frame [OF elem e(3) this(2)] e Some show ?thesis
      by (simp add: ptr_view_Some ptr_reach_def)
  qed (use that in \<open>simp_all add: ptr_view_Some ptr_reach_def\<close>)
  show "ptr_reach get r h p \<subseteq> {..<h_lim h}" if "wf_heap h" and "ptr_view get v h p = Some u"
  proof (cases p)
    case (Some a)
    with that obtain c e w where "h_cells h a = Some c" "get c = Some e" "v h e = Some w"
      by (auto simp: ptr_view_Some)
    then show ?thesis
      using deep_copier.allocated [OF elem that(1)] wf_below [OF that(1)] Some by (auto simp: ptr_reach_def)
  qed (simp add: ptr_reach_def)
  assume wf: "wf_heap h" and u: "ptr_view get v h p = Some u" and run: "copy_ptr get put zero cp p h = (q, h')"
  show "wf_heap h' \<and> heap_extends h h' \<and> ptr_view get v h' q = Some u \<and> ptr_reach get r h' q \<subseteq> {h_lim h..<h_lim h'}"
  proof (cases p)
    case None
    with u run wf show ?thesis by (auto simp: copy_ptr_def ptr_view_Some ptr_reach_def)
  next
    case (Some a)
    with u obtain c e w where e: "h_cells h a = Some c" "get c = Some e" "v h e = Some w" "u = Some w"
      by (auto simp: ptr_view_Some)
    obtain b h1 where b: "new_cell (put zero) h = (b, h1)" by fastforce
    obtain e' h2 where cp: "cp e h1 = (e', h2)" by fastforce
    from run Some e b cp have q: "q = Some b" "h' = put_cell b (put e') h2" by (auto simp: copy_ptr_def)
    from wf_alloc [OF wf b] have s1: "wf_heap h1" "heap_extends h h1" by simp_all
    from deep_copier.copied [OF elem s1(1) deep_copier.extends_view(1) [OF elem wf e(3) s1(2)] cp]
    have s2: "wf_heap h2" "heap_extends h1 h2" "v h2 e' = Some w" "r h2 e' \<subseteq> {h_lim h1..<h_lim h2}" by simp_all
    from b have bl: "b = h_lim h" "h_lim h1 = Suc b" by (auto simp: alloc_simps)
    have below: "b < h_lim h2" using extends_lim [OF s2(2)] bl by simp
    have "\<forall>k \<in> r h2 e'. h_cells h' k = h_cells h2 k" using s2(4) bl q(2) by auto
    from deep_copier.frame [OF elem s2(3) this] have keep: "v h' e' = Some w" "r h' e' = r h2 e'" by simp_all
    have "wf_heap h'" using s2(1) below q(2) by (simp add: wf_heap_def)
    moreover have "heap_extends h h'" using extends_trans [OF s1(2) s2(2)] bl q(2) by (simp add: heap_extends_def)
    moreover have "ptr_view get v h' q = Some u" using q keep prism e(4) by (simp add: ptr_view_Some)
    moreover have "ptr_reach get r h' q \<subseteq> {h_lim h..<h_lim h'}"
      using q keep prism s2(4) bl below by (auto simp: ptr_reach_def)
    ultimately show ?thesis by blast
  qed
qed

section \<open>Slices\<close>

text \<open>A slice is a window into an array.\<close>

record slice =
  sl_addr :: nat
  sl_off :: nat
  sl_len :: nat

definition slice_window :: "('c \<Rightarrow> 'e list option) \<Rightarrow> 'c heap \<Rightarrow> slice \<Rightarrow> 'e list option" where
  "slice_window get h sl = (case Option.bind (h_cells h (sl_addr sl)) get of None \<Rightarrow> None
     | Some xs \<Rightarrow> if sl_off sl + sl_len sl \<le> length xs then Some (take (sl_len sl) (drop (sl_off sl) xs)) else None)"

definition slice_view :: "('c \<Rightarrow> 'e list option) \<Rightarrow> ('c heap \<Rightarrow> 'e \<Rightarrow> 'v option) \<Rightarrow> 'c heap \<Rightarrow> slice option
    \<Rightarrow> 'v list option option" where
  "slice_view get v h p = (case p of None \<Rightarrow> Some None
     | Some sl \<Rightarrow> (case slice_window get h sl of None \<Rightarrow> None | Some xs \<Rightarrow> map_option Some (those (map (v h) xs))))"

definition slice_reach :: "('c \<Rightarrow> 'e list option) \<Rightarrow> ('c heap \<Rightarrow> 'e \<Rightarrow> nat set) \<Rightarrow> 'c heap \<Rightarrow> slice option
    \<Rightarrow> nat set" where
  "slice_reach get r h p = (case p of None \<Rightarrow> {}
     | Some sl \<Rightarrow> insert (sl_addr sl) (case slice_window get h sl of None \<Rightarrow> {} | Some xs \<Rightarrow> \<Union> (r h ` set xs)))"

text \<open>\<^verbatim>\<open>(*out)[i] = y\<close> for the array at \<open>a\<close>, and the loop over the elements of the source.\<close>

definition store_elem :: "('c \<Rightarrow> 'e list option) \<Rightarrow> ('e list \<Rightarrow> 'c) \<Rightarrow> nat \<Rightarrow> nat \<Rightarrow> 'e \<Rightarrow> 'c heap \<Rightarrow> 'c heap" where
  "store_elem get put a i y h = (case Option.bind (h_cells h a) get of None \<Rightarrow> h
     | Some ys \<Rightarrow> put_cell a (put (ys[i := y])) h)"

primrec copy_elems :: "('c \<Rightarrow> 'e list option) \<Rightarrow> ('e list \<Rightarrow> 'c) \<Rightarrow> ('e \<Rightarrow> 'c heap \<Rightarrow> 'e \<times> 'c heap) \<Rightarrow> nat \<Rightarrow> nat
    \<Rightarrow> 'e list \<Rightarrow> 'c heap \<Rightarrow> 'c heap" where
  "copy_elems get put cp a i [] h = h"
| "copy_elems get put cp a i (x # xs) h =
     (let (y, h1) = cp x h in copy_elems get put cp a (Suc i) xs (store_elem get put a i y h1))"

text \<open>\<^verbatim>\<open>if *in != nil { *out = make([]T, len(*in)); for i := range *in { (*in)[i].DeepCopyInto(&(*out)[i]) } }\<close>\<close>

definition copy_slice :: "('c \<Rightarrow> 'e list option) \<Rightarrow> ('e list \<Rightarrow> 'c) \<Rightarrow> 'e \<Rightarrow> ('e \<Rightarrow> 'c heap \<Rightarrow> 'e \<times> 'c heap)
    \<Rightarrow> slice option \<Rightarrow> 'c heap \<Rightarrow> slice option \<times> 'c heap" where
  "copy_slice get put zero cp p h = (case p of None \<Rightarrow> (None, h)
     | Some sl \<Rightarrow> (case slice_window get h sl of None \<Rightarrow> (None, h)
        | Some xs \<Rightarrow>
            let (a, h1) = new_cell (put (replicate (sl_len sl) zero)) h
            in (Some \<lparr>sl_addr = a, sl_off = 0, sl_len = sl_len sl\<rparr>, copy_elems get put cp a 0 xs h1)))"

lemma those_Some: "those (map f xs) = Some vs \<longleftrightarrow> list_all2 (\<lambda>x w. f x = Some w) xs vs"
proof (induction xs arbitrary: vs)
  case (Cons x xs)
  then show ?case by (cases vs) (auto split: option.splits)
qed (auto split: option.splits)

lemma slice_view_Some: "slice_view get v h p = Some u \<longleftrightarrow> (case p of None \<Rightarrow> u = None
    | Some sl \<Rightarrow> \<exists>xs vs. slice_window get h sl = Some xs \<and> u = Some vs \<and> list_all2 (\<lambda>x w. v h x = Some w) xs vs)"
  by (auto simp: slice_view_def those_Some [symmetric] split: option.split)

lemma window_Some: "slice_window get h sl = Some xs \<Longrightarrow> \<exists>c. h_cells h (sl_addr sl) = Some c"
  by (auto simp: slice_window_def split: option.splits bind_splits)

lemma window_same: "h_cells h' (sl_addr sl) = h_cells h (sl_addr sl) \<Longrightarrow> slice_window get h' sl = slice_window get h sl"
  by (simp add: slice_window_def)

lemma list_all2_left: "list_all2 P xs ys \<Longrightarrow> x \<in> set xs \<Longrightarrow> \<exists>y. P x y"
  by (auto simp: list_all2_conv_all_nth in_set_conv_nth)

context deep_copier
begin

lemma frame_all:
  assumes "list_all2 (\<lambda>x w. view h x = Some w) xs vs" and "\<forall>a \<in> \<Union> (reach h ` set xs). h_cells h' a = h_cells h a"
  shows "list_all2 (\<lambda>x w. view h' x = Some w) xs vs" and "\<Union> (reach h' ` set xs) = \<Union> (reach h ` set xs)"
proof -
  have same: "view h' x = Some w \<and> reach h' x = reach h x" if "x \<in> set xs" "view h x = Some w" for x w
    by (rule frame [OF that(2)]) (use assms(2) that(1) in blast)
  show "list_all2 (\<lambda>x w. view h' x = Some w) xs vs"
    using assms(1) by (rule list.rel_mono_strong) (use same in blast)
  have "reach h' x = reach h x" if "x \<in> set xs" for x
    using same [OF that] list_all2_left [OF assms(1) that] by blast
  then show "\<Union> (reach h' ` set xs) = \<Union> (reach h ` set xs)" by simp
qed

lemma allocated_all:
  assumes "wf_heap h" and "list_all2 (\<lambda>x w. view h x = Some w) xs vs"
  shows "\<Union> (reach h ` set xs) \<subseteq> {..<h_lim h}"
proof (rule UN_least)
  fix x
  assume "x \<in> set xs"
  from list_all2_left [OF assms(2) this] obtain w where "view h x = Some w" ..
  from allocated [OF assms(1) this] show "reach h x \<subseteq> {..<h_lim h}" .
qed

text \<open>Writing a cell that a value does not refer to, after allocations.\<close>

lemma survives:
  assumes "wf_heap h" and "view h x = Some w" and "heap_extends h h1" and "a \<notin> reach h x"
  shows "view (put_cell a c h1) x = Some w" and "reach (put_cell a c h1) x = reach h x"
proof -
  note x = extends_view [OF assms(1-3)]
  have "\<forall>k \<in> reach h1 x. h_cells (put_cell a c h1) k = h_cells h1 k" using assms(4) x(2) by auto
  from frame [OF x(1) this] x(2) show "view (put_cell a c h1) x = Some w" "reach (put_cell a c h1) x = reach h x"
    by simp_all
qed

lemma copy_elems_spec:
  assumes prism: "\<And>es. get (put es) = Some es"
    and "wf_heap h" and "a < h_lim h" and "h_cells h a = Some (put (ys @ zs))" and "length zs = length xs"
    and "list_all2 (\<lambda>x w. view h x = Some w \<and> a \<notin> reach h x) xs ws"
    and "list_all2 (\<lambda>y w. view h y = Some w \<and> reach h y \<subseteq> {Suc a..<h_lim h}) ys us"
    and "copy_elems get put copy a (length ys) xs h = h'"
  shows "wf_heap h' \<and> h_lim h \<le> h_lim h' \<and> (\<forall>k < h_lim h. k \<noteq> a \<longrightarrow> h_cells h' k = h_cells h k)
    \<and> (\<exists>es. h_cells h' a = Some (put es)
          \<and> list_all2 (\<lambda>y w. view h' y = Some w \<and> reach h' y \<subseteq> {Suc a..<h_lim h'}) es (us @ ws))"
  using assms(2-)
proof (induction xs arbitrary: ys zs us ws h)
  case Nil
  then show ?case by auto
next
  case (Cons x xs)
  from Cons.prems(5) obtain w ws' where ws: "ws = w # ws'" and x: "view h x = Some w" "a \<notin> reach h x"
    and rest: "list_all2 (\<lambda>x w. view h x = Some w \<and> a \<notin> reach h x) xs ws'" by (auto simp: list_all2_Cons1)
  from Cons.prems(4) obtain z zs' where zs: "zs = z # zs'" "length zs' = length xs" by (cases zs) auto
  obtain y h1 where y: "copy x h = (y, h1)" by fastforce
  from copied [OF Cons.prems(1) x(1) y] have s: "wf_heap h1" "heap_extends h h1" "view h1 y = Some w"
    "reach h1 y \<subseteq> {h_lim h..<h_lim h1}" by simp_all
  let ?h2 = "put_cell a (put ((ys @ [y]) @ zs')) h1"
  have "h_cells h1 a = Some (put (ys @ zs))" using s(2) Cons.prems(2,3) by (simp add: heap_extends_def)
  then have step: "store_elem get put a (length ys) y h1 = ?h2"
    by (simp add: store_elem_def prism zs(1))
  have h_lim: "h_lim h \<le> h_lim h1" using extends_lim [OF s(2)] .
  have "wf_heap ?h2" using s(1) Cons.prems(2) h_lim by (simp add: wf_heap_def)
  moreover have "a < h_lim ?h2" using Cons.prems(2) h_lim by simp
  moreover have "list_all2 (\<lambda>x w. view ?h2 x = Some w \<and> a \<notin> reach ?h2 x) xs ws'"
    using rest by (rule list.rel_mono_strong) (use survives [OF Cons.prems(1) _ s(2)] in auto)
  moreover have "list_all2 (\<lambda>y w. view ?h2 y = Some w \<and> reach ?h2 y \<subseteq> {Suc a..<h_lim ?h2}) (ys @ [y]) (us @ [w])"
  proof (rule list_all2_appendI)
    show "list_all2 (\<lambda>y w. view ?h2 y = Some w \<and> reach ?h2 y \<subseteq> {Suc a..<h_lim ?h2}) ys us"
      using Cons.prems(6)
    proof (rule list.rel_mono_strong)
      fix y' w'
      assume y': "view h y' = Some w' \<and> reach h y' \<subseteq> {Suc a..<h_lim h}"
      then have "a \<notin> reach h y'" by auto
      note kept = survives [OF Cons.prems(1) conjunct1 [OF y'] s(2) this]
      from range_mono [OF conjunct2 [OF y'] order_refl h_lim] kept
      show "view ?h2 y' = Some w' \<and> reach ?h2 y' \<subseteq> {Suc a..<h_lim ?h2}" by simp
    qed
    have "a \<notin> reach h1 y" using s(4) Cons.prems(2) by auto
    note kept = survives [OF s(1,3) extends_refl this]
    from range_mono [OF s(4), of "Suc a" "h_lim h1"] Cons.prems(2) kept
    show "list_all2 (\<lambda>y w. view ?h2 y = Some w \<and> reach ?h2 y \<subseteq> {Suc a..<h_lim ?h2}) [y] [w]" by simp
  qed
  moreover have "copy_elems get put copy a (length (ys @ [y])) xs ?h2 = h'"
    using Cons.prems(7) y step by simp
  ultimately have "wf_heap h' \<and> h_lim ?h2 \<le> h_lim h' \<and> (\<forall>k < h_lim ?h2. k \<noteq> a \<longrightarrow> h_cells h' k = h_cells ?h2 k)
    \<and> (\<exists>es. h_cells h' a = Some (put es)
          \<and> list_all2 (\<lambda>y w. view h' y = Some w \<and> reach h' y \<subseteq> {Suc a..<h_lim h'}) es ((us @ [w]) @ ws'))"
    using zs(2) by (intro Cons.IH [of ?h2 "ys @ [y]" zs' ws' "us @ [w]"]) simp_all
  with s(2) h_lim ws show ?case by (auto simp: heap_extends_def)
qed

end

lemma slice_copier:
  assumes elem: "deep_copier v r cp" and prism: "\<And>es. get (put es) = Some es"
  shows "deep_copier (slice_view get v) (slice_reach get r) (copy_slice get put zero cp)"
proof
  fix h h' p u q
  show "slice_view get v h' p = Some u \<and> slice_reach get r h' p = slice_reach get r h p"
    if u: "slice_view get v h p = Some u" and same: "\<forall>a \<in> slice_reach get r h p. h_cells h' a = h_cells h a"
  proof (cases p)
    case (Some sl)
    with u obtain xs vs where xs: "slice_window get h sl = Some xs" "u = Some vs"
      "list_all2 (\<lambda>x w. v h x = Some w) xs vs" by (auto simp: slice_view_Some)
    from same Some xs have "h_cells h' (sl_addr sl) = h_cells h (sl_addr sl)"
      and "\<forall>a \<in> \<Union> (r h ` set xs). h_cells h' a = h_cells h a" by (auto simp: slice_reach_def)
    with window_same [of h' sl h get] deep_copier.frame_all [OF elem xs(3) this(2)] xs Some show ?thesis
      by (simp add: slice_view_Some slice_reach_def)
  qed (use u in \<open>simp_all add: slice_view_Some slice_reach_def\<close>)
  show "slice_reach get r h p \<subseteq> {..<h_lim h}" if wf: "wf_heap h" and u: "slice_view get v h p = Some u"
  proof (cases p)
    case (Some sl)
    with u obtain xs vs where xs: "slice_window get h sl = Some xs" "list_all2 (\<lambda>x w. v h x = Some w) xs vs"
      by (auto simp: slice_view_Some)
    from window_Some [OF xs(1)] wf_below [OF wf] have "sl_addr sl < h_lim h" by blast
    with deep_copier.allocated_all [OF elem wf xs(2)] xs(1) Some show ?thesis by (simp add: slice_reach_def)
  qed (simp add: slice_reach_def)
  assume wf: "wf_heap h" and u: "slice_view get v h p = Some u" and run: "copy_slice get put zero cp p h = (q, h')"
  show "wf_heap h' \<and> heap_extends h h' \<and> slice_view get v h' q = Some u \<and> slice_reach get r h' q \<subseteq> {h_lim h..<h_lim h'}"
  proof (cases p)
    case None
    with u run wf show ?thesis by (auto simp: copy_slice_def slice_view_Some slice_reach_def)
  next
    case (Some sl)
    with u obtain xs vs where xs: "slice_window get h sl = Some xs" "u = Some vs"
      "list_all2 (\<lambda>x w. v h x = Some w) xs vs" by (auto simp: slice_view_Some)
    have len: "length xs = sl_len sl"
      using xs(1) by (auto simp: slice_window_def split: option.splits if_splits)
    let ?cell = "put (replicate (sl_len sl) zero)"
    obtain a h1 where a: "new_cell ?cell h = (a, h1)" by fastforce
    from wf_alloc [OF wf a] have s: "wf_heap h1" "heap_extends h h1" by simp_all
    from a have al: "a = h_lim h" "h_lim h1 = Suc (h_lim h)" "h_cells h1 a = Some ?cell" by (auto simp: alloc_simps)
    from run Some xs(1) a have q: "q = Some \<lparr>sl_addr = a, sl_off = 0, sl_len = sl_len sl\<rparr>"
      "copy_elems get put cp a 0 xs h1 = h'" by (auto simp: copy_slice_def)
    have "list_all2 (\<lambda>x w. v h1 x = Some w \<and> a \<notin> r h1 x) xs vs"
      using xs(3)
    proof (rule list.rel_mono_strong)
      fix x w
      assume "v h x = Some w"
      from deep_copier.extends_view [OF elem wf this s(2)] deep_copier.allocated [OF elem wf this] al(1)
      show "v h1 x = Some w \<and> a \<notin> r h1 x" by auto
    qed
    from deep_copier.copy_elems_spec [OF elem prism s(1) _ _ _ this, of "[]" "replicate (sl_len sl) zero" "[]" h']
      al len q(2)
    obtain es where h': "wf_heap h'" "h_lim h1 \<le> h_lim h'" "\<forall>k < h_lim h1. k \<noteq> a \<longrightarrow> h_cells h' k = h_cells h1 k"
      "h_cells h' a = Some (put es)"
      and es: "list_all2 (\<lambda>y w. v h' y = Some w \<and> r h' y \<subseteq> {Suc a..<h_lim h'}) es vs" by auto
    have win: "slice_window get h' \<lparr>sl_addr = a, sl_off = 0, sl_len = sl_len sl\<rparr> = Some es"
      using h'(4) prism len list_all2_lengthD [OF es] list_all2_lengthD [OF xs(3)] by (simp add: slice_window_def)
    have "list_all2 (\<lambda>y w. v h' y = Some w) es vs"
      using es by (rule list.rel_mono_strong) simp
    then have "slice_view get v h' q = Some u" using q(1) win xs(2) by (auto simp: slice_view_Some)
    moreover have "r h' y \<subseteq> {Suc a..<h_lim h'}" if "y \<in> set es" for y
      using list_all2_left [OF es that] by blast
    then have "slice_reach get r h' q \<subseteq> {h_lim h..<h_lim h'}"
      using q(1) win al h'(2) by (force simp: slice_reach_def)
    moreover have "heap_extends h h'" using s(2) h'(2,3) al by (auto simp: heap_extends_def)
    ultimately show ?thesis using h'(1) by blast
  qed
qed

section \<open>Maps\<close>

text \<open>A map is kept as its list of entries; the order is the one in which it is ranged over.\<close>

definition map_view :: "('c \<Rightarrow> ('k \<times> 'v) list option) \<Rightarrow> 'c heap \<Rightarrow> nat option \<Rightarrow> ('k \<Rightarrow> 'v option) option option" where
  "map_view get h p = (case p of None \<Rightarrow> Some None
     | Some a \<Rightarrow> (case Option.bind (h_cells h a) get of None \<Rightarrow> None
        | Some es \<Rightarrow> if distinct (map fst es) then Some (Some (map_of es)) else None))"

definition map_reach :: "'c heap \<Rightarrow> nat option \<Rightarrow> nat set" where
  "map_reach h p = set_option p"

text \<open>\<^verbatim>\<open>for key, val := range *in { (*out)[key] = val }\<close>, with the contents of the new map so far.\<close>

primrec copy_entries :: "(('k \<times> 'v) list \<Rightarrow> 'c) \<Rightarrow> nat \<Rightarrow> ('k \<times> 'v) list \<Rightarrow> ('k \<times> 'v) list \<Rightarrow> 'c heap \<Rightarrow> 'c heap" where
  "copy_entries put a [] m h = h"
| "copy_entries put a (e # es) m h =
     (let m' = AList.update (fst e) (snd e) m in copy_entries put a es m' (put_cell a (put m') h))"

definition copy_map :: "('c \<Rightarrow> ('k \<times> 'v) list option) \<Rightarrow> (('k \<times> 'v) list \<Rightarrow> 'c) \<Rightarrow> nat option \<Rightarrow> 'c heap
    \<Rightarrow> nat option \<times> 'c heap" where
  "copy_map get put p h = (case p of None \<Rightarrow> (None, h)
     | Some a \<Rightarrow> (case Option.bind (h_cells h a) get of None \<Rightarrow> (None, h)
        | Some es \<Rightarrow> let (b, h1) = new_cell (put []) h in (Some b, copy_entries put b es [] h1)))"

lemma copy_entries_spec:
  assumes "h_cells h a = Some (put m)" and "distinct (map fst m)"
  shows "h_lim (copy_entries put a es m h) = h_lim h
    \<and> (\<forall>k. k \<noteq> a \<longrightarrow> h_cells (copy_entries put a es m h) k = h_cells h k)
    \<and> (\<exists>m'. h_cells (copy_entries put a es m h) a = Some (put m') \<and> distinct (map fst m')
          \<and> map_of m' = map_of m ++ map_of (rev es))"
  using assms
proof (induction es arbitrary: m h)
  case (Cons e es)
  let ?m = "AList.update (fst e) (snd e) m" and ?h = "put_cell a (put (AList.update (fst e) (snd e) m)) h"
  have "distinct (map fst ?m)" using Cons.prems(2) by (rule distinct_update)
  moreover have "map_of ?m ++ map_of (rev es) = map_of m ++ map_of (rev (e # es))"
    by (cases e) (simp add: update_conv' map_add_def fun_eq_iff split: option.split)
  ultimately show ?case using Cons.IH [of ?h ?m] by (simp add: Let_def)
qed auto

lemma map_copier:
  assumes prism: "\<And>es. get (put es) = Some es"
  shows "deep_copier (map_view get) map_reach (copy_map get put)"
proof
  fix h h' p u q
  show "map_view get h' p = Some u \<and> map_reach h' p = map_reach h p"
    if "map_view get h p = Some u" and "\<forall>a \<in> map_reach h p. h_cells h' a = h_cells h a"
    using that by (auto simp: map_view_def map_reach_def split: option.splits)
  show "map_reach h p \<subseteq> {..<h_lim h}" if "wf_heap h" and "map_view get h p = Some u"
    using that wf_below [of h] by (cases p) (auto simp: map_view_def map_reach_def split: option.splits bind_splits)
  assume wf: "wf_heap h" and u: "map_view get h p = Some u" and run: "copy_map get put p h = (q, h')"
  show "wf_heap h' \<and> heap_extends h h' \<and> map_view get h' q = Some u \<and> map_reach h' q \<subseteq> {h_lim h..<h_lim h'}"
  proof (cases p)
    case None
    with u run wf show ?thesis by (auto simp: copy_map_def map_view_def map_reach_def)
  next
    case (Some a)
    with u obtain es where es: "Option.bind (h_cells h a) get = Some es" "distinct (map fst es)" "u = Some (map_of es)"
      by (auto simp: map_view_def split: option.splits if_splits)
    obtain b h1 where b: "new_cell (put []) h = (b, h1)" by fastforce
    from run Some es(1) b have q: "q = Some b" "h' = copy_entries put b es [] h1" by (auto simp: copy_map_def)
    from b have bl: "b = h_lim h" "h_lim h1 = Suc (h_lim h)" "h_cells h1 b = Some (put [])" by (auto simp: alloc_simps)
    from copy_entries_spec [of h1 b put "[]" es] bl(3) q(2) obtain m' where m': "h_lim h' = h_lim h1"
      "\<forall>k. k \<noteq> b \<longrightarrow> h_cells h' k = h_cells h1 k" "h_cells h' b = Some (put m')" "distinct (map fst m')"
      "map_of m' = map_of (rev es)" by auto
    from wf_alloc [OF wf b] have "wf_heap h1" "heap_extends h h1" by simp_all
    with m' bl have "wf_heap h'" "heap_extends h h'" by (auto simp: wf_heap_def heap_extends_def)
    moreover have "map_of (rev es) = map_of es" using es(2) by (simp add: map_of_inject_set rev_map [symmetric])
    ultimately show ?thesis using q(1) m' bl es(3) prism by (auto simp: map_view_def map_reach_def)
  qed
qed

end
