(* ===== verification/Deep_Copy.thy ===== *)
theory Deep_Copy
  imports Go_Heap Go_Prelude
begin

text \<open>
  The generated copying functions, \<^verbatim>\<open>src/api/v1alpha1/zz_generated.deepcopy.go\<close>, over an explicit
  heap.  In the rest of the development objects are values; here the structs hold the addresses
  that their Go counterparts hold: slices, maps and pointers.  The structs of the Kubernetes API
  (\<^verbatim>\<open>ObjectMeta\<close>, \<^verbatim>\<open>EnvVar\<close>, \<^verbatim>\<open>Toleration\<close> and so on) come from other packages; they are a type \<open>'x\<close>
  with a copying function as parameter, for which the contract \<open>deep_copier\<close> is assumed.

  Each function takes the value that \<^verbatim>\<open>in\<close> points to and returns the value of \<^verbatim>\<open>*out\<close>; a field that is
  not copied separately is the one of the assignment \<^verbatim>\<open>*out = *in\<close>.
\<close>

section \<open>Structs with references\<close>

record 'x CacheVolumeTemplate_ref =
  cr_Name :: string
  cr_MountPath :: string
  cr_StorageClassName :: "nat option"
  cr_Size :: 'x

record 'x AgentPoolSpec_ref =
  sr_OrganizationURL :: string
  sr_TokenSecretRef :: 'x
  sr_PoolName :: string
  sr_AgentImage :: string
  sr_MinAgents :: int32
  sr_MaxAgents :: int32
  sr_AgentResources :: 'x
  sr_ExtraEnv :: "slice option"
  sr_CacheVolumes :: "slice option"
  sr_NodeSelector :: "nat option"
  sr_Tolerations :: "slice option"
  sr_Affinity :: "nat option"
  sr_ImagePullSecrets :: "slice option"
  sr_ServiceAccountName :: string
  sr_PodAnnotations :: "nat option"
  sr_PodLabels :: "nat option"
  sr_PodSecurityContext :: "nat option"
  sr_InitContainers :: "slice option"

record AgentPoolStatus_ref =
  tr_Conditions :: "slice option"
  tr_ActiveAgents :: "nat option"
  tr_PendingJobs :: "nat option"
  tr_PoolID :: int32
  tr_DummyAgentID :: int32

record 'x AgentPool_ref =
  ar_TypeMeta :: "string \<times> string"
  ar_ObjectMeta :: 'x
  ar_Spec :: "'x AgentPoolSpec_ref"
  ar_Status :: AgentPoolStatus_ref

record 'x AgentPoolList_ref =
  lr_TypeMeta :: "string \<times> string"
  lr_ListMeta :: 'x
  lr_Items :: "slice option"

text \<open>What a cell can hold: an API struct or an array of them, the other arrays, maps and scalars.\<close>

datatype 'x cell =
    ApiCell 'x
  | ApiArray "'x list"
  | CacheCell "'x CacheVolumeTemplate_ref"
  | CacheArray "'x CacheVolumeTemplate_ref list"
  | RefArray "string list"
  | MapCell "(string \<times> string) list"
  | StringCell string
  | Int32Cell int32
  | SpecCell "'x AgentPoolSpec_ref"
  | StatusCell AgentPoolStatus_ref
  | PoolCell "'x AgentPool_ref"
  | PoolArray "'x AgentPool_ref list"
  | ListCell "'x AgentPoolList_ref"

fun get_api where "get_api (ApiCell x) = Some x" | "get_api _ = None"
fun get_apis where "get_apis (ApiArray xs) = Some xs" | "get_apis _ = None"
fun get_cache where "get_cache (CacheCell x) = Some x" | "get_cache _ = None"
fun get_caches where "get_caches (CacheArray xs) = Some xs" | "get_caches _ = None"
fun get_refs where "get_refs (RefArray xs) = Some xs" | "get_refs _ = None"
fun get_map where "get_map (MapCell es) = Some es" | "get_map _ = None"
fun get_string where "get_string (StringCell s) = Some s" | "get_string _ = None"
fun get_int32 where "get_int32 (Int32Cell i) = Some i" | "get_int32 _ = None"
fun get_spec where "get_spec (SpecCell s) = Some s" | "get_spec _ = None"
fun get_status where "get_status (StatusCell s) = Some s" | "get_status _ = None"
fun get_pool where "get_pool (PoolCell p) = Some p" | "get_pool _ = None"
fun get_pools where "get_pools (PoolArray ps) = Some ps" | "get_pools _ = None"
fun get_list where "get_list (ListCell l) = Some l" | "get_list _ = None"

type_synonym 'x api_copy = "'x \<Rightarrow> 'x cell heap \<Rightarrow> 'x \<times> 'x cell heap"

text \<open>The zero values of the structs, given the zero value of an API struct.\<close>

definition zero_cache :: "'x \<Rightarrow> 'x CacheVolumeTemplate_ref" where
  "zero_cache z = \<lparr>cr_Name = [], cr_MountPath = [], cr_StorageClassName = None, cr_Size = z\<rparr>"

definition zero_spec :: "'x \<Rightarrow> 'x AgentPoolSpec_ref" where
  "zero_spec z =
     \<lparr>sr_OrganizationURL = [], sr_TokenSecretRef = z, sr_PoolName = [], sr_AgentImage = [],
      sr_MinAgents = 0, sr_MaxAgents = 0, sr_AgentResources = z, sr_ExtraEnv = None,
      sr_CacheVolumes = None, sr_NodeSelector = None, sr_Tolerations = None, sr_Affinity = None,
      sr_ImagePullSecrets = None, sr_ServiceAccountName = [], sr_PodAnnotations = None,
      sr_PodLabels = None, sr_PodSecurityContext = None, sr_InitContainers = None\<rparr>"

definition zero_status :: AgentPoolStatus_ref where
  "zero_status = \<lparr>tr_Conditions = None, tr_ActiveAgents = None, tr_PendingJobs = None, tr_PoolID = 0,
     tr_DummyAgentID = 0\<rparr>"

definition zero_pool :: "'x \<Rightarrow> 'x AgentPool_ref" where
  "zero_pool z = \<lparr>ar_TypeMeta = ([], []), ar_ObjectMeta = z, ar_Spec = zero_spec z, ar_Status = zero_status\<rparr>"

definition zero_list :: "'x \<Rightarrow> 'x AgentPoolList_ref" where
  "zero_list z = \<lparr>lr_TypeMeta = ([], []), lr_ListMeta = z, lr_Items = None\<rparr>"

section \<open>DeepCopyInto\<close>

definition CacheVolumeTemplate_DeepCopyInto :: "'x api_copy \<Rightarrow> 'x CacheVolumeTemplate_ref \<Rightarrow> 'x cell heap
    \<Rightarrow> 'x CacheVolumeTemplate_ref \<times> 'x cell heap" where
  "CacheVolumeTemplate_DeepCopyInto cx x h =
     (let (p, h) = copy_ptr get_string StringCell [] Pair (cr_StorageClassName x) h;
          (size, h) = cx (cr_Size x) h
      in (x\<lparr>cr_StorageClassName := p, cr_Size := size\<rparr>, h))"

definition AgentPoolSpec_DeepCopyInto :: "'x \<Rightarrow> 'x api_copy \<Rightarrow> 'x AgentPoolSpec_ref \<Rightarrow> 'x cell heap
    \<Rightarrow> 'x AgentPoolSpec_ref \<times> 'x cell heap" where
  "AgentPoolSpec_DeepCopyInto z cx x h =
     (let (token, h) = cx (sr_TokenSecretRef x) h;
          (resources, h) = cx (sr_AgentResources x) h;
          (env, h) = copy_slice get_apis ApiArray z cx (sr_ExtraEnv x) h;
          (caches, h) = copy_slice get_caches CacheArray (zero_cache z) (CacheVolumeTemplate_DeepCopyInto cx)
                          (sr_CacheVolumes x) h;
          (nodes, h) = copy_map get_map MapCell (sr_NodeSelector x) h;
          (tolerations, h) = copy_slice get_apis ApiArray z cx (sr_Tolerations x) h;
          (affinity, h) = copy_ptr get_api ApiCell z cx (sr_Affinity x) h;
          (pullSecrets, h) = copy_slice get_refs RefArray [] Pair (sr_ImagePullSecrets x) h;
          (annotations, h) = copy_map get_map MapCell (sr_PodAnnotations x) h;
          (labels, h) = copy_map get_map MapCell (sr_PodLabels x) h;
          (security, h) = copy_ptr get_api ApiCell z cx (sr_PodSecurityContext x) h;
          (init, h) = copy_slice get_apis ApiArray z cx (sr_InitContainers x) h
      in (x\<lparr>sr_TokenSecretRef := token, sr_AgentResources := resources, sr_ExtraEnv := env,
            sr_CacheVolumes := caches, sr_NodeSelector := nodes, sr_Tolerations := tolerations,
            sr_Affinity := affinity, sr_ImagePullSecrets := pullSecrets,
            sr_PodAnnotations := annotations, sr_PodLabels := labels,
            sr_PodSecurityContext := security, sr_InitContainers := init\<rparr>, h))"

definition AgentPoolStatus_DeepCopyInto :: "'x \<Rightarrow> 'x api_copy \<Rightarrow> AgentPoolStatus_ref \<Rightarrow> 'x cell heap
    \<Rightarrow> AgentPoolStatus_ref \<times> 'x cell heap" where
  "AgentPoolStatus_DeepCopyInto z cx x h =
     (let (conditions, h) = copy_slice get_apis ApiArray z cx (tr_Conditions x) h;
          (active, h) = copy_ptr get_int32 Int32Cell 0 Pair (tr_ActiveAgents x) h;
          (pending, h) = copy_ptr get_int32 Int32Cell 0 Pair (tr_PendingJobs x) h
      in (x\<lparr>tr_Conditions := conditions, tr_ActiveAgents := active, tr_PendingJobs := pending\<rparr>, h))"

definition AgentPool_DeepCopyInto :: "'x \<Rightarrow> 'x api_copy \<Rightarrow> 'x AgentPool_ref \<Rightarrow> 'x cell heap
    \<Rightarrow> 'x AgentPool_ref \<times> 'x cell heap" where
  "AgentPool_DeepCopyInto z cx x h =
     (let (meta, h) = cx (ar_ObjectMeta x) h;
          (spec, h) = AgentPoolSpec_DeepCopyInto z cx (ar_Spec x) h;
          (status, h) = AgentPoolStatus_DeepCopyInto z cx (ar_Status x) h
      in (x\<lparr>ar_TypeMeta := ar_TypeMeta x, ar_ObjectMeta := meta, ar_Spec := spec, ar_Status := status\<rparr>, h))"

definition AgentPoolList_DeepCopyInto :: "'x \<Rightarrow> 'x api_copy \<Rightarrow> 'x AgentPoolList_ref \<Rightarrow> 'x cell heap
    \<Rightarrow> 'x AgentPoolList_ref \<times> 'x cell heap" where
  "AgentPoolList_DeepCopyInto z cx x h =
     (let (meta, h) = cx (lr_ListMeta x) h;
          (items, h) = copy_slice get_pools PoolArray (zero_pool z) (AgentPool_DeepCopyInto z cx) (lr_Items x) h
      in (x\<lparr>lr_TypeMeta := lr_TypeMeta x, lr_ListMeta := meta, lr_Items := items\<rparr>, h))"

section \<open>DeepCopy\<close>

text \<open>\<^verbatim>\<open>nil\<close> for \<^verbatim>\<open>nil\<close>, else a new object that is filled by \<^verbatim>\<open>DeepCopyInto\<close>.\<close>

definition AgentPool_DeepCopy :: "'x \<Rightarrow> 'x api_copy \<Rightarrow> nat option \<Rightarrow> 'x cell heap \<Rightarrow> nat option \<times> 'x cell heap" where
  "AgentPool_DeepCopy z cx = copy_ptr get_pool PoolCell (zero_pool z) (AgentPool_DeepCopyInto z cx)"

definition AgentPoolList_DeepCopy :: "'x \<Rightarrow> 'x api_copy \<Rightarrow> nat option \<Rightarrow> 'x cell heap \<Rightarrow> nat option \<times> 'x cell heap" where
  "AgentPoolList_DeepCopy z cx = copy_ptr get_list ListCell (zero_list z) (AgentPoolList_DeepCopyInto z cx)"

definition AgentPoolSpec_DeepCopy :: "'x \<Rightarrow> 'x api_copy \<Rightarrow> nat option \<Rightarrow> 'x cell heap \<Rightarrow> nat option \<times> 'x cell heap" where
  "AgentPoolSpec_DeepCopy z cx = copy_ptr get_spec SpecCell (zero_spec z) (AgentPoolSpec_DeepCopyInto z cx)"

definition AgentPoolStatus_DeepCopy :: "'x \<Rightarrow> 'x api_copy \<Rightarrow> nat option \<Rightarrow> 'x cell heap \<Rightarrow> nat option \<times> 'x cell heap" where
  "AgentPoolStatus_DeepCopy z cx = copy_ptr get_status StatusCell zero_status (AgentPoolStatus_DeepCopyInto z cx)"

definition CacheVolumeTemplate_DeepCopy :: "'x \<Rightarrow> 'x api_copy \<Rightarrow> nat option \<Rightarrow> 'x cell heap
    \<Rightarrow> nat option \<times> 'x cell heap" where
  "CacheVolumeTemplate_DeepCopy z cx = copy_ptr get_cache CacheCell (zero_cache z) (CacheVolumeTemplate_DeepCopyInto cx)"

text \<open>\<^verbatim>\<open>DeepCopyObject\<close> returns the copy as an interface value, \<^verbatim>\<open>nil\<close> when there is none.\<close>

datatype object_ref = PoolObject nat | PoolListObject nat

definition AgentPool_DeepCopyObject :: "'x \<Rightarrow> 'x api_copy \<Rightarrow> nat option \<Rightarrow> 'x cell heap
    \<Rightarrow> object_ref option \<times> 'x cell heap" where
  "AgentPool_DeepCopyObject z cx p h = (case AgentPool_DeepCopy z cx p h of (c, h') \<Rightarrow>
     (case c of Some a \<Rightarrow> (Some (PoolObject a), h') | None \<Rightarrow> (None, h')))"

definition AgentPoolList_DeepCopyObject :: "'x \<Rightarrow> 'x api_copy \<Rightarrow> nat option \<Rightarrow> 'x cell heap
    \<Rightarrow> object_ref option \<times> 'x cell heap" where
  "AgentPoolList_DeepCopyObject z cx p h = (case AgentPoolList_DeepCopy z cx p h of (c, h') \<Rightarrow>
     (case c of Some a \<Rightarrow> (Some (PoolListObject a), h') | None \<Rightarrow> (None, h')))"

section \<open>Contents and references of the structs\<close>

text \<open>
  The contents of a struct are those of the tuple of its fields, in the order in which they are
  copied, after the plain fields.
\<close>

abbreviation plain_view :: "'c heap \<Rightarrow> 'a \<Rightarrow> 'a option" where "plain_view h x \<equiv> Some x"

abbreviation plain_reach :: "'c heap \<Rightarrow> 'a \<Rightarrow> nat set" where "plain_reach h x \<equiv> {}"

type_synonym ('x, 'v) api_view = "'x cell heap \<Rightarrow> 'x \<Rightarrow> 'v option"
type_synonym 'x api_reach = "'x cell heap \<Rightarrow> 'x \<Rightarrow> nat set"

definition cache_fields where
  "cache_fields x = ((cr_Name x, cr_MountPath x), cr_StorageClassName x, cr_Size x)"

definition cache_view :: "('x, 'v) api_view \<Rightarrow> 'x cell heap \<Rightarrow> 'x CacheVolumeTemplate_ref
    \<Rightarrow> ((string \<times> string) \<times> string option \<times> 'v) option" where
  "cache_view xv h x = pair_view plain_view (pair_view (ptr_view get_string plain_view) xv) h (cache_fields x)"

definition cache_reach :: "'x api_reach \<Rightarrow> 'x cell heap \<Rightarrow> 'x CacheVolumeTemplate_ref \<Rightarrow> nat set" where
  "cache_reach xr h x = pair_reach plain_reach (pair_reach (ptr_reach get_string plain_reach) xr) h (cache_fields x)"

definition spec_fields where
  "spec_fields x = ((sr_OrganizationURL x, sr_PoolName x, sr_AgentImage x, sr_MinAgents x, sr_MaxAgents x,
     sr_ServiceAccountName x), sr_TokenSecretRef x, sr_AgentResources x, sr_ExtraEnv x, sr_CacheVolumes x,
     sr_NodeSelector x, sr_Tolerations x, sr_Affinity x, sr_ImagePullSecrets x, sr_PodAnnotations x,
     sr_PodLabels x, sr_PodSecurityContext x, sr_InitContainers x)"

definition spec_view where
  "spec_view xv h x = pair_view plain_view (pair_view xv (pair_view xv
     (pair_view (slice_view get_apis xv) (pair_view (slice_view get_caches (cache_view xv))
     (pair_view (map_view get_map) (pair_view (slice_view get_apis xv) (pair_view (ptr_view get_api xv)
     (pair_view (slice_view get_refs plain_view) (pair_view (map_view get_map) (pair_view (map_view get_map)
     (pair_view (ptr_view get_api xv) (slice_view get_apis xv)))))))))))) h (spec_fields x)"

definition spec_reach where
  "spec_reach xr h x = pair_reach plain_reach (pair_reach xr (pair_reach xr
     (pair_reach (slice_reach get_apis xr) (pair_reach (slice_reach get_caches (cache_reach xr))
     (pair_reach map_reach (pair_reach (slice_reach get_apis xr) (pair_reach (ptr_reach get_api xr)
     (pair_reach (slice_reach get_refs plain_reach) (pair_reach map_reach (pair_reach map_reach
     (pair_reach (ptr_reach get_api xr) (slice_reach get_apis xr)))))))))))) h (spec_fields x)"

definition status_fields where
  "status_fields x = ((tr_PoolID x, tr_DummyAgentID x), tr_Conditions x, tr_ActiveAgents x, tr_PendingJobs x)"

definition status_view where
  "status_view xv h x = pair_view plain_view (pair_view (slice_view get_apis xv)
     (pair_view (ptr_view get_int32 plain_view) (ptr_view get_int32 plain_view))) h (status_fields x)"

definition status_reach where
  "status_reach xr h x = pair_reach plain_reach (pair_reach (slice_reach get_apis xr)
     (pair_reach (ptr_reach get_int32 plain_reach) (ptr_reach get_int32 plain_reach))) h (status_fields x)"

definition pool_fields where
  "pool_fields x = (ar_TypeMeta x, ar_ObjectMeta x, ar_Spec x, ar_Status x)"

definition pool_view where
  "pool_view xv h x = pair_view plain_view (pair_view xv (pair_view (spec_view xv) (status_view xv))) h (pool_fields x)"

definition pool_reach where
  "pool_reach xr h x = pair_reach plain_reach (pair_reach xr (pair_reach (spec_reach xr) (status_reach xr))) h (pool_fields x)"

definition list_fields where
  "list_fields x = (lr_TypeMeta x, lr_ListMeta x, lr_Items x)"

definition list_view where
  "list_view xv h x = pair_view plain_view (pair_view xv (slice_view get_pools (pool_view xv))) h (list_fields x)"

definition list_reach where
  "list_reach xr h x = pair_reach plain_reach (pair_reach xr (slice_reach get_pools (pool_reach xr))) h (list_fields x)"

section \<open>The generated functions are deep copiers\<close>

locale api_structs = deep_copier xview xreach cx
  for xview :: "'x cell heap \<Rightarrow> 'x \<Rightarrow> 'v option" and xreach :: "'x cell heap \<Rightarrow> 'x \<Rightarrow> nat set"
    and cx :: "'x \<Rightarrow> 'x cell heap \<Rightarrow> 'x \<times> 'x cell heap" +
  fixes z :: 'x

sublocale api_structs \<subseteq> cache: deep_copier "cache_view xview" "cache_reach xreach" "CacheVolumeTemplate_DeepCopyInto cx"
  unfolding cache_view_def [abs_def] cache_reach_def [abs_def]
  by (rule struct_copier [where copy = "pair_copy Pair (pair_copy (copy_ptr get_string StringCell [] Pair) cx)"
        and mk = "\<lambda>((n, m), p, s). \<lparr>cr_Name = n, cr_MountPath = m, cr_StorageClassName = p, cr_Size = s\<rparr>"])
     (auto intro!: pair_copier ptr_copier plain_copier deep_copier_axioms
       simp: cache_fields_def CacheVolumeTemplate_DeepCopyInto_def pair_copy_def split: prod.split)

sublocale api_structs \<subseteq> status: deep_copier "status_view xview" "status_reach xreach" "AgentPoolStatus_DeepCopyInto z cx"
  unfolding status_view_def [abs_def] status_reach_def [abs_def]
  by (rule struct_copier [where copy = "pair_copy Pair (pair_copy (copy_slice get_apis ApiArray z cx)
          (pair_copy (copy_ptr get_int32 Int32Cell 0 Pair) (copy_ptr get_int32 Int32Cell 0 Pair)))"
        and mk = "\<lambda>((i, d), c, a, p). \<lparr>tr_Conditions = c, tr_ActiveAgents = a, tr_PendingJobs = p,
            tr_PoolID = i, tr_DummyAgentID = d\<rparr>"])
     (auto intro!: pair_copier slice_copier ptr_copier plain_copier deep_copier_axioms
       simp: status_fields_def AgentPoolStatus_DeepCopyInto_def pair_copy_def split: prod.split)

sublocale api_structs \<subseteq> spec: deep_copier "spec_view xview" "spec_reach xreach" "AgentPoolSpec_DeepCopyInto z cx"
  unfolding spec_view_def [abs_def] spec_reach_def [abs_def]
  by (rule struct_copier [where copy = "pair_copy Pair (pair_copy cx (pair_copy cx
          (pair_copy (copy_slice get_apis ApiArray z cx)
          (pair_copy (copy_slice get_caches CacheArray (zero_cache z) (CacheVolumeTemplate_DeepCopyInto cx))
          (pair_copy (copy_map get_map MapCell) (pair_copy (copy_slice get_apis ApiArray z cx)
          (pair_copy (copy_ptr get_api ApiCell z cx) (pair_copy (copy_slice get_refs RefArray [] Pair)
          (pair_copy (copy_map get_map MapCell) (pair_copy (copy_map get_map MapCell)
          (pair_copy (copy_ptr get_api ApiCell z cx) (copy_slice get_apis ApiArray z cx))))))))))))"
        and mk = "\<lambda>((u, p, i, mi, ma, sa), tok, res, env, cvs, ns, tol, aff, ips, ann, lbl, psc, ics).
          \<lparr>sr_OrganizationURL = u, sr_TokenSecretRef = tok, sr_PoolName = p, sr_AgentImage = i,
           sr_MinAgents = mi, sr_MaxAgents = ma, sr_AgentResources = res, sr_ExtraEnv = env,
           sr_CacheVolumes = cvs, sr_NodeSelector = ns, sr_Tolerations = tol, sr_Affinity = aff,
           sr_ImagePullSecrets = ips, sr_ServiceAccountName = sa, sr_PodAnnotations = ann,
           sr_PodLabels = lbl, sr_PodSecurityContext = psc, sr_InitContainers = ics\<rparr>"])
     (auto intro!: pair_copier slice_copier ptr_copier map_copier plain_copier deep_copier_axioms
       cache.deep_copier_axioms
       simp: spec_fields_def AgentPoolSpec_DeepCopyInto_def pair_copy_def split: prod.split)

sublocale api_structs \<subseteq> pool: deep_copier "pool_view xview" "pool_reach xreach" "AgentPool_DeepCopyInto z cx"
  unfolding pool_view_def [abs_def] pool_reach_def [abs_def]
  by (rule struct_copier [where copy = "pair_copy Pair (pair_copy cx (pair_copy (AgentPoolSpec_DeepCopyInto z cx)
          (AgentPoolStatus_DeepCopyInto z cx)))"
        and mk = "\<lambda>(ty, om, sp, st). \<lparr>ar_TypeMeta = ty, ar_ObjectMeta = om, ar_Spec = sp, ar_Status = st\<rparr>"])
     (auto intro!: pair_copier plain_copier deep_copier_axioms spec.deep_copier_axioms status.deep_copier_axioms
       simp: pool_fields_def AgentPool_DeepCopyInto_def pair_copy_def split: prod.split)

sublocale api_structs \<subseteq> pools: deep_copier "list_view xview" "list_reach xreach" "AgentPoolList_DeepCopyInto z cx"
  unfolding list_view_def [abs_def] list_reach_def [abs_def]
  by (rule struct_copier [where copy = "pair_copy Pair (pair_copy cx
          (copy_slice get_pools PoolArray (zero_pool z) (AgentPool_DeepCopyInto z cx)))"
        and mk = "\<lambda>(ty, lm, it). \<lparr>lr_TypeMeta = ty, lr_ListMeta = lm, lr_Items = it\<rparr>"])
     (auto intro!: pair_copier slice_copier plain_copier deep_copier_axioms pool.deep_copier_axioms
       simp: list_fields_def AgentPoolList_DeepCopyInto_def pair_copy_def split: prod.split)

context api_structs
begin

lemma AgentPool_copier:
  "deep_copier (ptr_view get_pool (pool_view xview)) (ptr_reach get_pool (pool_reach xreach)) (AgentPool_DeepCopy z cx)"
  unfolding AgentPool_DeepCopy_def by (rule ptr_copier [OF pool.deep_copier_axioms]) simp

lemma AgentPoolList_copier:
  "deep_copier (ptr_view get_list (list_view xview)) (ptr_reach get_list (list_reach xreach)) (AgentPoolList_DeepCopy z cx)"
  unfolding AgentPoolList_DeepCopy_def by (rule ptr_copier [OF pools.deep_copier_axioms]) simp

lemma AgentPoolSpec_copier:
  "deep_copier (ptr_view get_spec (spec_view xview)) (ptr_reach get_spec (spec_reach xreach)) (AgentPoolSpec_DeepCopy z cx)"
  unfolding AgentPoolSpec_DeepCopy_def by (rule ptr_copier [OF spec.deep_copier_axioms]) simp

lemma AgentPoolStatus_copier:
  "deep_copier (ptr_view get_status (status_view xview)) (ptr_reach get_status (status_reach xreach))
     (AgentPoolStatus_DeepCopy z cx)"
  unfolding AgentPoolStatus_DeepCopy_def by (rule ptr_copier [OF status.deep_copier_axioms]) simp

lemma CacheVolumeTemplate_copier:
  "deep_copier (ptr_view get_cache (cache_view xview)) (ptr_reach get_cache (cache_reach xreach))
     (CacheVolumeTemplate_DeepCopy z cx)"
  unfolding CacheVolumeTemplate_DeepCopy_def by (rule ptr_copier [OF cache.deep_copier_axioms]) simp

end

section \<open>API structs that hold a pointer\<close>

text \<open>
  An instance of the parameter: structs with a name and a pointer to a string, copied field by field.
\<close>

datatype api_struct = ApiStruct string "nat option"

primrec api_flat :: "api_struct \<Rightarrow> string \<times> nat option" where
  "api_flat (ApiStruct s p) = (s, p)"

definition api_copy :: "api_struct \<Rightarrow> api_struct cell heap \<Rightarrow> api_struct \<times> api_struct cell heap" where
  "api_copy x h = (case pair_copy Pair (copy_ptr get_string StringCell [] Pair) (api_flat x) h of
     ((s, p), h') \<Rightarrow> (ApiStruct s p, h'))"

interpretation api: api_structs
  "\<lambda>h x. pair_view plain_view (ptr_view get_string plain_view) h (api_flat x)"
  "\<lambda>h x. pair_reach plain_reach (ptr_reach get_string plain_reach) h (api_flat x)"
  api_copy "ApiStruct [] None"
  unfolding api_structs_def
  by (rule struct_copier [where copy = "pair_copy Pair (copy_ptr get_string StringCell [] Pair)"
        and mk = "\<lambda>(s, p). ApiStruct s p"])
     (auto intro!: pair_copier ptr_copier plain_copier simp: api_copy_def split: prod.split)

text \<open>A heap with a pool that has environment, cache volumes, labels and a status.\<close>

definition sample_cells :: "(nat \<times> api_struct cell) list" where
  "sample_cells =
     [(0, PoolCell \<lparr>ar_TypeMeta = (''AgentPool'', ''v1alpha1''), ar_ObjectMeta = ApiStruct ''ci'' (Some 2),
        ar_Spec = (zero_spec (ApiStruct [] None))
          \<lparr>sr_PoolName := ''p'', sr_ExtraEnv := Some \<lparr>sl_addr = 1, sl_off = 1, sl_len = 1\<rparr>,
           sr_PodLabels := Some 3, sr_CacheVolumes := Some \<lparr>sl_addr = 4, sl_off = 0, sl_len = 1\<rparr>\<rparr>,
        ar_Status = zero_status\<lparr>tr_ActiveAgents := Some 6\<rparr>\<rparr>),
      (1, ApiArray [ApiStruct ''HTTP_PROXY'' None, ApiStruct ''TZ'' (Some 2)]),
      (2, StringCell ''UTC''),
      (3, MapCell [(''team'', ''a''), (''tier'', ''ci'')]),
      (4, CacheArray [\<lparr>cr_Name = ''nuget'', cr_MountPath = ''/cache'', cr_StorageClassName = Some 5,
            cr_Size = ApiStruct ''10Gi'' None\<rparr>]),
      (5, StringCell ''fast''),
      (6, Int32Cell 2)]"

definition sample_heap :: "api_struct cell heap" where
  "sample_heap = \<lparr>h_lim = 7, h_cells = map_of sample_cells\<rparr>"

lemma sample_wf: "wf_heap sample_heap"
  unfolding wf_heap_def sample_heap_def sample_cells_def by auto

lemma sample_viewed:
  "case ptr_view get_pool (pool_view (\<lambda>h x. pair_view plain_view (ptr_view get_string plain_view) h (api_flat x)))
     sample_heap (Some 0) of None \<Rightarrow> False | Some _ \<Rightarrow> True"
  by code_simp

end
