(* ===== verification/Spec2Isabelle.thy ===== *)
theory Spec2Isabelle
  imports Demo_Cluster Pod_Shape Manager Deep_Copy
begin

text \<open>
  Verification of the Azure DevOps agent operator, a Kubernetes operator that keeps, for every
  \<^verbatim>\<open>AgentPool\<close> resource, as many agent pods as Azure DevOps has unfinished jobs, within the bounds of
  the resource, and lends each pod a set of cache volumes.

  \<^bold>\<open>Parts and their interaction.\<close>  \<^verbatim>\<open>src/cmd/main.go\<close> parses flags, creates the controller-runtime
  manager and registers the reconciler.  The manager calls \<^verbatim>\<open>Reconcile\<close>
  (\<^verbatim>\<open>src/internal/controller/agentpool_controller.go\<close>) for a resource.  One run reads the resource and
  its token, resolves the pool and queries its jobs through the client of
  \<^verbatim>\<open>src/internal/azuredevops\<close>, provisions cache claims (\<^verbatim>\<open>src/internal/controller/pvc.go\<close>), removes
  completed pods and releases their claims, creates or deletes pods, registers or removes a
  placeholder agent for an empty pool, and writes status and metrics
  (\<^verbatim>\<open>src/internal/controller/metrics.go\<close>).  The assignment of claims to pods is kept in labels of the
  claims in the cluster, not in the process.

  \<^bold>\<open>Model.\<close>  Code is a function in the monad \<open>go\<close> of \<open>Go_Prelude\<close>: it maps a state to a result or a
  panic and a new state.  The state (\<open>Operator_State\<close>) is an arbitrary \<open>world\<close>, changed only by the calls
  of the records \<open>client\<close>, \<open>machinery\<close> and \<open>transport\<close>, and the \<open>trace\<close> of the calls made.  API server,
  Azure DevOps, apimachinery and random numbers are parameters: theorems without a hypothesis about
  them hold for every behaviour.  Go errors are values of \<open>result\<close>; \<^verbatim>\<open>int32\<close> is a 32-bit word, \<^verbatim>\<open>int\<close>
  an unbounded integer where the code only counts list elements.  All loops of the code run over finite
  lists or counters, so every definition is a terminating recursion and no fuel is used.  Definitions
  are executable: witnesses evaluate whole reconciliations on a cluster in memory.

  \<^bold>\<open>Theories.\<close>
  \<^item> \<open>Go_Prelude\<close>: the monad, weakest preconditions \<open>wp\<close> and their rules, words, strings and maps of Go.
  \<^item> \<open>Kube_Types\<close>: \<^verbatim>\<open>agentpool_types.go\<close> with its validation markers, and the Kubernetes objects used.
    \<open>Ado_Types\<close>: \<^verbatim>\<open>types.go\<close> with the JSON decoders and encoder that its tags describe.
  \<^item> \<open>Operator_State\<close>: the interfaces, the trace, the calculi \<open>emits\<close> (which calls a program makes) and
    \<open>keeps\<close> (which state predicates it preserves).
  \<^item> \<open>Go_Base64\<close>, \<open>Ado_Client\<close>: base64 and every method of \<^verbatim>\<open>client.go\<close>.  The locale \<open>ado_service\<close> is what
    the controller relies on from its client; the repository's client is its interpretation \<open>client\<close>.
  \<^item> \<open>Metrics\<close>: \<^verbatim>\<open>metrics.go\<close>.  \<open>Pvc_Pool\<close>: \<^verbatim>\<open>pvc.go\<close>, loop by loop.  \<open>Pvc_Contract\<close>: the locales \<open>pvc_writes\<close>,
    \<open>pvc_api\<close> (fresh reads) and \<open>pvc_reliable\<close> (calls succeed), and the behaviour of the operations under
    them.
  \<^item> \<open>Agent_Pods\<close>: desired number, names, pod object, creation, scale-down, cleanup; \<open>Pod_Shape\<close>: which of
    the pods sent to the server are well-formed.  \<open>Dummy_Agent\<close>: \<^verbatim>\<open>manageDummyAgent\<close> and the state machine
    it refines.
  \<^item> \<open>Reconciler\<close>: \<^verbatim>\<open>Reconcile\<close> with its phases, \<^verbatim>\<open>handleDeletion\<close>, \<^verbatim>\<open>fetchPAT\<close>, \<^verbatim>\<open>resolvePoolID\<close>.
    \<open>Reconcile_Facts\<close> and \<open>Reconcile_Outcomes\<close>: what a run does for every server, in the locale \<open>reconciler\<close>,
    interpreted for the reconciler that \<^verbatim>\<open>main\<close> builds.
  \<^item> \<open>Cluster_Contract\<close>: the locale \<open>cluster_api\<close> of pods and claims together, and \<open>tracked_cluster\<close>, which
    carries a property of labels and pods through a reconciliation; two sublocales instantiate it, for
    the ownership of mounted claims and for the holder of one claim.
  \<^item> \<open>Operator_Runs\<close>: absence of panics (locale \<open>sound_cluster\<close>) and the step relation \<open>operated\<close> of
    reconciliations interleaved with moves of the cluster.
  \<^item> \<open>Manager\<close>: \<^verbatim>\<open>main.go\<close>, \<^verbatim>\<open>groupversion_info.go\<close> and \<^verbatim>\<open>SetupWithManager\<close>: flags and their parsing, server
    options, scheme registration, start-up sequence with exit statuses.
  \<^item> \<open>Go_Heap\<close>, \<open>Deep_Copy\<close>: \<^verbatim>\<open>zz_generated.deepcopy.go\<close> over an explicit heap of addresses, with the
    contract \<open>deep_copier\<close> closed under pointers, slices, maps and structs.
  \<^item> \<open>Mem_Cluster\<close>, \<open>Demo_Cluster\<close>: an executable cluster on which every contract is interpreted, and the
    concrete states of the witnesses.

  \<^bold>\<open>What is shown.\<close>  For every server: which pods a run may delete and create, in which direction and
  how far it scales and when it reaches the desired number, what happens on a failed query, that
  every return asks for another run, and that deletion reaches the finalizer.  On a cluster that
  follows the API contract, where calls may still fail at any point: exclusiveness of cache volumes
  over whole runs, no panic, and when claims are released.  For the parts: assignment, rollback,
  release, provisioning and counting of claims; scale-down, cleanup, creation, well-formedness, shape
  and names of pods; the desired number; the placeholder agent as a refinement of a state machine;
  outcomes of the client, token, status and metrics.  For the process: independence of deep copies,
  start-up order and exit statuses, round trip of the flags, protocols and protection of the servers.

  \<^bold>\<open>Assumptions worth knowing.\<close>  Exclusiveness needs fresh reads and a single writer; the code patches
  without an optimistic lock and reads from a cache, so the contract is stronger than what
  controller-runtime promises.  The hypothesis that cache template names are distinct, in the
  theorems on assignment and on the pod object, is not enforced by the markers;
  \<open>duplicate_templates_leak\<close> in \<open>Demo_Cluster\<close> shows the consequence.

  \<^bold>\<open>Not modelled.\<close>  Log output and the logger of \<^verbatim>\<open>main.go\<close> (the flags it adds are a parameter); the
  internals of controller-runtime, client-go and the Prometheus library (parameters or calls in the
  trace); the text of JSON (the transport converts it, decoding of its values is modelled); timing
  beyond the requested delay; the helpers of \<^verbatim>\<open>src/test/utils\<close>, which run external commands for the
  end-to-end tests.
\<close>

section \<open>Reconciliation\<close>

text \<open>
  C1.  Whatever the API server, the network and the Azure DevOps service answer, a reconciliation of
  the operator only requests the deletion of a pod after the job query of the same reconciliation
  has been answered, and then only of pods that have completed, or that are running or pending and
  not named as busy in that answer.  In particular no pod that executes a job is deleted.
\<close>

theorem reconcile_deletes_only_idle:
  "wp (Reconcile (operator c m tr) req)
     (\<lambda>r t. \<exists>os. trace t = trace s @ os \<and> guarded None os) s"
  by (rule traces_wp) (rule op.Reconcile_guarded)



text \<open>
  C3.  The scaling step moves the number of agents towards the desired one and never past it: with
  fewer active pods than desired it only creates, at most the missing ones; with more it only
  deletes, at most the excess.  The count it returns is the old count plus the created minus the
  deleted pods.  This holds for every server and every failure.
\<close>

theorem scaling_moves_towards_desired:
  "wp (reconcile_scale c m pool ns n pods desired busy)
     (\<lambda>r t. \<exists>ps k. created_by m pool s t ps \<and> deletions t = deletions s + k
        \<and> int (length ps) \<le> max 0 (of_int32 desired - n) \<and> 0 \<le> k \<and> k \<le> max 0 (n - of_int32 desired)
        \<and> (\<forall>j. r = Ret j \<longrightarrow> j = n + int (length ps) - k
             \<and> min n (of_int32 desired) \<le> j \<and> j \<le> max n (of_int32 desired))) s"
  by (rule wp_mono [OF wp_reconcile_scale]) force

theorem scaling_moves_towards_desired_witness:
  "\<exists>j. fst (reconcile_scale (mem_client False) mem_machinery demo_pool ''ns'' 1 [demo_running] 2 Map.empty demo_state)
      = Ret j \<and> 1 \<le> j \<and> j \<le> 2"
proof -
  let ?run = "reconcile_scale (mem_client False) mem_machinery demo_pool ''ns'' 1 [demo_running] 2 Map.empty demo_state"
  have "case fst ?run of Ret j \<Rightarrow> True | Panic _ \<Rightarrow> False" by code_simp
  then obtain j where j: "fst ?run = Ret j" by (auto split: outcome.splits)
  from wp_run [OF scaling_moves_towards_desired fst_run [OF j]] j show ?thesis
    by (auto simp: of_int32_def)
qed

text \<open>
  C4.  When the job query fails, a reconciliation creates no pod and deletes none, writes a status
  that reports the pool as unavailable with the reason \<^verbatim>\<open>JobStatusQueryFailed\<close>, and asks to be
  run again after the reconcile interval.  (\<^verbatim>\<open>meta.SetStatusCondition\<close> sets the condition it is given.)
\<close>

theorem no_scaling_on_failed_query:
  assumes "status_conditions m"
  shows "wp (Reconcile (operator c m tr) req)
     (\<lambda>r t. \<exists>os. trace t = trace s @ os \<and>
        ((\<exists>e. GotJobStatus (Err e) \<in> set os) \<longrightarrow> r = Ret (requeue, None)
          \<and> list_all (\<lambda>ob. \<not> is_delete ob \<and> \<not> created_ok ob) os
          \<and> (\<exists>pool' ok. UpdateStatus pool' ok \<in> set os
               \<and> reports pool' ConditionFalse ''JobStatusQueryFailed''))) s"
proof -
  have "status_conditions (rc_Machinery (operator c m tr))" using assms by simp
  from wp_Reconcile_holds_back [OF op.reconciler_axioms this]
  show ?thesis by (rule wp_mono) (auto simp: holds_back_def query_failed_def)
qed

theorem no_scaling_on_failed_query_witness:
  "\<exists>os. trace (snd (Reconcile (operator (mem_client False) mem_machinery (table_transport [])) demo_req demo_state)) = os
     \<and> (\<exists>e. GotJobStatus (Err e) \<in> set os)
     \<and> list_all (\<lambda>ob. \<not> is_delete ob \<and> \<not> created_ok ob) os
     \<and> (\<exists>pool' ok. UpdateStatus pool' ok \<in> set os \<and> reports pool' ConditionFalse ''JobStatusQueryFailed'')"
proof -
  let ?run = "Reconcile (operator (mem_client False) mem_machinery (table_transport [])) demo_req demo_state"
  from demo_query_fails obtain ob where ob: "ob \<in> set (trace (snd ?run))"
      "case ob of GotJobStatus (Err e) \<Rightarrow> True | _ \<Rightarrow> False" unfolding list_ex_iff by blast
  from ob(2) obtain e where "ob = GotJobStatus (Err e)"
    by (simp split: obs.split_asm sum.split_asm)
  with ob(1) have "\<exists>e. GotJobStatus (Err e) \<in> set (trace (snd ?run))" by blast
  with wp_run [OF no_scaling_on_failed_query [OF mem.status_conditions_axioms] prod.collapse [symmetric, of ?run]]
  show ?thesis by (auto simp: demo_state_def)
qed


text \<open>
  C10.  A pool that is not being deleted and has its finalizer never falls silent: every return of
  the reconciliation either asks for the next run after the reconcile interval or hands an error to
  the work queue, which retries.
\<close>

theorem reconcile_is_retried:
  "wp (reconcile_pool R req pool)
     (\<lambda>r t. \<forall>res e. r = Ret (res, e) \<longrightarrow>
        (res = requeue \<and> e = None) \<or> (res = no_requeue \<and> e \<noteq> None)) s"
  by (rule wp_mono [OF returns_wp [OF returns_pool]]) (auto simp: retried_def)

theorem reconcile_is_retried_witness:
  "\<exists>r t. reconcile_pool (demo_operator False) demo_req demo_pool demo_state = (r, t)
     \<and> r = Ret (requeue, None)"
proof -
  let ?run = "reconcile_pool (demo_operator False) demo_req demo_pool demo_state"
  have "case fst ?run of Ret (res, e) \<Rightarrow> e = None | Panic _ \<Rightarrow> False" by code_simp
  then obtain res where "fst ?run = Ret (res, None)" by (auto split: outcome.splits)
  from fst_run [OF this] wp_run [OF reconcile_is_retried fst_run [OF this]] show ?thesis by auto
qed

text \<open>
  C11.  Deletion is never blocked by Azure DevOps or by the token: when the finalizer is present, the
  handler always gets to the single update that removes it, whatever the secret lookup and the
  removal of the placeholder agent do, and its result only depends on that update.
\<close>

theorem deletion_reaches_finalizer:
  assumes "m_ContainsFinalizer m pool finalizerName"
  shows "wp (handleDeletion (operator c m tr) pool)
     (\<lambda>r t. \<exists>os ok. trace t = trace s @ os @ [UpdatePool (m_RemoveFinalizer m pool finalizerName) ok]
        \<and> list_all (\<lambda>ob. \<not> is_pool_update ob) os
        \<and> (if ok then r = Ret (no_requeue, None) else \<exists>e. r = Ret (no_requeue, Some e))) s"
  using op.wp_handleDeletion [where c = c and m = m and tr = tr and pool = pool and s = s] assms by simp

theorem deletion_reaches_finalizer_witness:
  "m_ContainsFinalizer mem_machinery demo_pool finalizerName
   \<and> wp (handleDeletion (demo_operator True) demo_pool)
       (\<lambda>r t. \<exists>os ok. trace t = trace demo_state @ os
            @ [UpdatePool (m_RemoveFinalizer mem_machinery demo_pool finalizerName) ok]
          \<and> list_all (\<lambda>ob. \<not> is_pool_update ob) os
          \<and> (if ok then r = Ret (no_requeue, None) else \<exists>e. r = Ret (no_requeue, Some e))) demo_state"
proof -
  have fin: "m_ContainsFinalizer mem_machinery demo_pool finalizerName"
    by (simp add: mem_machinery_def demo_pool_def)
  with deletion_reaches_finalizer [OF fin] show ?thesis unfolding demo_operator_def by blast
qed

section \<open>Cache volumes\<close>

text \<open>
  C12.  Assignment of cache volumes.  On a claim store that follows the API contract, with well-formed
  claims and distinct template names, \<^verbatim>\<open>findAndAssignPVCs\<close> either returns one claim per template, in
  order, where every claim was a free claim of its template, is now assigned to the pod, is given
  to one template only, and all other claims are untouched; or it returns an error and every claim
  is as before, except that claims which were free may be left assigned to this pod when the
  rollback itself failed.  It never panics.
\<close>

theorem findAndAssign_takes_free_claims:
  assumes "pvc_api c m store" and "claims_wf (lab (store (world s)))"
    and "distinct (map cv_Name (sp_CacheVolumes (ap_Spec pool)))"
    and "findAndAssignPVCs c m pool pod s = (r, t)"
  shows "(\<exists>asg. r = Ret (Ok asg) \<and> map fst asg = map cv_Name (sp_CacheVolumes (ap_Spec pool))
            \<and> holds (lab (store (world s))) pool pod asg (lab (store (world t))))
       \<or> (\<exists>e. r = Ret (Err e) \<and> recoverable (lab (store (world s))) pool pod (lab (store (world t))))"
  using wp_run [OF pvc_api.findAndAssign_any [OF assms(1-3)] assms(4)]
  by (auto simp: ends_def split: outcome.splits sum.splits)

theorem findAndAssign_takes_free_claims_witness:
  "\<exists>t. findAndAssignPVCs (mem_client False) mem_machinery demo_pool ''ci-c'' demo_state
          = (Ret (Ok [(''nuget'', ''ci-cache-nuget-01'')]), t)
     \<and> holds (lab (mem_store (world demo_state))) demo_pool ''ci-c'' [(''nuget'', ''ci-cache-nuget-01'')]
          (lab (mem_store (world t)))"
  using findAndAssign_takes_free_claims [OF mem.pvc_api_axioms demo_wf demo_distinct fst_run [OF demo_assign]]
    fst_run [OF demo_assign] by auto





text \<open>
  C15.  Releasing the claims of a pod.  A successful \<^verbatim>\<open>releasePVCsForPod\<close> frees exactly the claims of the
  pool that are assigned to the pod, so that afterwards it has none; a failing one frees some of
  them and touches nothing else.
\<close>

theorem release_frees_claims_of_pod:
  assumes "pvc_api c m store" and "releasePVCsForPod c pool pod s = (r, t)"
  shows "(r = Ret (Ok ()) \<and> lab (store (world t)) = freed (claims_of (lab (store (world s))) pool pod) (lab (store (world s)))
            \<and> claims_of (lab (store (world t))) pool pod = {})
       \<or> (\<exists>e K. r = Ret (Err e) \<and> K \<subseteq> claims_of (lab (store (world s))) pool pod
            \<and> lab (store (world t)) = freed K (lab (store (world s))))"
  using wp_run [OF pvc_api.releasePVCsForPod_spec [OF assms(1)] assms(2)] claims_of_freed
  by (auto simp: ends_def split: outcome.splits sum.splits)

theorem release_frees_claims_of_pod_witness:
  "claims_of (lab (mem_store (world (snd (releasePVCsForPod (mem_client False) demo_pool ''ci-a'' demo_state)))))
     demo_pool ''ci-a'' = {}"
  using release_frees_claims_of_pod [OF mem.pvc_api_axioms fst_run [OF demo_release]]
  by (elim disjE conjE exE) (assumption, simp)



text \<open>
  C17.  Provisioning is idempotent: when all slots have a claim and reads succeed, \<^verbatim>\<open>ensurePVCPool\<close>
  succeeds without a single write.
\<close>

theorem ensurePVCPool_idempotent:
  assumes "pvc_reliable c m store"
    and "\<And>cv i. cv \<in> set (sp_CacheVolumes (ap_Spec pool)) \<Longrightarrow> i \<in> set (slot_numbers pool) \<Longrightarrow>
          lab (store (world s)) (slot_key pool cv i) \<noteq> None"
  shows "wp (ensurePVCPool c m pool)
     (\<lambda>r t. r = Ret (Ok ()) \<and> store (world t) = store (world s)
        \<and> filter is_pvc_write (trace t) = filter is_pvc_write (trace s)) s"
proof -
  have "(\<Union>cv \<in> set (sp_CacheVolumes (ap_Spec pool)). slot_key pool cv ` set (slot_numbers pool))
      \<subseteq> dom (lab (store (world s)))"
    using assms(2) by (auto simp: domIff)
  from pvc_reliable.ensurePVCPool_present [OF assms(1) this] show ?thesis
    by (simp add: untouched_def)
qed

theorem ensurePVCPool_idempotent_witness:
  "wp (ensurePVCPool (mem_client False) mem_machinery demo_pool)
     (\<lambda>r t. r = Ret (Ok ()) \<and> mem_store (world t) = mem_store (world demo_state)
        \<and> filter is_pvc_write (trace t) = filter is_pvc_write (trace demo_state)) demo_state"
proof (rule ensurePVCPool_idempotent [OF steady.pvc_reliable_axioms])
  fix cv i
  assume "cv \<in> set (sp_CacheVolumes (ap_Spec demo_pool))" and "i \<in> set (slot_numbers demo_pool)"
  then have "cv = demo_cache" "i = 0 \<or> i = 1"
    unfolding demo_slot_numbers by (auto simp: demo_pool_def demo_spec_def)
  then show "lab (mem_store (world demo_state)) (slot_key demo_pool cv i) \<noteq> None"
    using demo_slots by auto
qed

text \<open>
  C18.  The free-slot count is the minimum of \<^verbatim>\<open>maxAgents\<close> and the numbers of free claims of the
  templates, and counting changes nothing.
\<close>

theorem countFreePVCSlots_is_minimum:
  assumes "pvc_api c m store" and "countFreePVCSlots c pool s = (Ret (Ok k), t)"
  shows "store (world t) = store (world s)
    \<and> k = Min (insert (of_int32 (sp_MaxAgents (ap_Spec pool)))
            ((\<lambda>cv. int (card (free_names (lab (store (world s))) pool (cv_Name cv))))
               ` set (sp_CacheVolumes (ap_Spec pool))))"
  using wp_run [OF pvc_api.countFreePVCSlots_spec [OF assms(1)] assms(2)] by auto

theorem countFreePVCSlots_is_minimum_witness:
  "Min (insert (of_int32 (sp_MaxAgents (ap_Spec demo_pool)))
       ((\<lambda>cv. int (card (free_names (lab (mem_store (world demo_state))) demo_pool (cv_Name cv))))
          ` set (sp_CacheVolumes (ap_Spec demo_pool)))) = 1"
  using countFreePVCSlots_is_minimum [OF mem.pvc_api_axioms fst_run [OF demo_count]] by simp

text \<open>
  C19.  Names of claims.  For every slot that a 32-bit \<^verbatim>\<open>maxAgents\<close> allows the name has at most 78
  characters, well below the 253 of a Kubernetes name, and different slots of a template have
  different names.
\<close>

theorem pvcSlotName_bounded_injective:
  assumes "int slot < 2 ^ 31"
  shows "length (pvcSlotName poolName cacheName slot) \<le> 78
    \<and> (pvcSlotName poolName cacheName slot = pvcSlotName poolName cacheName slot' \<longleftrightarrow> slot = slot')"
  using pvcSlotName_length [of slot 10 poolName cacheName] assms by (simp add: pvcSlotName_inject)

theorem pvcSlotName_bounded_injective_witness:
  "length (pvcSlotName ''ci'' ''nuget'' 7) \<le> 78 \<and> pvcSlotName ''ci'' ''nuget'' 7 \<noteq> pvcSlotName ''ci'' ''nuget'' 12"
  using pvcSlotName_bounded_injective [of 7 "''ci''" "''nuget''" 12] by simp

section \<open>Agent pods\<close>

text \<open>
  C20.  Scale-down, for every server.  Deletion is only requested for listed pods that are not busy; the
  result counts the successful deletions and is at most the requested number; and when no deletion
  fails, exactly the first idle pods of the list are deleted, as many as requested or as there are.
\<close>

theorem scaleDown_deletes_idle_pods:
  "wp (scaleDown c pool pods n busy)
     (\<lambda>r t. \<exists>os j. r = Ret j \<and> trace t = trace s @ os
        \<and> 0 \<le> j \<and> j \<le> max 0 n \<and> j = int (length (filter deleted_ok os))
        \<and> list_all (idle_delete busy (set pods)) os
        \<and> (list_ex failed_delete os
            \<or> delete_targets os = take (nat n) (idle busy pods) \<and> j = int (length (delete_targets os)))) s"
proof -
  have "wp (scaleDown c pool pods n busy) (\<lambda>r t.
      (\<exists>j. r = Ret (0 + j) \<and> 0 \<le> j \<and> j \<le> max 0 (n - 0) \<and> deletions t = deletions s + j)
      \<and> (\<exists>os. trace t = trace s @ os \<and> (list_ex failed_delete os
          \<or> (delete_targets os = take (nat (n - 0)) (idle busy pods)
              \<and> r = Ret (0 + int (length (delete_targets os))))))
      \<and> (\<exists>os. trace t = trace s @ os \<and> list_all (idle_delete busy (set pods)) os)) s"
    unfolding scaleDown_def
    by (intro wp_conj wp_scale_down_loop wp_scale_down_exact emits_wp emits_scale_down_loop)
  then show ?thesis by (rule wp_mono) (auto simp: deletions_def)
qed

text \<open>
  C21.  Cleanup requests the deletion of every completed pod of the list, once and in order, of no
  other pod, and makes otherwise only calls on claims and events.
\<close>

theorem cleanup_deletes_completed_pods:
  "wp (cleanupCompletedPods c m pool pods)
     (\<lambda>r t. \<exists>os rest. trace t = trace s @ os \<and> list_all cleanup_call os
        \<and> filter completed pods = delete_targets os @ rest \<and> (\<forall>x. r = Ret x \<longrightarrow> rest = [])) s"
proof -
  have "wp (cleanupCompletedPods c m pool pods)
      (\<lambda>r t. \<exists>os rest. trace t = trace s @ os \<and> filter completed pods = delete_targets os @ rest
        \<and> (\<forall>x. r = Ret x \<longrightarrow> rest = [])) s"
    unfolding cleanupCompletedPods_def by (rule wp_bindI [OF wp_cleanup_loop]) (auto simp: wp_ret)
  with emits_wp [OF emits_cleanup] have "wp (cleanupCompletedPods c m pool pods)
      (\<lambda>r t. (\<exists>os. trace t = trace s @ os \<and> list_all cleanup_call os)
        \<and> (\<exists>os rest. trace t = trace s @ os \<and> filter completed pods = delete_targets os @ rest
              \<and> (\<forall>x. r = Ret x \<longrightarrow> rest = []))) s"
    by (rule wp_conj)
  then show ?thesis by (rule wp_mono) auto
qed

theorem cleanup_deletes_completed_pods_witness:
  "wp (cleanupCompletedPods (mem_client False) mem_machinery demo_pool [demo_running, demo_completed])
     (\<lambda>r t. \<exists>os rest. trace t = os \<and> list_all cleanup_call os
        \<and> [demo_completed] = delete_targets os @ rest \<and> (\<forall>x. r = Ret x \<longrightarrow> rest = [])) demo_state"
  using cleanup_deletes_completed_pods [of "mem_client False" mem_machinery demo_pool
      "[demo_running, demo_completed]" demo_state]
  by (simp add: demo_state_def completed_def demo_running_def demo_completed_def)

text \<open>
  C22.  Creating an agent pod, for every server: when the call succeeds exactly one pod has been
  created, and it is the pod that \<^verbatim>\<open>buildAgentPod\<close> makes for the pool; otherwise none has.
\<close>

theorem createAgentPod_creates_one:
  "wp (createAgentPod c m pool)
     (\<lambda>r t. \<exists>ps. length ps = (if r = Ret (Ok ()) then 1 else 0) \<and> (\<forall>p \<in> set ps. launched m pool p)
        \<and> filter created_ok (trace t) = filter created_ok (trace s) @ map (\<lambda>p. CreatePod p True) ps) s"
  by (rule wp_mono [OF wp_createAgentPod]) (auto simp: created_by_def)

theorem createAgentPod_creates_one_witness:
  "\<exists>ps. filter created_ok (trace (snd (createAgentPod (mem_client False) mem_machinery demo_pool demo_state)))
      = map (\<lambda>p. CreatePod p True) ps \<and> length ps \<le> 1"
  using createAgentPod_creates_one [of "mem_client False" mem_machinery demo_pool demo_state]
  by (auto simp: wp_def demo_state_def split: prod.splits if_splits)



text \<open>
  C24.  The pod object.  With one claim per template the volumes are the templates in order, each with
  its claim, the container mounts them under the same names, runs \<^verbatim>\<open>--once\<close> and is never restarted,
  and its first environment variables name the organisation, the pool and the pod, and take the
  token from the secret.
\<close>

theorem buildAgentPod_mounts_assigned_claims:
  assumes "map fst asg = map cv_Name (sp_CacheVolumes (ap_Spec pool))"
    and "distinct (map cv_Name (sp_CacheVolumes (ap_Spec pool)))"
  shows "\<exists>ct. ps_Containers (pod_Spec (buildAgentPod pool podName asg)) = [ct]
    \<and> map vol_Name (ps_Volumes (pod_Spec (buildAgentPod pool podName asg))) = map cv_Name (sp_CacheVolumes (ap_Spec pool))
    \<and> map vol_ClaimName (ps_Volumes (pod_Spec (buildAgentPod pool podName asg))) = map snd asg
    \<and> map vm_Name (ct_VolumeMounts ct) = map cv_Name (sp_CacheVolumes (ap_Spec pool))
    \<and> map vm_MountPath (ct_VolumeMounts ct) = map cv_MountPath (sp_CacheVolumes (ap_Spec pool))
    \<and> ct_Args ct = [''--once''] \<and> ps_RestartPolicy (pod_Spec (buildAgentPod pool podName asg)) = ''Never''
    \<and> map (\<lambda>e. (ev_Name e, ev_Value e)) (take 3 (ct_Env ct)) =
        [(''AZP_URL'', sp_OrganizationURL (ap_Spec pool)), (''AZP_POOL'', sp_PoolName (ap_Spec pool)),
         (''AZP_AGENT_NAME'', podName)]
    \<and> ev_ValueFrom (ct_Env ct ! 3) = Some (SecretKeyRef (sp_TokenSecretRef (ap_Spec pool)))"
proof -
  let ?cvs = "sp_CacheVolumes (ap_Spec pool)"
  have len: "length (map snd asg) = length ?cvs" using assms(1) by (metis length_map)
  have "map (\<lambda>x. f (fst x)) (zip ?cvs (map snd asg)) = map f ?cvs" for f :: "CacheVolumeTemplate \<Rightarrow> string"
    using len by (intro nth_equalityI) auto
  moreover have "map snd (zip ?cvs (map snd asg)) = map snd asg"
    using len by (intro nth_equalityI) auto
  ultimately show ?thesis
    by (simp add: buildAgentPod_def Let_def cache_mounts_served served_all [OF assms] agent_env_def
        comp_def case_prod_beta)
qed

theorem buildAgentPod_mounts_assigned_claims_witness:
  "\<exists>ct. ps_Containers (pod_Spec (buildAgentPod demo_pool ''ci-c'' [(''nuget'', ''v'')])) = [ct]
    \<and> map vol_ClaimName (ps_Volumes (pod_Spec (buildAgentPod demo_pool ''ci-c'' [(''nuget'', ''v'')]))) = [''v'']
    \<and> map vm_MountPath (ct_VolumeMounts ct) = [''/cache'']"
  using buildAgentPod_mounts_assigned_claims [of "[(''nuget'', ''v'')]" demo_pool "''ci-c''"]
  by (auto simp: demo_pool_def demo_spec_def demo_cache_def)

text \<open>
  C25.  The controller finds its pods again: the pods it builds match the selector it lists them with,
  unless the user's \<^verbatim>\<open>podLabels\<close> set the label \<^verbatim>\<open>agentpool\<close> to another value.
\<close>

theorem agent_pods_match_selector:
  "matches [(labelPoolName, ap_Name pool)] (map_get (pod_Labels (buildAgentPod pool podName asg)))
     \<longleftrightarrow> map_get (sp_PodLabels (ap_Spec pool)) labelPoolName \<in> {None, Some (ap_Name pool)}"
  by (auto simp: matches_def agent_labels_pool split: option.split)

text \<open>
  C26.  Pod names.  With a random source that respects its bound, naming never panics, makes no call,
  and the name is the first 40 characters of the pool name, a dash and six characters of
  \<^verbatim>\<open>a-z0-9\<close>: at most 47 characters, a valid label value and host name length.
\<close>

theorem agent_pod_name_shape:
  assumes "random_source m"
  shows "wp (agent_pod_name m pool)
     (\<lambda>r t. \<exists>bs. r = Ret (take 40 (ap_Name pool) @ ''-'' @ bs) \<and> length bs = 6 \<and> set bs \<subseteq> set charset
        \<and> length (take 40 (ap_Name pool) @ ''-'' @ bs) \<le> 47 \<and> trace t = trace s) s"
  by (rule wp_mono [OF random_source.wp_agent_pod_name [OF assms]]) auto

theorem agent_pod_name_shape_witness:
  "\<exists>bs. fst (agent_pod_name mem_machinery demo_pool demo_state) = Ret (''ci-'' @ bs) \<and> length bs = 6"
proof -
  have "take 40 (ap_Name demo_pool) = ''ci''" by (simp add: demo_pool_def)
  with agent_pod_name_shape [OF mem.random_source_axioms, of demo_pool demo_state]
  show ?thesis by (auto simp: wp_def split: prod.splits)
qed

text \<open>
  C27.  The desired number of agents.  For a number of unfinished jobs within 32 bits and bounds in
  order, it is the number of jobs forced between \<^verbatim>\<open>minAgents\<close> and \<^verbatim>\<open>maxAgents\<close>; so it is zero
  exactly when the minimum is zero and there are no jobs (or the maximum is zero).
\<close>

theorem desired_is_clamped:
  assumes "of_int32 lo \<le> of_int32 hi" and "0 \<le> pending" and "pending < 2 ^ 31" and "0 \<le> of_int32 lo"
  shows "of_int32 (clamp (to_int32 pending) lo hi) = max (of_int32 lo) (min (of_int32 hi) pending)
    \<and> (of_int32 (clamp (to_int32 pending) lo hi) = 0 \<longleftrightarrow> lo = 0 \<and> (pending = 0 \<or> hi = 0))"
proof -
  have "of_int32 (to_int32 pending) = pending" using assms by (intro to_int32_id) auto
  moreover have "lo = 0 \<longleftrightarrow> of_int32 lo = 0" "hi = 0 \<longleftrightarrow> of_int32 hi = 0"
    by (metis of_int32_0 of_int32_inject)+
  ultimately show ?thesis using assms by (auto simp: clamp_between)
qed

theorem desired_is_clamped_witness:
  "of_int32 (clamp (to_int32 12) 1 10) = max (of_int32 1) (min (of_int32 10) 12)"
  using desired_is_clamped [of 1 10 12] by (simp add: of_int32_def)

section \<open>The placeholder agent\<close>

text \<open>
  C28.  \<^verbatim>\<open>manageDummyAgent\<close> with the repository's client refines the state machine \<open>dummy_step\<close>: it changes
  nothing of the pool but the identifier, makes at most one registration or removal call, registers
  only when no agent is desired and none is known, removes only when agents are desired, recovers an
  existing one without registering, keeps the identifier on every error, and clears it after a
  successful removal.
\<close>

theorem manageDummyAgent_refines_machine:
  "wp (manageDummyAgent (Client_face tr cl) pool desired)
     (\<lambda>r t. case r of Panic _ \<Rightarrow> True
        | Ret (pool', res) \<Rightarrow> (\<exists>i calls. pool' = set_DummyAgentID i pool
            \<and> filter is_registration (trace t) = filter is_registration (trace s) @ calls
            \<and> dummy_step (dummyName pool) (DummyAgentID pool) desired calls i (is_ok res))) s"
  using client.manageDummyAgent_refines [of tr cl pool desired s] unfolding dummy_refines_def .

text \<open>
  C29.  Over any sequence of reconciliations that start without a placeholder, and when the service
  numbers agents from 1 within 32 bits, at most one registered placeholder is outstanding, and none
  when the status records none: the successful registrations exceed the successful removals by at
  most one, and by none when the final identifier is zero.
\<close>

theorem placeholder_registrations_balanced:
  assumes "DummyAgentID pool = 0" and "trace s = []"
    and "manage_rounds (Client_face tr cl) pool ds s = (Ret pool', t)"
    and "valid_ids (trace t)"
  shows "balance (filter is_registration (trace t)) \<le> (if DummyAgentID pool' = 0 then 0 else 1)"
proof -
  from wp_run [OF client.manage_rounds_run assms(3)] assms(1,2)
  have "dummy_run (dummyName pool) 0 (filter is_registration (trace t)) (DummyAgentID pool')" by auto
  moreover have "valid_ids (filter is_registration (trace t))" using assms(4) by (simp add: valid_ids_def list_all_iff)
  ultimately show ?thesis by (rule dummy_run_balance)
qed

theorem placeholder_registrations_balanced_witness:
  "balance (filter is_registration
     (trace (snd (manage_rounds (Client_face (table_transport demo_agents) demo_client) demo_pool [0, 0] demo_state)))) \<le> 1"
proof -
  let ?run = "manage_rounds (Client_face (table_transport demo_agents) demo_client) demo_pool [0, 0] demo_state"
  have "case fst ?run of Ret pool' \<Rightarrow> DummyAgentID pool' = 5 | Panic _ \<Rightarrow> False" by code_simp
  then obtain pool' where "fst ?run = Ret pool'" by (auto split: outcome.splits)
  from fst_run [OF this] have run: "?run = (Ret pool', snd ?run)" .
  have ids: "valid_ids (trace (snd ?run))" by code_simp
  have start: "DummyAgentID demo_pool = 0" "trace demo_state = []" by (simp_all add: demo_pool_def demo_state_def)
  from placeholder_registrations_balanced [OF start run ids] show ?thesis by (simp split: if_splits)
qed

section \<open>The Azure DevOps client\<close>

text \<open>
  C30.  The job query returns a status exactly when the service answers with status 200 and a body that
  decodes, and then \<^verbatim>\<open>Pending\<close> is the number of unfinished requests and an agent is busy exactly when
  an unfinished request is reserved for it.
\<close>

theorem job_status_counts_unfinished:
  "wp (GetJobStatus tr cl org pid)
     (\<lambda>r t. (\<forall>jl. answered tr cl (jobs_url org pid) dec_JobRequestList \<lparr>jl_Count = 0, jl_Value = []\<rparr> (world s) jl \<longrightarrow>
           (\<exists>js. r = Ret (Ok js) \<and> js_Pending js = int (length (filter unfinished (jl_Value jl)))
              \<and> (\<forall>n. is_busy (js_BusyAgentNames js) n \<longleftrightarrow> (\<exists>job \<in> set (jl_Value jl).
                     unfinished job \<and> (\<exists>a. jr_ReservedAgent job = Some a \<and> ar_Name a = n)))))
        \<and> ((\<nexists>jl. answered tr cl (jobs_url org pid) dec_JobRequestList \<lparr>jl_Count = 0, jl_Value = []\<rparr> (world s) jl)
             \<longrightarrow> (\<exists>e. r = Ret (Err e)))) s"
proof -
  have "wp (GetJobStatus tr cl org pid) (\<lambda>r t. \<exists>x. r = Ret x \<and> True) s"
    using completes_wp [of "GetJobStatus tr cl org pid" "\<lambda>_ _. True" s]
      client.jobs_return [of tr cl org pid] by (simp add: Client_face_def wp_def split: prod.split)
  from wp_conj [OF wp_GetJobStatus this] show ?thesis
  proof (rule wp_mono)
    fix r and t :: "'a sys"
    let ?ans = "answered tr cl (jobs_url org pid) dec_JobRequestList \<lparr>jl_Count = 0, jl_Value = []\<rparr> (world s)"
    let ?tally = "\<lambda>jl. tally_jobs (jl_Value jl) \<lparr>js_Pending = 0, js_BusyAgentNames = Map.empty\<rparr>"
    assume "(\<forall>js. r = Ret (Ok js) \<longleftrightarrow> (\<exists>jl. ?ans jl \<and> js = ?tally jl)) \<and> (\<exists>x. r = Ret x \<and> True)"
    then obtain x where r: "r = Ret x" and x: "\<And>js. x = Ok js \<longleftrightarrow> (\<exists>jl. ?ans jl \<and> js = ?tally jl)" by auto
    have "x = Ok (?tally jl)" if "?ans jl" for jl using x that by blast
    moreover have "\<exists>e. x = Err e" if "\<nexists>jl. ?ans jl" using x that by (cases x) blast+
    ultimately show "(\<forall>jl. ?ans jl \<longrightarrow> (\<exists>js. r = Ret (Ok js)
          \<and> js_Pending js = int (length (filter unfinished (jl_Value jl)))
          \<and> (\<forall>n. is_busy (js_BusyAgentNames js) n \<longleftrightarrow> (\<exists>job \<in> set (jl_Value jl).
                 unfinished job \<and> (\<exists>a. jr_ReservedAgent job = Some a \<and> ar_Name a = n)))))
        \<and> ((\<nexists>jl. ?ans jl) \<longrightarrow> (\<exists>e. r = Ret (Err e)))"
      unfolding r by (auto simp: tally_jobs_pending tally_jobs_busy)
  qed
qed

theorem job_status_counts_unfinished_witness:
  "\<exists>jl js. answered (table_transport demo_table) demo_client (jobs_url ''https://ado'' 7) dec_JobRequestList
        \<lparr>jl_Count = 0, jl_Value = []\<rparr> demo_world jl
     \<and> fst (GetJobStatus (table_transport demo_table) demo_client ''https://ado'' 7 demo_state) = Ret (Ok js)
     \<and> js_Pending js = 2 \<and> is_busy (js_BusyAgentNames js) ''ci-a''"
proof -
  let ?tr = "table_transport demo_table :: mem transport" and ?cl = "demo_client"
  let ?zero = "\<lparr>jl_Count = 0, jl_Value = []\<rparr>"
  have dec: "dec_JobRequestList demo_jobs ?zero = Ok demo_job_list" by code_simp
  have url: "map_of demo_table (jobs_url ''https://ado'' 7) = Some demo_jobs" by code_simp
  have ans: "answered ?tr ?cl (jobs_url ''https://ado'' 7) dec_JobRequestList ?zero demo_world demo_job_list"
    using dec url by (simp add: answered_def table_transport_def get_request_def)
  have "length (filter unfinished (jl_Value demo_job_list)) = 2"
    and "\<exists>job \<in> set (jl_Value demo_job_list). unfinished job
       \<and> (\<exists>a. jr_ReservedAgent job = Some a \<and> ar_Name a = ''ci-a'')"
    by (simp_all add: demo_job_list_def unfinished_def zero_JobRequest_def)
  with job_status_counts_unfinished [of ?tr ?cl "''https://ado''" 7 demo_state] ans show ?thesis
    by (force simp: wp_def demo_state_def split: prod.splits)
qed

text \<open>
  Without unfinished jobs no agent is busy, so scaling to zero never meets a protected pod.
\<close>

lemma no_jobs_no_busy_agents:
  assumes "GetJobStatus tr cl org pid s = (Ret (Ok js), t)" and "js_Pending js \<le> 0"
  shows "\<not> is_busy (js_BusyAgentNames js) n"
  using client.idle_when_no_jobs [of tr cl org pid s js t n] assms by (simp add: Client_face_def)

text \<open>
  C31.  GET requests.  Apart from a URL that cannot be turned into a request, exactly one HTTP request is
  made, with the authorization header of the client, and the call returns a value exactly when the
  answer is complete, has status 200, parses and decodes; it never panics.
\<close>

theorem getJSON_returns_decoded_answer:
  "wp (getJSON tr cl url decode zero)
     (\<lambda>r t. \<exists>x. r = Ret x
        \<and> (trace t = trace s \<and> (\<exists>e. x = Err e) \<or> trace t = trace s @ [HttpDo (get_request cl url)])
        \<and> (\<forall>v. x = Ok v \<longleftrightarrow> answered tr cl url decode zero (world s) v)) s"
  by (rule wp_getJSON)

text \<open>
  C32.  The authorization header is basic authentication with an empty user: after the scheme, decoding
  the base64 text gives a colon and the token, for every token.
\<close>

theorem authorization_header_round_trip:
  "take 6 (cl_authorizationHdr (NewClient pat)) = ''Basic ''
   \<and> b64_decode (drop 6 (cl_authorizationHdr (NewClient pat))) = '':'' @ pat"
  by (simp add: NewClient_def Let_def b64_decode_encode)

text \<open>
  C33.  Resolving a pool by name returns an identifier exactly when the service reports one pool and lists
  it; it panics exactly when the reported count is not zero and at most one but the list is empty,
  and is an error otherwise.
\<close>

theorem GetPoolID_outcomes:
  "wp (GetPoolID tr cl org name)
     (\<lambda>r t. let ans = answered tr cl (pools_url org name) dec_PoolList \<lparr>pl_Count = 0, pl_Value = []\<rparr> (world s) in
        (\<forall>i. r = Ret (Ok i) \<longleftrightarrow> (\<exists>pl p ps. ans pl \<and> pl_Count pl \<noteq> 0 \<and> pl_Count pl \<le> 1
               \<and> pl_Value pl = p # ps \<and> i = apl_ID p))
        \<and> ((\<exists>msg. r = Panic msg) \<longleftrightarrow> (\<exists>pl. ans pl \<and> pl_Count pl \<noteq> 0 \<and> pl_Count pl \<le> 1 \<and> pl_Value pl = []))) s"
  by (rule wp_GetPoolID)

section \<open>Status and metrics\<close>



text \<open>
  C35.  Status and metrics agree.  When the last phase of a reconciliation completes, the status it stored
  reports the pool as available with the number of active agents and of pending jobs (in 32 bits),
  and the gauges of the pool show the same two numbers.
\<close>

theorem status_and_metrics_agree:
  assumes "status_conditions (rc_Machinery R)"
    and "\<And>p w p' w'. c_UpdateStatus (rc_Client R) p w = (Ok p', w') \<Longrightarrow> ap_Name p' = ap_Name p"
    and "reconcile_status R req pool A js desired n s = (Ret (requeue, None), t)"
  shows "published req pool n (js_Pending js) (trace t)"
  using wp_run [OF wp_status_published [OF assms(1,2)] assms(3)] by simp

theorem status_and_metrics_agree_witness:
  "published demo_req demo_pool 1 1 (trace (snd (reconcile_status (demo_operator False) demo_req demo_pool
      (Client_face (table_transport demo_table) demo_client) demo_status 1 1 demo_state)))"
proof -
  let ?run = "reconcile_status (demo_operator False) demo_req demo_pool
      (Client_face (table_transport demo_table) demo_client) demo_status 1 1 demo_state"
  have ret: "fst ?run = Ret (requeue, None)" by code_simp
  have sc: "status_conditions (rc_Machinery (demo_operator False))"
    using mem.status_conditions_axioms by (simp add: demo_operator_def)
  have name: "ap_Name p' = ap_Name p" if "c_UpdateStatus (rc_Client (demo_operator False)) p w = (Ok p', w')" for p w p' w'
    using that
    by (auto simp: demo_operator_def mem_client_def served_by_def mem_UpdateStatus_def Let_def
        dest!: lookup_admitted split: option.splits)
  from status_and_metrics_agree [OF sc name fst_run [OF ret]] show ?thesis by (simp add: demo_status_def)
qed

text \<open>
  C36.  At the desired state a reconciliation only reads and reports: when the listed pods are all active,
  as many as desired, and the placeholder is settled, the pod phase makes no call but the two
  lists, the status update and the gauges.  The loop is level-triggered and does not repeat work.
\<close>

theorem reconcile_settled_only_reports:
  assumes "c_ListPods (rc_Client R) (nn_Namespace req) [(labelPoolName, ap_Name pool)] (world s) = (Ok pods, w')"
    and "\<forall>p \<in> set pods. active p"
    and "int (length pods) = of_int32 (clamp (to_int32 (js_Pending js)) (sp_MinAgents (ap_Spec pool))
                                             (sp_MaxAgents (ap_Spec pool)))"
    and "dummy_settled pool (clamp (to_int32 (js_Pending js)) (sp_MinAgents (ap_Spec pool))
                                   (sp_MaxAgents (ap_Spec pool)))"
  shows "wp (reconcile_pods R req pool A js) (\<lambda>r t. \<exists>os. trace t = trace s @ os \<and> list_all report_call os) s"
  by (rule wp_pods_settled [OF assms])

theorem reconcile_settled_only_reports_witness:
  "wp (reconcile_pods (demo_operator False) demo_req demo_pool (Client_face (table_transport demo_table) demo_client) demo_status)
     (\<lambda>r t. \<exists>os. trace t = os \<and> list_all report_call os) \<lparr>world = demo_world\<lparr>mem_Pods := [demo_running]\<rparr>, trace = []\<rparr>"
proof -
  let ?s = "\<lparr>world = demo_world\<lparr>mem_Pods := [demo_running]\<rparr>, trace = []\<rparr>"
  have one: "clamp (to_int32 (js_Pending demo_status)) (sp_MinAgents (ap_Spec demo_pool)) (sp_MaxAgents (ap_Spec demo_pool)) = 1"
    by code_simp
  have "agent_labels demo_pool labelPoolName = Some ''ci''"
    by (simp add: agent_labels_pool demo_pool_def demo_spec_def)
  then have list: "c_ListPods (rc_Client (demo_operator False)) (nn_Namespace demo_req) [(labelPoolName, ap_Name demo_pool)] (world ?s)
      = (Ok [demo_running], world ?s)"
    by (simp add: demo_operator_def mem_client_def served_by_def mem_ListPods_def demo_running_def
        demo_req_def matches_def) (simp add: demo_pool_def)
  from reconcile_settled_only_reports [OF list, of demo_status] show ?thesis
    unfolding one by (simp add: active_def demo_running_def dummy_settled_def of_int32_def) (simp add: demo_pool_def)
qed

section \<open>Runs of the operator\<close>







text \<open>
  C6.  The scaling step reaches its aim: unless a creation failure was counted or a deletion failed, the
  number of active pods afterwards is the desired one, except that with too many pods the busy ones
  stay: then exactly as many idle pods are gone as are in excess, or all idle ones.
\<close>

theorem scaling_reaches_desired:
  "wp (reconcile_scale c m pool ns n pods desired busy)
     (\<lambda>r t. \<exists>os. trace t = trace s @ os
        \<and> (\<forall>j. r = Ret j \<longrightarrow> create_failure pool ns \<in> set os \<or> list_ex failed_delete os
             \<or> j = (if n \<le> of_int32 desired then of_int32 desired
                    else n - min (n - of_int32 desired) (int (length (idle busy pods)))))) s"
  by (rule wp_reconcile_scale_exact)

theorem scaling_reaches_desired_witness:
  "fst (reconcile_scale (mem_client False) mem_machinery demo_pool ''ns'' 1 [demo_running] 0 Map.empty demo_state) = Ret 0"
proof -
  let ?run = "reconcile_scale (mem_client False) mem_machinery demo_pool ''ns'' 1 [demo_running] 0 Map.empty demo_state"
  have clean: "list_all (\<lambda>ob. \<not> failed_delete ob \<and> (case ob of CounterInc _ _ \<Rightarrow> False | _ \<Rightarrow> True)) (trace (snd ?run))"
    by code_simp
  have "case fst ?run of Ret j \<Rightarrow> True | Panic _ \<Rightarrow> False" by code_simp
  then obtain j where j: "fst ?run = Ret j" by (auto split: outcome.splits)
  from clean have "create_failure demo_pool ''ns'' \<notin> set (trace (snd ?run))" "\<not> list_ex failed_delete (trace (snd ?run))"
    by (auto simp: list_all_iff list_ex_iff)
  moreover have "length (idle Map.empty [demo_running]) = 1" by simp
  ultimately show ?thesis
    using wp_run [OF scaling_reaches_desired fst_run [OF j]] j by (auto simp: demo_state_def)
qed

section \<open>Copies of resources\<close>

text \<open>
  C37.  \<^verbatim>\<open>DeepCopy\<close> of a pool is faithful and independent.  When the copying functions of the Kubernetes
  API structs are deep copiers, the copy has the same contents as the original through all
  references, the original is unchanged, the two share no memory, and writing to any memory of one
  of them does not change the contents of the other.
\<close>

theorem AgentPool_DeepCopy_independent:
  assumes "api_structs xview xreach cx" and "wf_heap h"
    and "ptr_view get_pool (pool_view xview) h p = Some v" and "AgentPool_DeepCopy z cx p h = (q, h')"
  shows "ptr_view get_pool (pool_view xview) h' q = Some v \<and> ptr_view get_pool (pool_view xview) h' p = Some v
    \<and> ptr_reach get_pool (pool_reach xreach) h' p \<inter> ptr_reach get_pool (pool_reach xreach) h' q = {}
    \<and> (\<forall>h''. (\<forall>a. a \<notin> ptr_reach get_pool (pool_reach xreach) h' q \<longrightarrow> h_cells h'' a = h_cells h' a) \<longrightarrow>
          ptr_view get_pool (pool_view xview) h'' p = Some v)
    \<and> (\<forall>h''. (\<forall>a. a \<notin> ptr_reach get_pool (pool_reach xreach) h' p \<longrightarrow> h_cells h'' a = h_cells h' a) \<longrightarrow>
          ptr_view get_pool (pool_view xview) h'' q = Some v)"
  by (rule deep_copier.independent [OF api_structs.AgentPool_copier [OF assms(1)] assms(2-4)])

theorem AgentPool_DeepCopy_independent_witness:
  "\<exists>v q h'. AgentPool_DeepCopy (ApiStruct [] None) api_copy (Some 0) sample_heap = (q, h')
     \<and> ptr_view get_pool (pool_view (\<lambda>h x. pair_view plain_view (ptr_view get_string plain_view) h (api_flat x))) h' q = Some v
     \<and> ptr_view get_pool (pool_view (\<lambda>h x. pair_view plain_view (ptr_view get_string plain_view) h (api_flat x)))
         sample_heap (Some 0) = Some v"
proof -
  from sample_viewed obtain v where v: "ptr_view get_pool (pool_view (\<lambda>h x. pair_view plain_view
      (ptr_view get_string plain_view) h (api_flat x))) sample_heap (Some 0) = Some v"
    by (auto split: option.splits)
  from AgentPool_DeepCopy_independent [OF api.api_structs_axioms sample_wf v prod.collapse [symmetric],
      of "ApiStruct [] None"] v show ?thesis by (metis prod.collapse)
qed

section \<open>The manager process\<close>

text \<open>
  C38.  Start-up.  A command line that does not parse ends the process with the status of the flag package
  before anything is set up, and so does, with status 1, a missing cluster configuration.  Otherwise
  the steps (create the manager, register the controller, add
  the health and readiness checks, start) are taken in this order, each only after the one before
  has succeeded, and the process ends with status 0 exactly after all of them, including the run of
  the manager, have succeeded, and with status 1 after the first failure.
\<close>

theorem main_starts_in_order:
  "wp (main rt m tr ext args)
     (\<lambda>r t. case parse_flags (operator_flags @ ext) args default_flags of
        FlagExit code \<Rightarrow> r = Ret code \<and> b_steps t = b_steps b
      | Parsed fl \<Rightarrow> (case fst (rt_GetConfigOrDie rt (b_world b)) of
            None \<Rightarrow> r = Ret 1 \<and> b_steps t = b_steps b
          | Some cfg \<Rightarrow> \<exists>n \<le> 5. \<exists>steps. b_steps t = b_steps b @ steps \<and> stopped_at n steps
               \<and> r = Ret (plan_status n))) b"
  by (rule wp_main)

text \<open>
  C39.  Flags round trip: a command line that sets every flag of the operator to given values is parsed to
  exactly these values, whatever the values (also empty ones, or ones with dashes and equals signs),
  the defaults, and the flags that other packages define.
\<close>

theorem flags_round_trip:
  "parse_flags (operator_flags @ ext) (render_flags fl) fl0 = Parsed fl"
  by (rule parse_render)

text \<open>
  C40.  Servers.  Unless \<^verbatim>\<open>enable-http2\<close> is given, the TLS options of both the metrics and the webhook
  server leave HTTP/1.1 as the only protocol; the metrics endpoint is protected by authentication
  and authorization exactly when it is served securely, which is the default.
\<close>

theorem servers_hardened:
  "apply_opts (mo_TLSOpts (co_Metrics (manager_options fl))) cfg
     = (if fl_enableHTTP2 fl then cfg else cfg\<lparr>tls_NextProtos := [''http/1.1'']\<rparr>)
   \<and> apply_opts (wo_TLSOpts (co_WebhookServer (manager_options fl))) cfg
     = (if fl_enableHTTP2 fl then cfg else cfg\<lparr>tls_NextProtos := [''http/1.1'']\<rparr>)
   \<and> (mo_FilterProvider (co_Metrics (manager_options fl)) = Some WithAuthenticationAndAuthorization
        \<longleftrightarrow> mo_SecureServing (co_Metrics (manager_options fl)))
   \<and> mo_SecureServing (co_Metrics (manager_options default_flags))
   \<and> \<not> fl_enableHTTP2 default_flags"
  by (simp add: manager_options_def metrics_fields apply_tlsOpts default_flags_def)

end
